theory Spec2Isabelle
  imports Complex_Main
begin

section \<open>The FEM solver of itkFEMSolver.cxx\<close>

text \<open>
  A shallow embedding of \<^verbatim>\<open>itk::fem::Solver\<close> (file
  \<^verbatim>\<open>Code/Numerics/FEM/itkFEMSolver.cxx\<close>): the object reader
  \<^verbatim>\<open>ReadAnyObjectFromStream\<close>, the numbering pass \<^verbatim>\<open>GenerateGFN\<close>
  and the two assemblers \<^verbatim>\<open>AssembleK\<close> and \<^verbatim>\<open>AssembleF\<close>.

  The classes the solver works with (Element, the Load classes, the linear system
  wrapper, the object factory) are declared in headers that are not part of the
  source file. They appear here through the members the solver calls, with the
  names the solver uses.
\<close>

subsection \<open>Values, exceptions and the linear system wrapper\<close>

text \<open>
  \<^verbatim>\<open>Float\<close> values are passed through by the solver and compared with zero
  once; no arithmetic is done on them here, so they are taken as the reals they denote.
  Degree of freedom identifiers are unsigned in the source, \<^verbatim>\<open>NGFN\<close>,
  \<^verbatim>\<open>NMFC\<close> and the constraint index are signed (the source tests
  \<^verbatim>\<open>NGFN<=0\<close>). They are natural numbers and integers here; the comparisons of an
  identifier with \<^verbatim>\<open>NGFN\<close> are made only where \<^verbatim>\<open>NGFN\<close> is positive, where the
  unsigned comparison of the source and the comparison of the numbers agree.
\<close>

type_synonym Float = real

type_synonym DegreeOfFreedomIDType = nat

text \<open>
  The exceptions of the source carry a location and a description (file and line are
  left out). \<open>std_out_of_range\<close> is what \<^verbatim>\<open>std::string::substr\<close> throws.
  \<open>UndefinedBehaviour\<close> is not an exception of the program: it marks the places
  where the C++ has no defined result (an unchecked read past the end of a
  \<^verbatim>\<open>vnl_vector\<close>, an integer modulo by zero), so that they are branches of the
  model and not arbitrary values.
\<close>

datatype FEMException =
    FEMExceptionIO string string
  | FEMExceptionSolution string string
  | std_out_of_range
  | UndefinedBehaviour string

text \<open>
  A function that can throw returns either the exception together with the state
  reached when it was thrown (\<open>Inl\<close>), or the state reached normally (\<open>Inr\<close>).
\<close>

type_synonym 'a throws = "(FEMException \<times> 'a) + 'a"

text \<open>
  The linear system wrapper \<^verbatim>\<open>m_ls\<close> is an abstract class for the solver; what
  the solver does to it is the sequence of member calls it makes. The state of
  \<^verbatim>\<open>m_ls\<close> is modelled as that sequence, oldest call first.
\<close>

datatype LinearSystemWrapper_call =
    SetSystemOrder int
  | InitializeMatrix
  | AddMatrixValue int int Float
  | SetMatrixValue int int Float
  | InitializeVector
  | AddVectorValue int Float
  | SetVectorValue int Float

subsection \<open>Elements, loads and the solver\<close>

text \<open>
  An element is known to the solver through its virtual member functions. The type
  parameter \<open>'l\<close> is the data of an element load that \<^verbatim>\<open>Fe\<close> reads.
  \<^verbatim>\<open>GetPoint\<close> returns the handle (position in the node array) of a node.
\<close>

record 'l Element =
  GetNumberOfDegreesOfFreedom :: nat
  GetNumberOfDegreesOfFreedomPerPoint :: nat
  GetNumberOfPoints :: nat
  GetPoint :: "nat \<Rightarrow> nat"
  GetDegreeOfFreedom :: "nat \<Rightarrow> DegreeOfFreedomIDType"
  GetDegreeOfFreedomAtPoint :: "nat \<Rightarrow> nat \<Rightarrow> DegreeOfFreedomIDType"
  Ke :: "nat \<Rightarrow> nat \<Rightarrow> Float"
  Fe :: "'l \<Rightarrow> Float list"

text \<open>A node keeps the set of (handles of) the elements that use it.\<close>

record Node =
  m_elements :: "nat set"

text \<open>
  One term of a multi freedom constraint (\<^verbatim>\<open>LoadBCMFC::MFCTerm\<close>): element,
  local degree of freedom and coefficient (the member \<^verbatim>\<open>value\<close> of the source,
  named \<open>term_value\<close> here, \<open>value\<close> being a keyword).
\<close>

record 'l MFCTerm =
  m_element :: "'l Element"
  dof :: nat
  term_value :: Float

record 'l LoadBCMFC =
  lhs :: "'l MFCTerm list"
  rhs :: "Float list"
  Index :: int

record 'l LoadElement =
  el :: "'l Element list"
  load_data :: 'l

record 'l LoadNode =
  m_element :: "'l Element"
  m_pt :: nat
  F :: "Float list"

text \<open>
  The load array holds objects of classes derived from \<^verbatim>\<open>Load\<close>; the solver
  tells them apart with \<^verbatim>\<open>dynamic_cast\<close>. \<open>IsOtherLoad\<close> stands for every
  load class that is none of the three the solver handles.
\<close>

datatype 'l Load =
    IsLoadNode "'l LoadNode"
  | IsLoadElement "'l LoadElement"
  | IsLoadBCMFC "'l LoadBCMFC"
  | IsOtherLoad

text \<open>
  The members of \<^verbatim>\<open>Solver\<close> that the modelled functions use, together with the
  static counter \<^verbatim>\<open>Element::m_DOFCounter\<close> that \<^verbatim>\<open>GenerateGFN\<close> reads.
\<close>

record 'l Solver =
  el :: "'l Element list"
  node :: "Node list"
  load :: "'l Load list"
  NGFN :: int
  NMFC :: int
  m_ls :: "LinearSystemWrapper_call list"
  m_DOFCounter :: int

subsection \<open>Loops that can throw\<close>

text \<open>
  A \<^verbatim>\<open>for\<close> loop over a range or a container whose body can throw: the first
  exception ends the loop and is the result, with the state it was thrown in.
\<close>

fun for_each :: "('a \<Rightarrow> 's \<Rightarrow> 's throws) \<Rightarrow> 'a list \<Rightarrow> 's \<Rightarrow> 's throws" where
  "for_each body [] s = Inr s"
| "for_each body (x # xs) s =
     (case body x s of
        Inl err \<Rightarrow> Inl err
      | Inr s' \<Rightarrow> for_each body xs s')"

subsection \<open>AssembleK\<close>

text \<open>
  Lines 321--330: the search for \<^verbatim>\<open>LoadBCMFC\<close> objects in the load array. Every
  one found gets \<^verbatim>\<open>Index=NMFC\<close>, is appended to \<^verbatim>\<open>mfcLoads\<close>, and
  \<^verbatim>\<open>NMFC\<close> is incremented. The result is the load array (with the indices
  written), \<^verbatim>\<open>mfcLoads\<close> and \<^verbatim>\<open>NMFC\<close>.
\<close>

fun mfc_scan ::
  "'l Load list \<Rightarrow> 'l LoadBCMFC list \<times> int \<Rightarrow> 'l Load list \<times> 'l LoadBCMFC list \<times> int" where
  "mfc_scan [] (mfcLoads, nmfc) = ([], mfcLoads, nmfc)"
| "mfc_scan (IsLoadBCMFC l1 # rest) (mfcLoads, nmfc) =
     (case mfc_scan rest (mfcLoads @ [l1\<lparr>Index := nmfc\<rparr>], nmfc + 1) of
        (rest', m, n) \<Rightarrow> (IsLoadBCMFC (l1\<lparr>Index := nmfc\<rparr>) # rest', m, n))"
| "mfc_scan (l # rest) (mfcLoads, nmfc) =
     (case mfc_scan rest (mfcLoads, nmfc) of
        (rest', m, n) \<Rightarrow> (l # rest', m, n))"

text \<open>Lines 359--375: the body of the loop over the columns \<open>k\<close> of row \<open>j\<close>.\<close>

definition AssembleK_entry ::
  "int \<Rightarrow> 'l Element \<Rightarrow> nat \<Rightarrow> nat \<Rightarrow> LinearSystemWrapper_call list
     \<Rightarrow> LinearSystemWrapper_call list throws" where
  "AssembleK_entry ngfn e j k ls =
     (if int (GetDegreeOfFreedom e j) \<ge> ngfn \<or> int (GetDegreeOfFreedom e k) \<ge> ngfn
      then Inl (FEMExceptionSolution ''Solver::AssembleK()'' ''Illegal GFN!'', ls)
      else if Ke e j k \<noteq> 0
      then Inr (ls @ [AddMatrixValue (int (GetDegreeOfFreedom e j))
                                     (int (GetDegreeOfFreedom e k)) (Ke e j k)])
      else Inr ls)"

text \<open>Lines 350--379: the body of the loop over the elements.\<close>

definition AssembleK_element ::
  "int \<Rightarrow> 'l Element \<Rightarrow> LinearSystemWrapper_call list
     \<Rightarrow> LinearSystemWrapper_call list throws" where
  "AssembleK_element ngfn e ls =
     (let Ne = GetNumberOfDegreesOfFreedom e in
      for_each (\<lambda>j. for_each (\<lambda>k. AssembleK_entry ngfn e j k) [0..<Ne]) [0..<Ne] ls)"

text \<open>Lines 395--405: the body of the loop over the terms \<open>q\<close> of the constraint \<open>c\<close>.\<close>

definition AssembleK_term ::
  "int \<Rightarrow> 'l LoadBCMFC \<Rightarrow> 'l MFCTerm \<Rightarrow> LinearSystemWrapper_call list
     \<Rightarrow> LinearSystemWrapper_call list throws" where
  "AssembleK_term ngfn c q ls =
     (let gfn = GetDegreeOfFreedom (MFCTerm.m_element q) (dof q) in
      if int gfn \<ge> ngfn
      then Inl (FEMExceptionSolution ''Solver::AssembleK()'' ''Illegal GFN!'', ls)
      else Inr (ls @ [SetMatrixValue (int gfn) (ngfn + Index c) (term_value q),
                      SetMatrixValue (ngfn + Index c) (int gfn) (term_value q)]))"

text \<open>Lines 390--408: the body of the loop over \<^verbatim>\<open>mfcLoads\<close>.\<close>

definition AssembleK_mfc ::
  "int \<Rightarrow> 'l LoadBCMFC \<Rightarrow> LinearSystemWrapper_call list
     \<Rightarrow> LinearSystemWrapper_call list throws" where
  "AssembleK_mfc ngfn c ls = for_each (AssembleK_term ngfn c) (lhs c) ls"

text \<open>
  \<^verbatim>\<open>Solver::AssembleK\<close>, lines 304--410. When an exception leaves the function the
  solver keeps what was written so far: \<^verbatim>\<open>NMFC\<close>, the indices of the
  constraints and the calls already made on \<^verbatim>\<open>m_ls\<close>.
\<close>

definition AssembleK :: "'l Solver \<Rightarrow> 'l Solver throws" where
  "AssembleK s =
     (if NGFN s \<le> 0 then Inr s
      else
        (case mfc_scan (load s) ([], 0) of
           (load', mfcLoads, nmfc) \<Rightarrow>
             let s1 = s\<lparr>load := load', NMFC := nmfc,
                        m_ls := m_ls s @ [SetSystemOrder (NGFN s + nmfc), InitializeMatrix]\<rparr>
             in
               (case for_each (AssembleK_element (NGFN s)) (Solver.el s) (m_ls s1) of
                  Inl (x, ls) \<Rightarrow> Inl (x, s1\<lparr>m_ls := ls\<rparr>)
                | Inr ls \<Rightarrow>
                    (case for_each (AssembleK_mfc (NGFN s)) mfcLoads ls of
                       Inl (x, ls') \<Rightarrow> Inl (x, s1\<lparr>m_ls := ls'\<rparr>)
                     | Inr ls' \<Rightarrow> Inr (s1\<lparr>m_ls := ls'\<rparr>)))))"

subsection \<open>AssembleF\<close>

text \<open>
  Reading component \<open>i\<close> of a \<^verbatim>\<open>vnl_vector\<close> (\<^verbatim>\<open>v[i]\<close>, \<^verbatim>\<open>v(i)\<close>): the
  source does not check the index, so a read outside the vector has no defined
  result.
\<close>

definition vec_at :: "Float list \<Rightarrow> int \<Rightarrow> Float option" where
  "vec_at v i = (if 0 \<le> i \<and> i < int (length v) then Some (v ! nat i) else None)"

text \<open>
  The value of an expression of type \<^verbatim>\<open>unsigned int\<close>. The loop counters and the
  numbers of degrees of freedom in \<^verbatim>\<open>AssembleF\<close> are \<^verbatim>\<open>unsigned int\<close>, so the
  index expressions \<^verbatim>\<open>dof+P*dim\<close> and \<^verbatim>\<open>j+dim*Ne\<close> are computed modulo \<open>2^32\<close>, the
  \<^verbatim>\<open>int\<close> operand \<^verbatim>\<open>dim\<close> being converted first: a large or a negative \<^verbatim>\<open>dim\<close>
  wraps around.
\<close>

definition unsigned32 :: "int \<Rightarrow> int" where
  "unsigned32 x = x mod 2 ^ 32"

text \<open>Lines 458--470: the body of the loop over the degrees of freedom of a \<^verbatim>\<open>LoadNode\<close>.\<close>

definition AssembleF_LoadNode_dof ::
  "int \<Rightarrow> int \<Rightarrow> 'l LoadNode \<Rightarrow> nat \<Rightarrow> LinearSystemWrapper_call list
     \<Rightarrow> LinearSystemWrapper_call list throws" where
  "AssembleF_LoadNode_dof ngfn dimn l1 i ls =
     (let gfn = GetDegreeOfFreedomAtPoint (m_element l1) (m_pt l1) i in
      if int gfn \<ge> ngfn
      then Inl (FEMExceptionSolution ''Solver::AssembleF()'' ''Illegal GFN!'', ls)
      else
        (case vec_at (F l1)
                (unsigned32
                   (int i + int (GetNumberOfDegreesOfFreedomPerPoint (m_element l1)) * dimn)) of
           None \<Rightarrow> Inl (UndefinedBehaviour ''read outside LoadNode::F'', ls)
         | Some v \<Rightarrow> Inr (ls @ [AddVectorValue (int gfn) v])))"

text \<open>Lines 446--475: a \<^verbatim>\<open>LoadNode\<close>.\<close>

definition AssembleF_LoadNode ::
  "int \<Rightarrow> int \<Rightarrow> 'l LoadNode \<Rightarrow> LinearSystemWrapper_call list
     \<Rightarrow> LinearSystemWrapper_call list throws" where
  "AssembleF_LoadNode ngfn dimn l1 ls =
     (let P = GetNumberOfDegreesOfFreedomPerPoint (m_element l1) in
      if P = 0 then Inl (UndefinedBehaviour ''modulo by zero'', ls)
      else if length (F l1) mod P \<noteq> 0
      then Inl (FEMExceptionSolution ''Solver::AssembleF()''
                  ''Illegal size of a force vector in LoadNode object!'', ls)
      else for_each (AssembleF_LoadNode_dof ngfn dimn l1) [0..<P] ls)"

text \<open>
  Lines 496--508 and 519--532: one element that a \<^verbatim>\<open>LoadElement\<close> is applied to.
  The two loops of the source have the same body.
\<close>

definition AssembleF_LoadElement_dof ::
  "int \<Rightarrow> int \<Rightarrow> 'l Element \<Rightarrow> Float list \<Rightarrow> nat \<Rightarrow> LinearSystemWrapper_call list
     \<Rightarrow> LinearSystemWrapper_call list throws" where
  "AssembleF_LoadElement_dof ngfn dimn el0 Fe0 j ls =
     (if int (GetDegreeOfFreedom el0 j) \<ge> ngfn
      then Inl (FEMExceptionSolution ''Solver::AssembleF()'' ''Illegal GFN!'', ls)
      else
        (case vec_at Fe0 (unsigned32 (int j + dimn * int (GetNumberOfDegreesOfFreedom el0))) of
           None \<Rightarrow> Inl (UndefinedBehaviour ''read outside Fe'', ls)
         | Some v \<Rightarrow> Inr (ls @ [AddVectorValue (int (GetDegreeOfFreedom el0 j)) v])))"

definition AssembleF_LoadElement_on ::
  "int \<Rightarrow> int \<Rightarrow> 'l LoadElement \<Rightarrow> 'l Element \<Rightarrow> LinearSystemWrapper_call list
     \<Rightarrow> LinearSystemWrapper_call list throws" where
  "AssembleF_LoadElement_on ngfn dimn l1 el0 ls =
     (let Fe0 = Fe el0 (load_data l1);
          Ne = GetNumberOfDegreesOfFreedom el0
      in for_each (AssembleF_LoadElement_dof ngfn dimn el0 Fe0) [0..<Ne] ls)"

text \<open>Lines 481--540: a \<^verbatim>\<open>LoadElement\<close>; \<open>els\<close> is the element array of the solver.\<close>

definition AssembleF_LoadElement ::
  "int \<Rightarrow> int \<Rightarrow> 'l Element list \<Rightarrow> 'l LoadElement \<Rightarrow> LinearSystemWrapper_call list
     \<Rightarrow> LinearSystemWrapper_call list throws" where
  "AssembleF_LoadElement ngfn dimn els l1 ls =
     (if LoadElement.el l1 \<noteq> []
      then for_each (AssembleF_LoadElement_on ngfn dimn l1) (LoadElement.el l1) ls
      else for_each (AssembleF_LoadElement_on ngfn dimn l1) els ls)"

text \<open>
  Lines 545--551: a \<^verbatim>\<open>LoadBCMFC\<close>. The index of \<^verbatim>\<open>rhs[dim]\<close> is \<^verbatim>\<open>dim\<close> itself; a
  negative \<^verbatim>\<open>dim\<close> is an index of \<open>2^31\<close> or more in the source, outside every vector
  with fewer components, and outside the vector here.
\<close>

definition AssembleF_LoadBCMFC ::
  "int \<Rightarrow> int \<Rightarrow> 'l LoadBCMFC \<Rightarrow> LinearSystemWrapper_call list
     \<Rightarrow> LinearSystemWrapper_call list throws" where
  "AssembleF_LoadBCMFC ngfn dimn l1 ls =
     (case vec_at (rhs l1) dimn of
        None \<Rightarrow> Inl (UndefinedBehaviour ''read outside LoadBCMFC::rhs'', ls)
      | Some v \<Rightarrow> Inr (ls @ [SetVectorValue (ngfn + Index l1) v]))"

text \<open>
  Lines 430--559: the body of the loop over the load array. The call
  \<^verbatim>\<open>l0->SetSolution(m_ls)\<close> hands the wrapper to the load and makes no call on the
  wrapper. A load of another class is skipped.
\<close>

fun AssembleF_load ::
  "int \<Rightarrow> int \<Rightarrow> 'l Element list \<Rightarrow> 'l Load \<Rightarrow> LinearSystemWrapper_call list
     \<Rightarrow> LinearSystemWrapper_call list throws" where
  "AssembleF_load ngfn dimn els (IsLoadNode l1) ls = AssembleF_LoadNode ngfn dimn l1 ls"
| "AssembleF_load ngfn dimn els (IsLoadElement l1) ls = AssembleF_LoadElement ngfn dimn els l1 ls"
| "AssembleF_load ngfn dimn els (IsLoadBCMFC l1) ls = AssembleF_LoadBCMFC ngfn dimn l1 ls"
| "AssembleF_load ngfn dimn els IsOtherLoad ls = Inr ls"

text \<open>\<^verbatim>\<open>Solver::AssembleF\<close>, lines 418--562.\<close>

definition AssembleF :: "'l Solver \<Rightarrow> int \<Rightarrow> 'l Solver throws" where
  "AssembleF s dimn =
     (if NGFN s \<le> 0 then Inr s
      else
        (case for_each (AssembleF_load (NGFN s) dimn (Solver.el s)) (load s)
                (m_ls s @ [InitializeVector]) of
           Inl (x, ls) \<Rightarrow> Inl (x, s\<lparr>m_ls := ls\<rparr>)
         | Inr ls \<Rightarrow> Inr (s\<lparr>m_ls := ls\<rparr>)))"

subsection \<open>GenerateGFN\<close>

text \<open>
  The members of \<^verbatim>\<open>Element\<close> that \<^verbatim>\<open>GenerateGFN\<close> calls and that change the
  model are defined outside the source file; they are parameters here.
  \<^verbatim>\<open>ClearDegreesOfFreedom\<close> changes the element it is called on.
  \<^verbatim>\<open>LinkDegreesOfFreedom\<close>, called on the element with the given handle, may write
  the tables of all elements that share a node with it and advances the static counter,
  so it acts on the solver. \<open>DOFCounter_reset\<close> is the value that
  \<^verbatim>\<open>ResetGlobalDOFCounter\<close> gives the counter; \<^verbatim>\<open>GetGlobalDOFCounter\<close> reads
  the counter.
\<close>

record 'l ElementClass =
  ClearDegreesOfFreedom :: "'l Element \<Rightarrow> 'l Element"
  LinkDegreesOfFreedom :: "nat \<Rightarrow> 'l Solver \<Rightarrow> 'l Solver"
  DOFCounter_reset :: int

text \<open>Lines 257--260: the element sets of all nodes are cleared.\<close>

definition clear_m_elements :: "'l Solver \<Rightarrow> 'l Solver" where
  "clear_m_elements s = s\<lparr>node := map (\<lambda>n. n\<lparr>m_elements := {}\<rparr>) (node s)\<rparr>"

text \<open>
  Lines 265--274: the body of the first loop over the elements, for the element with
  handle \<open>e\<close>. Its table is cleared and it is entered in the set of each of its points.
  A point that is not in the node array of the solver is not seen by the solver.
\<close>

definition register_element :: "'l ElementClass \<Rightarrow> nat \<Rightarrow> 'l Solver \<Rightarrow> 'l Solver" where
  "register_element cls e s =
     (let s1 = s\<lparr>el := (Solver.el s)[e := ClearDegreesOfFreedom cls (Solver.el s ! e)]\<rparr>;
          Npts = GetNumberOfPoints (Solver.el s1 ! e)
      in fold (\<lambda>pt s2.
                 let n = GetPoint (Solver.el s2 ! e) pt
                 in s2\<lparr>node := (node s2)[n := (node s2 ! n)\<lparr>m_elements := insert e (m_elements (node s2 ! n))\<rparr>]\<rparr>)
              [0..<Npts] s1)"

text \<open>
  \<^verbatim>\<open>Solver::GenerateGFN\<close>, lines 253--296. After \<^verbatim>\<open>NGFN\<close> is set the source
  returns if it is positive; otherwise it reaches the end of the function, which
  returns as well.
\<close>

definition GenerateGFN :: "'l ElementClass \<Rightarrow> 'l Solver \<Rightarrow> 'l Solver throws" where
  "GenerateGFN cls s =
     (let s1 = clear_m_elements s;
          s2 = fold (register_element cls) [0..<length (Solver.el s1)] s1;
          s3 = s2\<lparr>m_DOFCounter := DOFCounter_reset cls\<rparr>;
          s4 = fold (LinkDegreesOfFreedom cls) [0..<length (Solver.el s3)] s3;
          s5 = s4\<lparr>NGFN := m_DOFCounter s4 + 1\<rparr>
      in if NGFN s5 > 0 then Inr s5 else Inr s5)"

subsection \<open>ReadAnyObjectFromStream\<close>

text \<open>
  The input stream, as far as the reader uses it: the characters, the read position and
  the two state bits that the calls set. The members of \<^verbatim>\<open>std::istream\<close> follow the
  C++ standard (ISO 14882:1998, in force for this source): a call on a stream that is
  not \<open>good\<close> sets \<open>failbit\<close> and reads nothing; \<^verbatim>\<open>tellg\<close> gives \<open>-1\<close> (here
  \<open>None\<close>) and \<^verbatim>\<open>seekg\<close> does nothing when \<open>failbit\<close> is set.
\<close>

record istream =
  content :: string
  gpos :: nat
  eofbit :: bool
  failbit :: bool

definition good :: "istream \<Rightarrow> bool" where
  "good f = (\<not> eofbit f \<and> \<not> failbit f)"

definition tellg :: "istream \<Rightarrow> nat option" where
  "tellg f = (if failbit f then None else Some (gpos f))"

definition seekg :: "nat option \<Rightarrow> istream \<Rightarrow> istream" where
  "seekg l f =
     (if failbit f then f
      else case l of None \<Rightarrow> f\<lparr>failbit := True\<rparr> | Some p \<Rightarrow> f\<lparr>gpos := p\<rparr>)"

text \<open>\<^verbatim>\<open>f.get()\<close>: the next character, or end of file (\<open>None\<close>).\<close>

definition get :: "istream \<Rightarrow> char option \<times> istream" where
  "get f =
     (if \<not> good f then (None, f\<lparr>failbit := True\<rparr>)
      else if gpos f < length (content f)
      then (Some (content f ! gpos f), f\<lparr>gpos := gpos f + 1\<rparr>)
      else (None, f\<lparr>eofbit := True, failbit := True\<rparr>))"

text \<open>
  \<^verbatim>\<open>f.getline(buf,n,delim)\<close>: characters are stored until the end of the input is
  reached (\<open>eofbit\<close>), or the next character is the delimiter (it is taken from the
  stream and not stored), or \<open>n - 1\<close> characters are stored (\<open>failbit\<close>), tested in this
  order; \<open>failbit\<close> is set as well when no character was taken from the stream.
\<close>

definition getline :: "nat \<Rightarrow> char \<Rightarrow> istream \<Rightarrow> string \<times> istream" where
  "getline n delim f =
     (if \<not> good f then ([], f\<lparr>failbit := True\<rparr>)
      else
        let rest = drop (gpos f) (content f);
            tok = takeWhile (\<lambda>c. c \<noteq> delim) rest
        in if length tok \<le> n - 1
           then if length tok < length rest
                then (tok, f\<lparr>gpos := gpos f + length tok + 1\<rparr>)
                else (tok, f\<lparr>gpos := gpos f + length tok, eofbit := True, failbit := (tok = [])\<rparr>)
           else (take (n - 1) tok, f\<lparr>gpos := gpos f + (n - 1), failbit := True\<rparr>))"

text \<open>
  The members of \<^verbatim>\<open>std::string\<close> that the reader uses. A position is \<open>None\<close> for
  \<^verbatim>\<open>npos\<close>. \<open>substr s b e\<close> is \<^verbatim>\<open>s.substr(b,e-b)\<close>; it throws
  \<^verbatim>\<open>std::out_of_range\<close> when the start is beyond the end of the string, as \<^verbatim>\<open>npos\<close>
  always is.
\<close>

definition find_first_not_of :: "string \<Rightarrow> string \<Rightarrow> nat option" where
  "find_first_not_of s chars =
     (let n = length (takeWhile (\<lambda>c. c \<in> set chars) s)
      in if n < length s then Some n else None)"

definition find_first_of :: "string \<Rightarrow> string \<Rightarrow> nat option \<Rightarrow> nat option" where
  "find_first_of s chars pos =
     (case pos of
        None \<Rightarrow> None
      | Some p \<Rightarrow>
          let n = length (takeWhile (\<lambda>c. c \<notin> set chars) (drop p s))
          in if p + n < length s then Some (p + n) else None)"

definition substr :: "string \<Rightarrow> nat option \<Rightarrow> nat \<Rightarrow> FEMException + string" where
  "substr s pos e =
     (case pos of
        None \<Rightarrow> Inl std_out_of_range
      | Some p \<Rightarrow> if p > length s then Inl std_out_of_range else Inr (take (e - p) (drop p s)))"

text \<open>
  What the reader takes from the rest of the library, as parameters: the function
  \<^verbatim>\<open>SkipWhiteSpace\<close> and the string \<^verbatim>\<open>whitespaces\<close> of the utilities, the two
  functions of the object factory, the class of a created object as the two
  \<^verbatim>\<open>dynamic_cast\<close> tests see it, and the virtual \<^verbatim>\<open>Read\<close> of the object, which
  returns the stream as it leaves it and either the exception it throws or the object
  read. The additional information given to \<^verbatim>\<open>Read\<close> points to the arrays of the
  solver, whose types are left open.
\<close>

datatype ObjectClass = IsElement | IsLoad | IsOtherObject

datatype ('n, 'm, 'e) ReadInfoType =
    ElementReadInfo 'n 'm
  | LoadReadInfo 'n 'e
  | NoReadInfo

record ('a, 'n, 'm, 'e) Library =
  SkipWhiteSpace :: "istream \<Rightarrow> istream"
  whitespaces :: string
  ClassName2ID :: "string \<Rightarrow> int"
  Create :: "int \<Rightarrow> 'a option"
  class_of :: "'a \<Rightarrow> ObjectClass"
  Read :: "'a \<Rightarrow> istream \<Rightarrow> ('n, 'm, 'e) ReadInfoType \<Rightarrow> istream \<times> (FEMException + 'a)"

text \<open>
  Lines 57--65: the class name. The characters up to \<^verbatim>\<open>>\<close> are read into a buffer of
  256 characters, the buffer is taken as a C string (it ends at the first zero
  character), and the part from the first character that is not white space up to the
  next white space is cut out.
\<close>

definition read_class_name :: "string \<Rightarrow> istream \<Rightarrow> istream \<times> (FEMException + string)" where
  "read_class_name ws f =
     (case getline 256 CHR ''>'' f of
        (buf, f') \<Rightarrow>
          let s = takeWhile (\<lambda>c. c \<noteq> CHR 0x00) buf;
              b = find_first_not_of s ws;
              e = (case find_first_of s ws b of None \<Rightarrow> length s | Some e \<Rightarrow> e)
          in (f', substr s b e))"

text \<open>
  Lines 134--145, the label \<^verbatim>\<open>out\<close>: the stream is set back to the position \<open>l\<close> and
  the exception of the reader is thrown.
\<close>

definition out :: "nat option \<Rightarrow> istream \<Rightarrow> (FEMException \<times> istream) + 'r" where
  "out l f =
     Inl (FEMExceptionIO ''Solver::ReadAnyObjectFromStream()'' ''Error reading FEM problem stream!'',
          seekg l f)"

text \<open>
  Lines 51--147, one pass from the label \<^verbatim>\<open>start\<close>: the result is \<open>Inl f'\<close> for
  \<^verbatim>\<open>goto start\<close> with the stream \<open>f'\<close>, and \<open>Inr\<close> of the exception thrown or of the
  pointer returned otherwise, with the stream. An exception of \<^verbatim>\<open>Read\<close> is thrown
  again after the object is deleted.
\<close>

definition ReadAnyObject_pass ::
  "('a, 'n, 'm, 'e) Library \<Rightarrow> 'n \<Rightarrow> 'm \<Rightarrow> 'e \<Rightarrow> istream
     \<Rightarrow> istream + ((FEMException \<times> istream) + ('a option \<times> istream))" where
  "ReadAnyObject_pass lib nodes mats els f =
     (let l = tellg f;
          f1 = SkipWhiteSpace lib f
      in if eofbit f1 then Inr (Inr (None, f1))
         else
           (case get f1 of
              (c, f2) \<Rightarrow>
                if c \<noteq> Some CHR ''<'' then Inr (out l f2)
                else
                  (case read_class_name (whitespaces lib) f2 of
                     (f3, Inl x) \<Rightarrow> Inr (Inl (x, f3))
                   | (f3, Inr s) \<Rightarrow>
                       if s = ''END'' then Inl f3
                       else
                         let clID = ClassName2ID lib s
                         in if clID < 0 then Inr (out l f3)
                            else
                              (case Create lib clID of
                                 None \<Rightarrow> Inr (out l f3)
                               | Some a \<Rightarrow>
                                   (case Read lib a f3
                                           (case class_of lib a of
                                              IsElement \<Rightarrow> ElementReadInfo nodes mats
                                            | IsLoad \<Rightarrow> LoadReadInfo nodes els
                                            | IsOtherObject \<Rightarrow> NoReadInfo) of
                                      (f4, Inl x) \<Rightarrow> Inr (Inl (x, f4))
                                    | (f4, Inr a') \<Rightarrow> Inr (Inr (Some a', f4)))))))"

text \<open>
  \<^verbatim>\<open>Solver::ReadAnyObjectFromStream\<close>: passes are made as long as the class name is
  \<^verbatim>\<open>END\<close>. The result is \<open>None\<close> if that never ends.
\<close>

partial_function (option) ReadAnyObjectFromStream ::
  "('a, 'n, 'm, 'e) Library \<Rightarrow> 'n \<Rightarrow> 'm \<Rightarrow> 'e \<Rightarrow> istream
     \<Rightarrow> ((FEMException \<times> istream) + ('a option \<times> istream)) option" where
  "ReadAnyObjectFromStream lib nodes mats els f =
     (case ReadAnyObject_pass lib nodes mats els f of
        Inl f' \<Rightarrow> ReadAnyObjectFromStream lib nodes mats els f'
      | Inr r \<Rightarrow> Some r)"

subsection \<open>The linear system behind the wrapper\<close>

text \<open>
  Modelled from the spec: the implementation of the wrapper is not in the source file.
  The spec describes a matrix and a vector with these operations: set the system
  order; initialise the matrix to zero; accumulate a matrix entry; overwrite a matrix
  entry; initialise the vector to zero; accumulate a vector entry; overwrite a vector
  entry.
\<close>

record LinearSystem =
  order :: int
  matrix :: "int \<Rightarrow> int \<Rightarrow> Float"
  vector :: "int \<Rightarrow> Float"

fun ls_apply :: "LinearSystem \<Rightarrow> LinearSystemWrapper_call \<Rightarrow> LinearSystem" where
  "ls_apply st (SetSystemOrder n) = st\<lparr>order := n\<rparr>"
| "ls_apply st InitializeMatrix = st\<lparr>matrix := (\<lambda>i j. 0)\<rparr>"
| "ls_apply st (AddMatrixValue i j v) =
     st\<lparr>matrix := (\<lambda>i' j'. if i' = i \<and> j' = j then matrix st i j + v else matrix st i' j')\<rparr>"
| "ls_apply st (SetMatrixValue i j v) =
     st\<lparr>matrix := (\<lambda>i' j'. if i' = i \<and> j' = j then v else matrix st i' j')\<rparr>"
| "ls_apply st InitializeVector = st\<lparr>vector := (\<lambda>i. 0)\<rparr>"
| "ls_apply st (AddVectorValue i v) =
     st\<lparr>vector := (\<lambda>i'. if i' = i then vector st i + v else vector st i')\<rparr>"
| "ls_apply st (SetVectorValue i v) =
     st\<lparr>vector := (\<lambda>i'. if i' = i then v else vector st i')\<rparr>"

definition ls_run :: "LinearSystem \<Rightarrow> LinearSystemWrapper_call list \<Rightarrow> LinearSystem" where
  "ls_run st calls = foldl ls_apply st calls"

section \<open>Notions used in the statements\<close>

text \<open>The \<^verbatim>\<open>LoadBCMFC\<close> objects of a load array, in the order of the array.\<close>

fun mfcs_of :: "'l Load list \<Rightarrow> 'l LoadBCMFC list" where
  "mfcs_of [] = []"
| "mfcs_of (IsLoadBCMFC c # rest) = c # mfcs_of rest"
| "mfcs_of (l # rest) = mfcs_of rest"

text \<open>The state a function that can throw ends in, thrown or not.\<close>

fun state_of :: "'a throws \<Rightarrow> 'a" where
  "state_of (Inl (x, s)) = s"
| "state_of (Inr s) = s"

text \<open>The constraints \<open>cs\<close> with the indices \<open>n\<close>, \<open>n + 1\<close>, ... written into them.\<close>

fun renumber :: "int \<Rightarrow> 'l LoadBCMFC list \<Rightarrow> 'l LoadBCMFC list" where
  "renumber n [] = []"
| "renumber n (c # cs) = c\<lparr>Index := n\<rparr> # renumber (n + 1) cs"

text \<open>All global freedom numbers of an element are below \<open>ngfn\<close>.\<close>

definition legal_element :: "int \<Rightarrow> 'l Element \<Rightarrow> bool" where
  "legal_element ngfn e =
     list_all (\<lambda>j. int (GetDegreeOfFreedom e j) < ngfn) [0..<GetNumberOfDegreesOfFreedom e]"

text \<open>The call that the entry \<open>(j, k)\<close> of the stiffness matrix of \<open>e\<close> stands for: none for a zero.\<close>

definition Ke_call :: "'l Element \<Rightarrow> nat \<Rightarrow> nat \<Rightarrow> LinearSystemWrapper_call list" where
  "Ke_call e j k =
     (if Ke e j k = 0 then []
      else [AddMatrixValue (int (GetDegreeOfFreedom e j)) (int (GetDegreeOfFreedom e k)) (Ke e j k)])"

text \<open>The calls of all entries of an element, row by row.\<close>

definition Ke_calls :: "'l Element \<Rightarrow> LinearSystemWrapper_call list" where
  "Ke_calls e =
     concat (map (\<lambda>j. concat (map (Ke_call e j) [0..<GetNumberOfDegreesOfFreedom e]))
                 [0..<GetNumberOfDegreesOfFreedom e])"

text \<open>The global freedom number that a constraint term refers to.\<close>

definition GFN_of :: "'l MFCTerm \<Rightarrow> nat" where
  "GFN_of q = GetDegreeOfFreedom (MFCTerm.m_element q) (dof q)"

text \<open>All terms of a constraint refer to global freedom numbers below \<open>ngfn\<close>.\<close>

definition legal_mfc :: "int \<Rightarrow> 'l LoadBCMFC \<Rightarrow> bool" where
  "legal_mfc ngfn c = list_all (\<lambda>q. int (GFN_of q) < ngfn) (lhs c)"

text \<open>The two calls of one term of the constraint with index \<open>m\<close>.\<close>

definition term_calls :: "int \<Rightarrow> int \<Rightarrow> 'l MFCTerm \<Rightarrow> LinearSystemWrapper_call list" where
  "term_calls ngfn m q =
     [SetMatrixValue (int (GFN_of q)) (ngfn + m) (term_value q),
      SetMatrixValue (ngfn + m) (int (GFN_of q)) (term_value q)]"

text \<open>The calls of all terms of a constraint.\<close>

definition mfc_calls :: "int \<Rightarrow> 'l LoadBCMFC \<Rightarrow> LinearSystemWrapper_call list" where
  "mfc_calls ngfn c = concat (map (term_calls ngfn (Index c)) (lhs c))"

text \<open>The solver after lines 309--343 of \<^verbatim>\<open>AssembleK\<close>: constraints numbered and counted, the matrix sized and initialised.\<close>

definition scanned :: "'l Solver \<Rightarrow> 'l Solver" where
  "scanned s =
     (case mfc_scan (load s) ([], 0) of
        (load', mfcLoads, nmfc) \<Rightarrow>
          s\<lparr>load := load', NMFC := nmfc,
            m_ls := m_ls s @ [SetSystemOrder (NGFN s + nmfc), InitializeMatrix]\<rparr>)"

text \<open>\<open>c\<close> is the call of a nonzero entry of \<open>e\<close> whose freedom numbers are below \<open>ngfn\<close>.\<close>

definition element_call :: "int \<Rightarrow> 'l Element \<Rightarrow> LinearSystemWrapper_call \<Rightarrow> bool" where
  "element_call ngfn e c =
     (\<exists>j<GetNumberOfDegreesOfFreedom e. \<exists>k<GetNumberOfDegreesOfFreedom e.
        Ke e j k \<noteq> 0 \<and> int (GetDegreeOfFreedom e j) < ngfn \<and> int (GetDegreeOfFreedom e k) < ngfn \<and>
        c = AddMatrixValue (int (GetDegreeOfFreedom e j)) (int (GetDegreeOfFreedom e k)) (Ke e j k))"

text \<open>\<open>c\<close> is one of the two calls of a term of the constraint \<open>cc\<close>.\<close>

definition constraint_call :: "int \<Rightarrow> 'l LoadBCMFC \<Rightarrow> LinearSystemWrapper_call \<Rightarrow> bool" where
  "constraint_call ngfn cc c =
     (\<exists>q\<in>set (lhs cc). int (GFN_of q) < ngfn \<and>
        (c = SetMatrixValue (int (GFN_of q)) (ngfn + Index cc) (term_value q) \<or>
         c = SetMatrixValue (ngfn + Index cc) (int (GFN_of q)) (term_value q)))"

text \<open>The call \<open>c\<close> writes the matrix entry \<open>(p, q)\<close>.\<close>

fun writes_entry :: "LinearSystemWrapper_call \<Rightarrow> int \<Rightarrow> int \<Rightarrow> bool" where
  "writes_entry InitializeMatrix p q = True"
| "writes_entry (AddMatrixValue i j v) p q = (i = p \<and> j = q)"
| "writes_entry (SetMatrixValue i j v) p q = (i = p \<and> j = q)"
| "writes_entry c p q = False"

text \<open>What the call \<open>c\<close> adds to the matrix entry \<open>(p, q)\<close>.\<close>

fun added :: "int \<Rightarrow> int \<Rightarrow> LinearSystemWrapper_call \<Rightarrow> Float" where
  "added p q (AddMatrixValue i j v) = (if i = p \<and> j = q then v else 0)"
| "added p q c = 0"

text \<open>The sum of all entries of the element stiffness matrices that the elements map to
  the entry \<open>(p, q)\<close> of the global matrix.\<close>

definition assembled :: "'l Element list \<Rightarrow> int \<Rightarrow> int \<Rightarrow> Float" where
  "assembled es p q =
     (\<Sum>e\<leftarrow>es. \<Sum>j\<leftarrow>[0..<GetNumberOfDegreesOfFreedom e]. \<Sum>k\<leftarrow>[0..<GetNumberOfDegreesOfFreedom e].
        if int (GetDegreeOfFreedom e j) = p \<and> int (GetDegreeOfFreedom e k) = q then Ke e j k else 0)"

text \<open>The part of the matrix that couples freedom numbers below \<open>ngfn\<close> with rows and columns
  from \<open>ngfn\<close> on is symmetric.\<close>

definition symmetric_border :: "int \<Rightarrow> LinearSystem \<Rightarrow> bool" where
  "symmetric_border ngfn st = (\<forall>d r. d < ngfn \<and> ngfn \<le> r \<longrightarrow> matrix st d r = matrix st r d)"

text \<open>The call \<open>c\<close> writes the vector entry \<open>p\<close>.\<close>

fun writes_vector :: "LinearSystemWrapper_call \<Rightarrow> int \<Rightarrow> bool" where
  "writes_vector InitializeVector p = True"
| "writes_vector (AddVectorValue i v) p = (i = p)"
| "writes_vector (SetVectorValue i v) p = (i = p)"
| "writes_vector c p = False"

text \<open>\<open>c\<close> is a call that \<^verbatim>\<open>AssembleF\<close> can make for the load \<open>l\<close>: the overwriting call at
  \<open>ngfn\<close> plus its index for a constraint, an accumulating call below \<open>ngfn\<close> for the others.\<close>

fun force_call :: "int \<Rightarrow> 'l Load \<Rightarrow> LinearSystemWrapper_call \<Rightarrow> bool" where
  "force_call ngfn (IsLoadBCMFC l1) c = (\<exists>v. c = SetVectorValue (ngfn + Index l1) v)"
| "force_call ngfn l c = (\<exists>g v. g < ngfn \<and> c = AddVectorValue g v)"

section \<open>Example systems\<close>

text \<open>
  The systems the closed instances below are evaluated on. \<open>ex_bar\<close> is a bar with two
  points and one degree of freedom per point, numbered 0 and 1, with the stiffness
  matrix ((1, -1), (-1, 1)). \<open>ex_mfc\<close> fixes the first degree of freedom of the bar.
\<close>

definition ex_bar :: "unit Element" where
  "ex_bar =
     \<lparr>GetNumberOfDegreesOfFreedom = 2, GetNumberOfDegreesOfFreedomPerPoint = 1,
      GetNumberOfPoints = 2, GetPoint = (\<lambda>pt. pt),
      GetDegreeOfFreedom = (\<lambda>i. i), GetDegreeOfFreedomAtPoint = (\<lambda>pt i. pt + i),
      Ke = (\<lambda>j k. if j = k then 1 else - 1), Fe = (\<lambda>u. [3, 4])\<rparr>"

definition ex_mfc :: "unit LoadBCMFC" where
  "ex_mfc = \<lparr>lhs = [\<lparr>MFCTerm.m_element = ex_bar, dof = 0, term_value = 1\<rparr>], rhs = [7], Index = 5\<rparr>"

definition ex_empty :: "unit Solver" where
  "ex_empty = \<lparr>el = [], node = [], load = [IsLoadBCMFC ex_mfc], NGFN = 0, NMFC = 0,
               m_ls = [], m_DOFCounter = - 1\<rparr>"

text \<open>
  \<open>ex_force\<close> is a nodal load of 5 on the second point of the bar. \<open>ex_system\<close> is the
  bar with its two degrees of freedom numbered, two constraints and two other loads.
\<close>

definition ex_force :: "unit LoadNode" where
  "ex_force = \<lparr>LoadNode.m_element = ex_bar, m_pt = 1, F = [5]\<rparr>"

definition ex_system :: "unit Solver" where
  "ex_system =
     \<lparr>el = [ex_bar], node = [],
      load = [IsLoadNode ex_force, IsLoadBCMFC ex_mfc, IsOtherLoad, IsLoadBCMFC ex_mfc],
      NGFN = 2, NMFC = 0, m_ls = [], m_DOFCounter = 1\<rparr>"

text \<open>
  \<open>ex_short\<close> is the same system with \<^verbatim>\<open>NGFN\<close> one too small, so that the second
  degree of freedom of the bar is out of range. \<open>ex_bad_mfc\<close> has a second term that
  refers to a degree of freedom that does not exist.
\<close>

definition ex_short :: "unit Solver" where
  "ex_short = ex_system\<lparr>NGFN := 1\<rparr>"

definition ex_bad_mfc :: "unit LoadBCMFC" where
  "ex_bad_mfc =
     \<lparr>lhs = [\<lparr>MFCTerm.m_element = ex_bar, dof = 1, term_value = 2\<rparr>,
             \<lparr>MFCTerm.m_element = ex_bar, dof = 9, term_value = 3\<rparr>],
      rhs = [0], Index = 0\<rparr>"

definition ex_bad_system :: "unit Solver" where
  "ex_bad_system = ex_system\<lparr>load := [IsLoadBCMFC ex_mfc, IsLoadBCMFC ex_bad_mfc]\<rparr>"

text \<open>
  \<open>ex_spring\<close> has a diagonal stiffness matrix: its off-diagonal entries are zero.
\<close>

definition ex_spring :: "unit Element" where
  "ex_spring = ex_bar\<lparr>Ke := (\<lambda>j k. if j = k then 2 else 0)\<rparr>"

definition ex_sparse :: "unit Solver" where
  "ex_sparse = \<lparr>el = [ex_spring], node = [], load = [], NGFN = 2, NMFC = 0,
                m_ls = [], m_DOFCounter = 1\<rparr>"

definition ex_st :: LinearSystem where
  "ex_st = \<lparr>order = 0, matrix = (\<lambda>i j. 9), vector = (\<lambda>i. 9)\<rparr>"

text \<open>
  \<open>ex_tie\<close> ties the two degrees of freedom of the bar together; \<open>ex_tied\<close> is the bar
  with the constraints \<open>ex_mfc\<close> and \<open>ex_tie\<close>.
\<close>

definition ex_tie :: "unit LoadBCMFC" where
  "ex_tie =
     \<lparr>lhs = [\<lparr>MFCTerm.m_element = ex_bar, dof = 0, term_value = 1\<rparr>,
             \<lparr>MFCTerm.m_element = ex_bar, dof = 1, term_value = - 1\<rparr>],
      rhs = [0], Index = 0\<rparr>"

definition ex_tied :: "unit Solver" where
  "ex_tied = ex_system\<lparr>load := [IsLoadBCMFC ex_mfc, IsLoadBCMFC ex_tie]\<rparr>"

definition ex_tied_calls :: "LinearSystemWrapper_call list" where
  "ex_tied_calls =
     [SetSystemOrder 4, InitializeMatrix,
      AddMatrixValue 0 0 1, AddMatrixValue 0 1 (- 1), AddMatrixValue 1 0 (- 1), AddMatrixValue 1 1 1,
      SetMatrixValue 0 2 1, SetMatrixValue 2 0 1,
      SetMatrixValue 0 3 1, SetMatrixValue 3 0 1,
      SetMatrixValue 1 3 (- 1), SetMatrixValue 3 1 (- 1)]"

text \<open>
  \<open>ex_loaded\<close> is the bar with one numbered constraint, the nodal load and an element
  load that applies to every element; \<open>ex_loaded_calls\<close> are the calls that
  \<^verbatim>\<open>AssembleF\<close> makes on it for dimension 0.
\<close>

definition ex_gravity :: "unit LoadElement" where
  "ex_gravity = \<lparr>LoadElement.el = [], load_data = ()\<rparr>"

definition ex_loaded :: "unit Solver" where
  "ex_loaded =
     ex_system\<lparr>load := [IsLoadBCMFC (ex_mfc\<lparr>Index := 0\<rparr>), IsLoadNode ex_force,
                         IsLoadElement ex_gravity],
               NMFC := 1\<rparr>"

definition ex_loaded_calls :: "LinearSystemWrapper_call list" where
  "ex_loaded_calls =
     [InitializeVector, SetVectorValue 2 7, AddVectorValue 1 5,
      AddVectorValue 0 3, AddVectorValue 1 4]"

text \<open>
  \<open>ex_bad_force\<close> is a nodal load with three components on an element that has two
  degrees of freedom per point; \<open>ex_missized\<close> is the bar with the nodal load
  \<open>ex_force\<close> followed by \<open>ex_bad_force\<close>.
\<close>

definition ex_bad_force :: "unit LoadNode" where
  "ex_bad_force =
     \<lparr>LoadNode.m_element = ex_bar\<lparr>GetNumberOfDegreesOfFreedomPerPoint := 2\<rparr>, m_pt = 0,
      F = [1, 2, 3]\<rparr>"

definition ex_missized :: "unit Solver" where
  "ex_missized = ex_system\<lparr>load := [IsLoadNode ex_force, IsLoadNode ex_bad_force]\<rparr>"

text \<open>
  \<open>ex_nodal\<close> is the bar with the nodal load only, \<open>ex_elemental\<close> the bar with the
  element load only.
\<close>

definition ex_nodal :: "unit Solver" where
  "ex_nodal = ex_system\<lparr>load := [IsLoadNode ex_force]\<rparr>"

definition ex_elemental :: "unit Solver" where
  "ex_elemental = ex_system\<lparr>load := [IsLoadElement ex_gravity]\<rparr>"

text \<open>
  \<open>ex_wide_force\<close> is a nodal load on the first point of an element with four degrees
  of freedom per point, with the four components of one force; \<open>ex_wide\<close> is the
  system with that element, four degrees of freedom and that load.
\<close>

definition ex_wide_force :: "unit LoadNode" where
  "ex_wide_force =
     \<lparr>LoadNode.m_element =
        ex_bar\<lparr>GetNumberOfDegreesOfFreedom := 4, GetNumberOfDegreesOfFreedomPerPoint := 4\<rparr>,
      m_pt = 0, F = [1, 2, 3, 4]\<rparr>"

definition ex_wide :: "unit Solver" where
  "ex_wide =
     ex_system\<lparr>el := [LoadNode.m_element ex_wide_force], load := [IsLoadNode ex_wide_force],
               NGFN := 4\<rparr>"

text \<open>
  \<open>ex_class\<close> numbers from 0: the counter is reset to -1, and linking an element
  raises it by the number of degrees of freedom of the element. \<open>ex_no_elements\<close> is a
  solver with two nodes and no element.
\<close>

definition ex_class :: "unit ElementClass" where
  "ex_class =
     \<lparr>ClearDegreesOfFreedom = (\<lambda>e. e),
      LinkDegreesOfFreedom =
        (\<lambda>e s. s\<lparr>m_DOFCounter := m_DOFCounter s + int (GetNumberOfDegreesOfFreedom (Solver.el s ! e))\<rparr>),
      DOFCounter_reset = - 1\<rparr>"

definition ex_no_elements :: "unit Solver" where
  "ex_no_elements =
     \<lparr>el = [], node = [\<lparr>m_elements = {0}\<rparr>, \<lparr>m_elements = {}\<rparr>], load = [], NGFN = 7, NMFC = 0,
      m_ls = [], m_DOFCounter = 6\<rparr>"

definition ex_two_nodes :: "unit Solver" where
  "ex_two_nodes = ex_no_elements\<lparr>el := [ex_bar]\<rparr>"

text \<open>
  \<open>ex_lib\<close> is a library with one class, \<^verbatim>\<open>Node\<close>, whose objects are numbers: its
  \<^verbatim>\<open>Read\<close> takes one character, which must be the digit 1. White space is blanks, and
  skipping it sets \<open>eofbit\<close> at the end of the input, as \<^verbatim>\<open>std::ws\<close> does.
\<close>

definition ex_skip :: "istream \<Rightarrow> istream" where
  "ex_skip f =
     (let n = length (takeWhile (\<lambda>c. c = CHR '' '') (drop (gpos f) (content f)))
      in f\<lparr>gpos := gpos f + n, eofbit := (eofbit f \<or> length (content f) \<le> gpos f + n)\<rparr>)"

definition ex_Read :: "nat \<Rightarrow> istream \<Rightarrow> (unit, unit, unit) ReadInfoType \<Rightarrow> istream \<times> (FEMException + nat)" where
  "ex_Read a f info =
     (case get f of
        (c, f') \<Rightarrow>
          if c = Some CHR ''1'' then (f', Inr 1)
          else (f', Inl (FEMExceptionIO ''Node::Read()'' ''Error reading FEM object!'')))"

definition ex_lib :: "(nat, unit, unit, unit) Library" where
  "ex_lib =
     \<lparr>SkipWhiteSpace = ex_skip, whitespaces = '' '',
      ClassName2ID = (\<lambda>s. if s = ''Node'' then 0 else - 1),
      Create = (\<lambda>i. if i = 0 then Some 0 else None),
      class_of = (\<lambda>a. IsOtherObject),
      Read = ex_Read\<rparr>"

definition ex_stream :: "string \<Rightarrow> nat \<Rightarrow> istream" where
  "ex_stream s p = \<lparr>content = s, gpos = p, eofbit = False, failbit = False\<rparr>"

section \<open>Lemmas\<close>

subsection \<open>Loops, the scan for constraints and AssembleK\<close>

lemma for_each_append:
  "for_each body (xs @ ys) s =
     (case for_each body xs s of Inl err \<Rightarrow> Inl err | Inr s' \<Rightarrow> for_each body ys s')"
  by (induction xs arbitrary: s) (auto split: sum.splits)

lemma for_each_appends:
  "(\<And>x ls. x \<in> set xs \<Longrightarrow> body x ls = Inr (ls @ g x))
     \<Longrightarrow> for_each body xs ls = Inr (ls @ concat (map g xs))"
  by (induction xs arbitrary: ls) auto

lemma mfc_scan_fst_length:
  "mfc_scan loads (acc, n) = (loads', m, n') \<Longrightarrow> length loads' = length loads"
  by (induction loads "(acc, n)" arbitrary: acc n loads' m n' rule: mfc_scan.induct)
     (auto split: prod.splits)

lemma mfc_scan_count:
  "mfc_scan loads (acc, n) = (loads', m, n') \<Longrightarrow> n' = n + int (length (mfcs_of loads))"
  by (induction loads "(acc, n)" arbitrary: acc n loads' m n' rule: mfc_scan.induct)
     (auto split: prod.splits)

lemma mfc_scan_mfcLoads:
  "mfc_scan loads (acc, n) = (loads', m, n') \<Longrightarrow> m = acc @ mfcs_of loads'"
  by (induction loads "(acc, n)" arbitrary: acc n loads' m n' rule: mfc_scan.induct)
     (auto split: prod.splits)

lemma mfc_scan_renumber:
  "mfc_scan loads (acc, n) = (loads', m, n') \<Longrightarrow> mfcs_of loads' = renumber n (mfcs_of loads)"
  by (induction loads "(acc, n)" arbitrary: acc n loads' m n' rule: mfc_scan.induct)
     (auto split: prod.splits)

lemma length_renumber: "length (renumber n cs) = length cs"
  by (induction cs arbitrary: n) auto

lemma nth_renumber: "i < length cs \<Longrightarrow> renumber n cs ! i = (cs ! i)\<lparr>Index := n + int i\<rparr>"
  by (induction cs arbitrary: n i) (auto simp: nth_Cons split: nat.splits)

lemma mfc_scan_keeps:
  "mfc_scan loads (acc, n) = (loads', m, n') \<Longrightarrow> i < length loads \<Longrightarrow>
     \<forall>c. loads ! i \<noteq> IsLoadBCMFC c \<Longrightarrow> loads' ! i = loads ! i"
  by (induction loads "(acc, n)" arbitrary: acc n loads' m n' i rule: mfc_scan.induct)
     (auto split: prod.splits simp: nth_Cons split: nat.splits)

lemma mfc_scan_mfc:
  "mfc_scan loads (acc, n) = (loads', m, n') \<Longrightarrow> i < length loads \<Longrightarrow>
     loads ! i = IsLoadBCMFC c \<Longrightarrow> \<exists>k. loads' ! i = IsLoadBCMFC (c\<lparr>Index := k\<rparr>)"
  by (induction loads "(acc, n)" arbitrary: acc n loads' m n' i rule: mfc_scan.induct)
     (auto split: prod.splits simp: nth_Cons split: nat.splits)

lemma legal_elementD:
  "legal_element ngfn e \<Longrightarrow> j < GetNumberOfDegreesOfFreedom e \<Longrightarrow> int (GetDegreeOfFreedom e j) < ngfn"
  by (simp add: legal_element_def list_all_iff)

lemma AssembleK_entry_legal:
  "int (GetDegreeOfFreedom e j) < ngfn \<Longrightarrow> int (GetDegreeOfFreedom e k) < ngfn \<Longrightarrow>
     AssembleK_entry ngfn e j k ls = Inr (ls @ Ke_call e j k)"
  by (simp add: AssembleK_entry_def Ke_call_def)

lemma AssembleK_entry_illegal:
  "ngfn \<le> int (GetDegreeOfFreedom e j) \<or> ngfn \<le> int (GetDegreeOfFreedom e k) \<Longrightarrow>
     AssembleK_entry ngfn e j k ls =
       Inl (FEMExceptionSolution ''Solver::AssembleK()'' ''Illegal GFN!'', ls)"
  by (simp add: AssembleK_entry_def)

lemma AssembleK_element_legal:
  assumes "legal_element ngfn e"
  shows "AssembleK_element ngfn e ls = Inr (ls @ Ke_calls e)"
proof -
  let ?Ne = "GetNumberOfDegreesOfFreedom e"
  have row: "for_each (\<lambda>k. AssembleK_entry ngfn e j k) [0..<?Ne] ls' =
               Inr (ls' @ concat (map (Ke_call e j) [0..<?Ne]))"
    if "j \<in> set [0..<?Ne]" for j ls'
    using that assms
    by (intro for_each_appends) (simp add: AssembleK_entry_legal legal_elementD)
  show ?thesis
    unfolding AssembleK_element_def Let_def Ke_calls_def
    by (rule for_each_appends) (rule row)
qed

lemma AssembleK_term_legal:
  "int (GFN_of q) < ngfn \<Longrightarrow> AssembleK_term ngfn c q ls = Inr (ls @ term_calls ngfn (Index c) q)"
  by (simp add: AssembleK_term_def term_calls_def GFN_of_def Let_def)

lemma AssembleK_term_illegal:
  "ngfn \<le> int (GFN_of q) \<Longrightarrow>
     AssembleK_term ngfn c q ls =
       Inl (FEMExceptionSolution ''Solver::AssembleK()'' ''Illegal GFN!'', ls)"
  by (simp add: AssembleK_term_def GFN_of_def Let_def)

lemma AssembleK_mfc_legal:
  "legal_mfc ngfn c \<Longrightarrow> AssembleK_mfc ngfn c ls = Inr (ls @ mfc_calls ngfn c)"
  unfolding AssembleK_mfc_def mfc_calls_def
  by (rule for_each_appends) (simp add: AssembleK_term_legal legal_mfc_def list_all_iff)

lemma for_each_first_failure:
  assumes "\<And>x ls. x \<in> set xs \<Longrightarrow> body x ls = Inr (ls @ g x)"
      and "body y (ls @ concat (map g xs)) = Inl err"
  shows "for_each body (xs @ y # ys) ls = Inl err"
  using assms by (simp add: for_each_append for_each_appends)

lemma AssembleK_element_illegal:
  assumes k0: "k0 < GetNumberOfDegreesOfFreedom e"
      and bad: "ngfn \<le> int (GetDegreeOfFreedom e k0)"
      and first: "\<forall>k<k0. int (GetDegreeOfFreedom e k) < ngfn"
  shows "AssembleK_element ngfn e ls =
           Inl (FEMExceptionSolution ''Solver::AssembleK()'' ''Illegal GFN!'',
                ls @ concat (map (Ke_call e 0) [0..<k0]))"
proof -
  let ?Ne = "GetNumberOfDegreesOfFreedom e"
  let ?err = "FEMExceptionSolution ''Solver::AssembleK()'' ''Illegal GFN!''"
  have cols: "[0..<?Ne] = [0..<k0] @ k0 # [Suc k0..<?Ne]"
    using k0 by (metis le0 upt_conv_Cons upt_add_eq_append le_add_diff_inverse less_imp_le_nat)
  have ok: "AssembleK_entry ngfn e 0 k ls' = Inr (ls' @ Ke_call e 0 k)" if "k \<in> set [0..<k0]" for k ls'
  proof -
    from that have "k < k0" by simp
    with first have "int (GetDegreeOfFreedom e k) < ngfn" "int (GetDegreeOfFreedom e 0) < ngfn"
      by auto
    then show ?thesis by (simp add: AssembleK_entry_legal)
  qed
  have row0: "for_each (\<lambda>k. AssembleK_entry ngfn e 0 k) [0..<?Ne] ls =
               Inl (?err, ls @ concat (map (Ke_call e 0) [0..<k0]))"
    unfolding cols
    by (rule for_each_first_failure) (use ok bad in \<open>simp_all add: AssembleK_entry_illegal\<close>)
  have rows: "[0..<?Ne] = 0 # [1..<?Ne]"
    using k0 by (simp add: upt_conv_Cons)
  show ?thesis
    unfolding AssembleK_element_def Let_def
    by (subst rows) (simp add: row0)
qed

lemma mfc_scan_eq:
  "mfc_scan loads ([], 0) =
     (fst (mfc_scan loads ([], 0)), renumber 0 (mfcs_of loads), int (length (mfcs_of loads)))"
proof -
  obtain loads' m n' where scan: "mfc_scan loads ([], 0) = (loads', m, n')"
    by (cases "mfc_scan loads ([], 0)")
  from mfc_scan_mfcLoads [OF scan] mfc_scan_renumber [OF scan] mfc_scan_count [OF scan] scan
  show ?thesis by simp
qed

lemma scanned_simps:
  "NMFC (scanned s) = int (length (mfcs_of (load s)))"
  "NGFN (scanned s) = NGFN s"
  "Solver.el (scanned s) = Solver.el s"
  "node (scanned s) = node s"
  "m_DOFCounter (scanned s) = m_DOFCounter s"
  "mfcs_of (load (scanned s)) = renumber 0 (mfcs_of (load s))"
  "length (load (scanned s)) = length (load s)"
  "m_ls (scanned s) =
     m_ls s @ [SetSystemOrder (NGFN s + int (length (mfcs_of (load s)))), InitializeMatrix]"
proof -
  obtain loads' m n' where scan: "mfc_scan (load s) ([], 0) = (loads', m, n')"
    by (cases "mfc_scan (load s) ([], 0)")
  note facts = mfc_scan_renumber [OF scan] mfc_scan_count [OF scan] mfc_scan_fst_length [OF scan]
  show "NMFC (scanned s) = int (length (mfcs_of (load s)))"
    "NGFN (scanned s) = NGFN s"
    "Solver.el (scanned s) = Solver.el s"
    "node (scanned s) = node s"
    "m_DOFCounter (scanned s) = m_DOFCounter s"
    "mfcs_of (load (scanned s)) = renumber 0 (mfcs_of (load s))"
    "length (load (scanned s)) = length (load s)"
    "m_ls (scanned s) =
       m_ls s @ [SetSystemOrder (NGFN s + int (length (mfcs_of (load s)))), InitializeMatrix]"
    using facts by (simp_all add: scanned_def scan)
qed

lemma AssembleK_eq:
  assumes "0 < NGFN s"
  shows "AssembleK s =
     (case for_each (AssembleK_element (NGFN s)) (Solver.el s) (m_ls (scanned s)) of
        Inl (x, ls) \<Rightarrow> Inl (x, (scanned s)\<lparr>m_ls := ls\<rparr>)
      | Inr ls \<Rightarrow>
          (case for_each (AssembleK_mfc (NGFN s)) (mfcs_of (load (scanned s))) ls of
             Inl (x, ls') \<Rightarrow> Inl (x, (scanned s)\<lparr>m_ls := ls'\<rparr>)
           | Inr ls' \<Rightarrow> Inr ((scanned s)\<lparr>m_ls := ls'\<rparr>)))"
proof -
  obtain loads' m n' where scan: "mfc_scan (load s) ([], 0) = (loads', m, n')"
    by (cases "mfc_scan (load s) ([], 0)")
  from mfc_scan_mfcLoads [OF scan] have m: "m = mfcs_of loads'" by simp
  have sc: "scanned s = s\<lparr>load := loads', NMFC := n',
              m_ls := m_ls s @ [SetSystemOrder (NGFN s + n'), InitializeMatrix]\<rparr>"
    by (simp add: scanned_def scan)
  have "\<not> NGFN s \<le> 0" using assms by simp
  then show ?thesis
    unfolding sc AssembleK_def scan Let_def m by (simp split: sum.splits prod.splits)
qed

lemma for_each_calls:
  assumes "\<And>x ls. x \<in> set xs \<Longrightarrow> \<exists>cs. state_of (body x ls) = ls @ cs \<and> (\<forall>c\<in>set cs. P x c)"
  shows "\<exists>cs. state_of (for_each body xs ls) = ls @ cs \<and> (\<forall>c\<in>set cs. \<exists>x\<in>set xs. P x c)"
  using assms
proof (induction xs arbitrary: ls)
  case Nil
  then show ?case by simp
next
  case (Cons x xs)
  from Cons.prems [of x ls] obtain cs1 where
    cs1: "state_of (body x ls) = ls @ cs1" "\<forall>c\<in>set cs1. P x c" by auto
  show ?case
  proof (cases "body x ls")
    case (Inl err)
    with cs1 show ?thesis by (cases err) auto
  next
    case (Inr ls1)
    with cs1 have ls1: "ls1 = ls @ cs1" by simp
    from Cons.IH [of ls1] Cons.prems obtain cs2 where
      cs2: "state_of (for_each body xs ls1) = ls1 @ cs2" "\<forall>c\<in>set cs2. \<exists>x\<in>set xs. P x c"
      by (metis list.set_intros(2))
    show ?thesis
      using Inr ls1 cs1 cs2 by (intro exI [of _ "cs1 @ cs2"]) auto
  qed
qed

lemma AssembleK_entry_calls:
  "\<exists>cs. state_of (AssembleK_entry ngfn e j k ls) = ls @ cs \<and>
      (\<forall>c\<in>set cs. Ke e j k \<noteq> 0 \<and> int (GetDegreeOfFreedom e j) < ngfn \<and>
          int (GetDegreeOfFreedom e k) < ngfn \<and>
          c = AddMatrixValue (int (GetDegreeOfFreedom e j)) (int (GetDegreeOfFreedom e k)) (Ke e j k))"
  by (simp add: AssembleK_entry_def)

lemma AssembleK_element_calls:
  "\<exists>cs. state_of (AssembleK_element ngfn e ls) = ls @ cs \<and> (\<forall>c\<in>set cs. element_call ngfn e c)"
proof -
  let ?Ne = "GetNumberOfDegreesOfFreedom e"
  let ?P = "\<lambda>j k c. Ke e j k \<noteq> 0 \<and> int (GetDegreeOfFreedom e j) < ngfn \<and>
          int (GetDegreeOfFreedom e k) < ngfn \<and>
          c = AddMatrixValue (int (GetDegreeOfFreedom e j)) (int (GetDegreeOfFreedom e k)) (Ke e j k)"
  have row: "\<exists>cs. state_of (for_each (\<lambda>k. AssembleK_entry ngfn e j k) [0..<?Ne] ls') = ls' @ cs \<and>
                (\<forall>c\<in>set cs. \<exists>k\<in>set [0..<?Ne]. ?P j k c)" for j ls'
    by (rule for_each_calls) (rule AssembleK_entry_calls)
  have "\<exists>cs. state_of (for_each (\<lambda>j. for_each (\<lambda>k. AssembleK_entry ngfn e j k) [0..<?Ne]) [0..<?Ne] ls)
                = ls @ cs \<and> (\<forall>c\<in>set cs. \<exists>j\<in>set [0..<?Ne]. \<exists>k\<in>set [0..<?Ne]. ?P j k c)"
    by (rule for_each_calls) (rule row)
  then show ?thesis
    unfolding AssembleK_element_def Let_def element_call_def by (auto simp: Bex_def)
qed

lemma AssembleK_mfc_calls:
  "\<exists>cs. state_of (AssembleK_mfc ngfn cc ls) = ls @ cs \<and> (\<forall>c\<in>set cs. constraint_call ngfn cc c)"
proof -
  have tm: "\<exists>cs. state_of (AssembleK_term ngfn cc q ls') = ls' @ cs \<and>
      (\<forall>c\<in>set cs. int (GFN_of q) < ngfn \<and>
        (c = SetMatrixValue (int (GFN_of q)) (ngfn + Index cc) (term_value q) \<or>
         c = SetMatrixValue (ngfn + Index cc) (int (GFN_of q)) (term_value q)))" for q ls'
    by (simp add: AssembleK_term_def GFN_of_def Let_def)
  show ?thesis
    unfolding AssembleK_mfc_def constraint_call_def
    by (rule for_each_calls) (rule tm)
qed

lemma AssembleK_calls:
  assumes "0 < NGFN s"
  shows "\<exists>cs. state_of (AssembleK s) = (scanned s)\<lparr>m_ls := m_ls (scanned s) @ cs\<rparr> \<and>
           (\<forall>c\<in>set cs. (\<exists>e\<in>set (Solver.el s). element_call (NGFN s) e c) \<or>
                         (\<exists>cc\<in>set (mfcs_of (load (scanned s))). constraint_call (NGFN s) cc c))"
proof -
  let ?ls0 = "m_ls (scanned s)"
  obtain cs1 where cs1:
    "state_of (for_each (AssembleK_element (NGFN s)) (Solver.el s) ?ls0) = ?ls0 @ cs1"
    "\<forall>c\<in>set cs1. \<exists>e\<in>set (Solver.el s). element_call (NGFN s) e c"
    using for_each_calls [of "Solver.el s" "AssembleK_element (NGFN s)" "element_call (NGFN s)" ?ls0]
      AssembleK_element_calls by blast
  show ?thesis
  proof (cases "for_each (AssembleK_element (NGFN s)) (Solver.el s) ?ls0")
    case (Inl err)
    then show ?thesis
      using cs1 by (cases err) (auto simp: AssembleK_eq [OF assms] intro!: exI [of _ cs1])
  next
    case (Inr ls1)
    with cs1 have ls1: "ls1 = ?ls0 @ cs1" by simp
    obtain cs2 where cs2:
      "state_of (for_each (AssembleK_mfc (NGFN s)) (mfcs_of (load (scanned s))) ls1) = ls1 @ cs2"
      "\<forall>c\<in>set cs2. \<exists>cc\<in>set (mfcs_of (load (scanned s))). constraint_call (NGFN s) cc c"
      using for_each_calls [of "mfcs_of (load (scanned s))" "AssembleK_mfc (NGFN s)"
          "constraint_call (NGFN s)" ls1] AssembleK_mfc_calls by blast
    show ?thesis
    proof (cases "for_each (AssembleK_mfc (NGFN s)) (mfcs_of (load (scanned s))) ls1")
      case (Inl err)
      then show ?thesis
        using Inr ls1 cs1 cs2
        by (cases err) (auto simp: AssembleK_eq [OF assms] intro!: exI [of _ "cs1 @ cs2"])
    next
      case (Inr ls2)
      then show ?thesis
        using \<open>for_each (AssembleK_element (NGFN s)) (Solver.el s) ?ls0 = Inr ls1\<close> ls1 cs1 cs2
        by (auto simp: AssembleK_eq [OF assms] intro!: exI [of _ "cs1 @ cs2"])
    qed
  qed
qed

lemma for_each_Inr_all:
  "for_each body xs ls = Inr ls' \<Longrightarrow> x \<in> set xs \<Longrightarrow> \<exists>l l'. body x l = Inr l'"
  by (induction xs arbitrary: ls) (auto split: sum.splits)

lemma for_each_Inl_err:
  assumes "\<And>x l err l'. x \<in> set xs \<Longrightarrow> body x l = Inl (err, l') \<Longrightarrow> err = E"
  shows "for_each body xs ls = Inl (err, ls') \<Longrightarrow> err = E"
  using assms
proof (induction xs arbitrary: ls)
  case Nil
  then show ?case by simp
next
  case (Cons a xs)
  show ?case
  proof (cases "body a ls")
    case (Inl e1)
    with Cons.prems(1) have "body a ls = Inl (err, ls')" by simp
    then show ?thesis using Cons.prems(2) [of a ls err ls'] by simp
  next
    case (Inr l1)
    with Cons.prems(1) have "for_each body xs l1 = Inl (err, ls')" by simp
    then show ?thesis
      by (rule Cons.IH) (use Cons.prems(2) in auto)
  qed
qed

lemma not_legal_element_first:
  assumes "\<not> legal_element ngfn e"
  obtains k0 where "k0 < GetNumberOfDegreesOfFreedom e" "ngfn \<le> int (GetDegreeOfFreedom e k0)"
    "\<forall>k<k0. int (GetDegreeOfFreedom e k) < ngfn"
proof -
  let ?bad = "\<lambda>k. k < GetNumberOfDegreesOfFreedom e \<and> ngfn \<le> int (GetDegreeOfFreedom e k)"
  from assms have ex: "\<exists>k. ?bad k"
    by (auto simp: legal_element_def list_all_iff not_less)
  define k0 where "k0 = (LEAST k. ?bad k)"
  from ex have "?bad k0" unfolding k0_def by (rule LeastI_ex)
  moreover have "\<forall>k<k0. int (GetDegreeOfFreedom e k) < ngfn"
  proof (intro allI impI)
    fix k assume "k < k0"
    then have "\<not> ?bad k" unfolding k0_def by (rule not_less_Least)
    moreover from \<open>k < k0\<close> \<open>?bad k0\<close> have "k < GetNumberOfDegreesOfFreedom e" by simp
    ultimately show "int (GetDegreeOfFreedom e k) < ngfn" by simp
  qed
  ultimately show thesis using that by blast
qed

lemma AssembleK_element_Inr_legal:
  assumes "AssembleK_element ngfn e ls = Inr ls'"
  shows "legal_element ngfn e"
proof (rule ccontr)
  assume "\<not> legal_element ngfn e"
  then obtain k0 where "k0 < GetNumberOfDegreesOfFreedom e" "ngfn \<le> int (GetDegreeOfFreedom e k0)"
    "\<forall>k<k0. int (GetDegreeOfFreedom e k) < ngfn"
    by (rule not_legal_element_first)
  from AssembleK_element_illegal [OF this] assms show False by simp
qed

lemma AssembleK_element_Inl_err:
  assumes "AssembleK_element ngfn e ls = Inl (err, ls')"
  shows "err = FEMExceptionSolution ''Solver::AssembleK()'' ''Illegal GFN!''"
proof -
  have entry: "err' = FEMExceptionSolution ''Solver::AssembleK()'' ''Illegal GFN!''"
    if "AssembleK_entry ngfn e j k l = Inl (err', l')" for j k l err' l'
    using that by (auto simp: AssembleK_entry_def split: if_splits)
  have row: "err' = FEMExceptionSolution ''Solver::AssembleK()'' ''Illegal GFN!''"
    if "for_each (\<lambda>k. AssembleK_entry ngfn e j k) ks l = Inl (err', l')" for j ks l err' l'
    using that entry by (rule for_each_Inl_err [rotated])
  show ?thesis
    using assms row unfolding AssembleK_element_def Let_def
    by (rule for_each_Inl_err [rotated])
qed

lemma AssembleK_mfc_Inr_legal:
  assumes "AssembleK_mfc ngfn c ls = Inr ls'"
  shows "legal_mfc ngfn c"
proof -
  have "int (GFN_of q) < ngfn" if "q \<in> set (lhs c)" for q
  proof -
    from for_each_Inr_all [OF assms [unfolded AssembleK_mfc_def] that]
    obtain l l' where "AssembleK_term ngfn c q l = Inr l'" by blast
    then show ?thesis
      by (auto simp: AssembleK_term_def GFN_of_def Let_def split: if_splits)
  qed
  then show ?thesis by (simp add: legal_mfc_def list_all_iff)
qed

lemma AssembleK_mfc_Inl_err:
  assumes "AssembleK_mfc ngfn c ls = Inl (err, ls')"
  shows "err = FEMExceptionSolution ''Solver::AssembleK()'' ''Illegal GFN!''"
proof -
  have tm: "err' = FEMExceptionSolution ''Solver::AssembleK()'' ''Illegal GFN!''"
    if "AssembleK_term ngfn c q l = Inl (err', l')" for q l err' l'
    using that by (auto simp: AssembleK_term_def Let_def split: if_splits)
  show ?thesis
    using assms tm unfolding AssembleK_mfc_def by (rule for_each_Inl_err [rotated])
qed

lemma legal_mfc_Index [simp]: "legal_mfc ngfn (c\<lparr>Index := i\<rparr>) = legal_mfc ngfn c"
  by (simp add: legal_mfc_def)

lemma set_renumber_legal:
  "(\<forall>c\<in>set (renumber n cs). legal_mfc ngfn c) = (\<forall>c\<in>set cs. legal_mfc ngfn c)"
  by (induction cs arbitrary: n) auto

lemma AssembleK_Inl_err:
  assumes "AssembleK s = Inl (err, s')"
  shows "err = FEMExceptionSolution ''Solver::AssembleK()'' ''Illegal GFN!''"
proof -
  from assms have pos: "0 < NGFN s" by (auto simp: AssembleK_def split: if_splits)
  have e: "err' = FEMExceptionSolution ''Solver::AssembleK()'' ''Illegal GFN!''"
    if "for_each (AssembleK_element (NGFN s)) es l = Inl (err', l')" for es l err' l'
    using that AssembleK_element_Inl_err by (rule for_each_Inl_err [rotated])
  have m: "err' = FEMExceptionSolution ''Solver::AssembleK()'' ''Illegal GFN!''"
    if "for_each (AssembleK_mfc (NGFN s)) ms l = Inl (err', l')" for ms l err' l'
    using that AssembleK_mfc_Inl_err by (rule for_each_Inl_err [rotated])
  from assms show ?thesis
    unfolding AssembleK_eq [OF pos]
    by (auto split: sum.splits prod.splits dest: e m)
qed

lemma AssembleK_Inr_legal:
  assumes "0 < NGFN s" "AssembleK s = Inr s'"
  shows "(\<forall>e\<in>set (Solver.el s). legal_element (NGFN s) e) \<and>
         (\<forall>c\<in>set (mfcs_of (load s)). legal_mfc (NGFN s) c)"
proof -
  from assms obtain ls1 ls2 where
    1: "for_each (AssembleK_element (NGFN s)) (Solver.el s) (m_ls (scanned s)) = Inr ls1" and
    2: "for_each (AssembleK_mfc (NGFN s)) (mfcs_of (load (scanned s))) ls1 = Inr ls2"
    unfolding AssembleK_eq [OF assms(1)] by (auto split: sum.splits prod.splits)
  have "legal_element (NGFN s) e" if "e \<in> set (Solver.el s)" for e
    using for_each_Inr_all [OF 1 that] AssembleK_element_Inr_legal by blast
  moreover have "legal_mfc (NGFN s) c" if "c \<in> set (mfcs_of (load (scanned s)))" for c
    using for_each_Inr_all [OF 2 that] AssembleK_mfc_Inr_legal by blast
  ultimately have "\<forall>e\<in>set (Solver.el s). legal_element (NGFN s) e"
    "\<forall>c\<in>set (renumber 0 (mfcs_of (load s))). legal_mfc (NGFN s) c"
    by (simp_all add: scanned_simps)
  then show ?thesis
    by (simp only: set_renumber_legal)
qed

lemma AssembleK_legal:
  assumes "0 < NGFN s"
      and "\<forall>e\<in>set (Solver.el s). legal_element (NGFN s) e"
      and "\<forall>c\<in>set (mfcs_of (load s)). legal_mfc (NGFN s) c"
  shows "AssembleK s =
           Inr ((scanned s)\<lparr>m_ls := m_ls (scanned s) @ concat (map Ke_calls (Solver.el s)) @
                  concat (map (mfc_calls (NGFN s)) (mfcs_of (load (scanned s))))\<rparr>)"
proof -
  have 1: "for_each (AssembleK_element (NGFN s)) (Solver.el s) (m_ls (scanned s)) =
             Inr (m_ls (scanned s) @ concat (map Ke_calls (Solver.el s)))"
    by (rule for_each_appends) (use assms(2) in \<open>simp add: AssembleK_element_legal\<close>)
  have 2: "for_each (AssembleK_mfc (NGFN s)) (mfcs_of (load (scanned s))) l =
             Inr (l @ concat (map (mfc_calls (NGFN s)) (mfcs_of (load (scanned s)))))" for l
  proof (rule for_each_appends)
    fix c l'
    assume "c \<in> set (mfcs_of (load (scanned s)))"
    then have "c \<in> set (renumber 0 (mfcs_of (load s)))" by (simp add: scanned_simps)
    with assms(3) have "legal_mfc (NGFN s) c"
      using set_renumber_legal [of 0 "mfcs_of (load s)" "NGFN s"] by blast
    then show "AssembleK_mfc (NGFN s) c l' = Inr (l' @ mfc_calls (NGFN s) c)"
      by (rule AssembleK_mfc_legal)
  qed
  show ?thesis
    unfolding AssembleK_eq [OF assms(1)] by (simp add: 1 2)
qed

lemma AssembleK_element_failure:
  assumes pos: "0 < NGFN s"
      and els: "Solver.el s = es1 @ e # es2"
      and es1: "\<forall>e'\<in>set es1. legal_element (NGFN s) e'"
      and k0: "k0 < GetNumberOfDegreesOfFreedom e"
      and bad: "NGFN s \<le> int (GetDegreeOfFreedom e k0)"
      and first: "\<forall>k<k0. int (GetDegreeOfFreedom e k) < NGFN s"
  shows "AssembleK s =
           Inl (FEMExceptionSolution ''Solver::AssembleK()'' ''Illegal GFN!'',
                (scanned s)\<lparr>m_ls := m_ls (scanned s) @ concat (map Ke_calls es1) @
                                     concat (map (Ke_call e 0) [0..<k0])\<rparr>)"
proof -
  have "for_each (AssembleK_element (NGFN s)) (es1 @ e # es2) (m_ls (scanned s)) =
          Inl (FEMExceptionSolution ''Solver::AssembleK()'' ''Illegal GFN!'',
               (m_ls (scanned s) @ concat (map Ke_calls es1)) @ concat (map (Ke_call e 0) [0..<k0]))"
    by (rule for_each_first_failure)
       (use es1 in \<open>simp_all add: AssembleK_element_legal AssembleK_element_illegal [OF k0 bad first]\<close>)
  then show ?thesis
    unfolding AssembleK_eq [OF pos] els by simp
qed

lemma AssembleK_mfc_failure:
  assumes lhs: "lhs c = qs1 @ q # qs2"
      and qs1: "\<forall>q'\<in>set qs1. int (GFN_of q') < ngfn"
      and bad: "ngfn \<le> int (GFN_of q)"
  shows "AssembleK_mfc ngfn c ls =
           Inl (FEMExceptionSolution ''Solver::AssembleK()'' ''Illegal GFN!'',
                ls @ concat (map (term_calls ngfn (Index c)) qs1))"
  unfolding AssembleK_mfc_def lhs
  by (rule for_each_first_failure)
     (use qs1 bad in \<open>simp_all add: AssembleK_term_legal AssembleK_term_illegal\<close>)

lemma AssembleK_term_failure:
  assumes pos: "0 < NGFN s"
      and els: "\<forall>e\<in>set (Solver.el s). legal_element (NGFN s) e"
      and mfcs: "mfcs_of (load (scanned s)) = ms1 @ c # ms2"
      and ms1: "\<forall>c'\<in>set ms1. legal_mfc (NGFN s) c'"
      and lhs: "lhs c = qs1 @ q # qs2"
      and qs1: "\<forall>q'\<in>set qs1. int (GFN_of q') < NGFN s"
      and bad: "NGFN s \<le> int (GFN_of q)"
  shows "AssembleK s =
           Inl (FEMExceptionSolution ''Solver::AssembleK()'' ''Illegal GFN!'',
                (scanned s)\<lparr>m_ls := m_ls (scanned s) @ concat (map Ke_calls (Solver.el s)) @
                   concat (map (mfc_calls (NGFN s)) ms1) @
                   concat (map (term_calls (NGFN s) (Index c)) qs1)\<rparr>)"
proof -
  have 1: "for_each (AssembleK_element (NGFN s)) (Solver.el s) (m_ls (scanned s)) =
             Inr (m_ls (scanned s) @ concat (map Ke_calls (Solver.el s)))"
    by (rule for_each_appends) (use els in \<open>simp add: AssembleK_element_legal\<close>)
  have 2: "for_each (AssembleK_mfc (NGFN s)) (ms1 @ c # ms2) l =
          Inl (FEMExceptionSolution ''Solver::AssembleK()'' ''Illegal GFN!'',
               (l @ concat (map (mfc_calls (NGFN s)) ms1)) @
                 concat (map (term_calls (NGFN s) (Index c)) qs1))" for l
    by (rule for_each_first_failure)
       (use ms1 in \<open>simp_all add: AssembleK_mfc_legal AssembleK_mfc_failure [OF lhs qs1 bad]\<close>)
  show ?thesis
    unfolding AssembleK_eq [OF pos] mfcs by (simp add: 1 2)
qed

lemma AssembleK_illegal_raises:
  assumes pos: "0 < NGFN s"
      and bad: "(\<exists>e\<in>set (Solver.el s). \<not> legal_element (NGFN s) e) \<or>
                (\<exists>c\<in>set (mfcs_of (load s)). \<not> legal_mfc (NGFN s) c)"
  shows "\<exists>s'. AssembleK s = Inl (FEMExceptionSolution ''Solver::AssembleK()'' ''Illegal GFN!'', s')"
proof (cases "AssembleK s")
  case (Inl a)
  then show ?thesis using AssembleK_Inl_err [of s "fst a" "snd a"] by (cases a) simp
next
  case (Inr s')
  from AssembleK_Inr_legal [OF pos Inr] bad show ?thesis by blast
qed

subsection \<open>The matrix behind the calls\<close>

lemma ls_run_append: "ls_run st (a @ b) = ls_run (ls_run st a) b"
  by (simp add: ls_run_def)

lemma ls_run_Nil [simp]: "ls_run st [] = st"
  by (simp add: ls_run_def)

lemma ls_run_Cons: "ls_run st (c # cs) = ls_run (ls_apply st c) cs"
  by (simp add: ls_run_def)

lemma ls_apply_untouched:
  "\<not> writes_entry c p q \<Longrightarrow> matrix (ls_apply st c) p q = matrix st p q"
  by (cases c) auto

lemma ls_run_untouched:
  "\<forall>c\<in>set cs. \<not> writes_entry c p q \<Longrightarrow> matrix (ls_run st cs) p q = matrix st p q"
  by (induction cs arbitrary: st) (simp_all add: ls_run_Cons ls_apply_untouched)

lemma ls_run_added:
  "\<forall>c\<in>set cs. \<exists>i j v. c = AddMatrixValue i j v \<Longrightarrow>
     matrix (ls_run st cs) p q = matrix st p q + sum_list (map (added p q) cs)"
  by (induction cs arbitrary: st) (auto simp: ls_run_Cons)

lemma added_Ke_call:
  "sum_list (map (added p q) (Ke_call e j k)) =
     (if int (GetDegreeOfFreedom e j) = p \<and> int (GetDegreeOfFreedom e k) = q then Ke e j k else 0)"
  by (simp add: Ke_call_def)

lemma sum_list_map_concat_map:
  "sum_list (map f (concat (map g xs))) = (\<Sum>x\<leftarrow>xs. sum_list (map f (g x)))"
  by (induction xs) simp_all

lemma added_Ke_calls:
  "sum_list (map (added p q) (concat (map Ke_calls es))) = assembled es p q"
  by (simp add: assembled_def Ke_calls_def sum_list_map_concat_map added_Ke_call)

lemma Ke_calls_are_additions: "\<forall>c\<in>set (concat (map Ke_calls es)). \<exists>i j v. c = AddMatrixValue i j v"
  by (auto simp: Ke_calls_def Ke_call_def split: if_splits)

lemma renumber_Index_ge: "c \<in> set (renumber n cs) \<Longrightarrow> n \<le> Index c"
  by (induction cs arbitrary: n) (auto, force)

lemma mfc_calls_outside:
  assumes "\<forall>cc\<in>set ms. 0 \<le> Index cc" "p < ngfn" "q < ngfn"
  shows "\<forall>c\<in>set (concat (map (mfc_calls ngfn) ms)). \<not> writes_entry c p q"
  using assms by (auto simp: mfc_calls_def term_calls_def)

lemma assembled_matrix:
  assumes pos: "0 < NGFN s" and ok: "AssembleK s = Inr s'" and p: "p < NGFN s" and q: "q < NGFN s"
  shows "matrix (ls_run st (m_ls s')) p q = assembled (Solver.el s) p q"
proof -
  from AssembleK_Inr_legal [OF pos ok] AssembleK_legal [OF pos] ok
  have s': "s' = (scanned s)\<lparr>m_ls := m_ls (scanned s) @ concat (map Ke_calls (Solver.el s)) @
                  concat (map (mfc_calls (NGFN s)) (mfcs_of (load (scanned s))))\<rparr>"
    by simp
  let ?K = "concat (map Ke_calls (Solver.el s))"
  let ?M = "concat (map (mfc_calls (NGFN s)) (mfcs_of (load (scanned s))))"
  let ?st1 = "ls_run st (m_ls (scanned s))"
  have zero: "matrix ?st1 p q = 0"
    by (simp add: scanned_simps ls_run_append ls_run_Cons)
  have "\<forall>cc\<in>set (mfcs_of (load (scanned s))). 0 \<le> Index cc"
    by (auto simp: scanned_simps dest: renumber_Index_ge)
  then have M: "\<forall>c\<in>set ?M. \<not> writes_entry c p q"
    using p q by (rule mfc_calls_outside)
  have "matrix (ls_run st (m_ls s')) p q = matrix (ls_run (ls_run ?st1 ?K) ?M) p q"
    by (simp add: s' ls_run_append)
  also have "\<dots> = matrix (ls_run ?st1 ?K) p q"
    using M by (rule ls_run_untouched)
  also have "\<dots> = matrix ?st1 p q + sum_list (map (added p q) ?K)"
    using Ke_calls_are_additions by (rule ls_run_added)
  also have "\<dots> = assembled (Solver.el s) p q"
    by (simp add: zero added_Ke_calls)
  finally show ?thesis .
qed

subsection \<open>Constraint rows and columns\<close>

lemma matrix_ls_apply_Set:
  "matrix (ls_apply st (SetMatrixValue i j v)) a b = (if a = i \<and> b = j then v else matrix st a b)"
  by simp

lemma ls_run_Set_pair:
  "matrix (ls_run st [SetMatrixValue d r v, SetMatrixValue r d v]) a b =
     (if (a = d \<and> b = r) \<or> (a = r \<and> b = d) then v else matrix st a b)"
  unfolding ls_run_def foldl.simps matrix_ls_apply_Set
proof (cases "a = r \<and> b = d")
  case True
  then show "(if a = r \<and> b = d then v else if a = d \<and> b = r then v else matrix st a b) =
             (if (a = d \<and> b = r) \<or> (a = r \<and> b = d) then v else matrix st a b)"
    by (simp only: if_True simp_thms)
next
  case False
  then show "(if a = r \<and> b = d then v else if a = d \<and> b = r then v else matrix st a b) =
             (if (a = d \<and> b = r) \<or> (a = r \<and> b = d) then v else matrix st a b)"
    by (simp only: if_False simp_thms)
qed

lemma ls_run_term_calls:
  "matrix (ls_run st (term_calls ngfn m q)) a b =
     (if (a = int (GFN_of q) \<and> b = ngfn + m) \<or> (a = ngfn + m \<and> b = int (GFN_of q))
      then term_value q else matrix st a b)"
  unfolding term_calls_def by (rule ls_run_Set_pair)

lemma symmetric_border_term_calls:
  assumes "symmetric_border ngfn st" "int (GFN_of q) < ngfn" "0 \<le> m"
  shows "symmetric_border ngfn (ls_run st (term_calls ngfn m q))"
  using assms unfolding symmetric_border_def ls_run_term_calls by auto

lemma symmetric_border_terms:
  assumes "symmetric_border ngfn st" "\<forall>q\<in>set qs. int (GFN_of q) < ngfn" "0 \<le> m"
  shows "symmetric_border ngfn (ls_run st (concat (map (term_calls ngfn m) qs)))"
  using assms
  by (induction qs arbitrary: st) (simp_all add: ls_run_append symmetric_border_term_calls)

lemma symmetric_border_mfcs:
  assumes "symmetric_border ngfn st" "\<forall>c\<in>set ms. legal_mfc ngfn c \<and> 0 \<le> Index c"
  shows "symmetric_border ngfn (ls_run st (concat (map (mfc_calls ngfn) ms)))"
  using assms
proof (induction ms arbitrary: st)
  case Nil
  then show ?case by simp
next
  case (Cons c ms)
  then have "symmetric_border ngfn (ls_run st (mfc_calls ngfn c))"
    unfolding mfc_calls_def
    by (intro symmetric_border_terms) (simp_all add: legal_mfc_def list_all_iff)
  with Cons show ?case by (simp add: ls_run_append)
qed

lemma element_call_inside:
  "element_call ngfn e c \<Longrightarrow> ngfn \<le> a \<or> ngfn \<le> b \<Longrightarrow> \<not> writes_entry c a b"
  by (auto simp: element_call_def)

lemma constraint_call_offdiagonal:
  "constraint_call ngfn cc c \<Longrightarrow> ngfn \<le> a \<Longrightarrow> ngfn \<le> b \<Longrightarrow> \<not> writes_entry c a b"
  by (auto simp: constraint_call_def)

lemma Ke_calls_inside:
  assumes "\<forall>e\<in>set es. legal_element ngfn e" "ngfn \<le> a \<or> ngfn \<le> b"
  shows "\<forall>c\<in>set (concat (map Ke_calls es)). \<not> writes_entry c a b"
proof -
  have "int (GetDegreeOfFreedom e j) < ngfn"
    if "e \<in> set es" "j < GetNumberOfDegreesOfFreedom e" for e j
    using that assms(1) by (auto dest: legal_elementD)
  with assms(2) show ?thesis
    by (fastforce simp: Ke_calls_def Ke_call_def split: if_splits)
qed

lemma AssembleK_success_log:
  assumes pos: "0 < NGFN s" and ok: "AssembleK s = Inr s'"
  shows "s' = (scanned s)\<lparr>m_ls := m_ls (scanned s) @ concat (map Ke_calls (Solver.el s)) @
                  concat (map (mfc_calls (NGFN s)) (renumber 0 (mfcs_of (load s))))\<rparr>"
  using AssembleK_Inr_legal [OF pos ok] AssembleK_legal [OF pos] ok
  by (simp add: scanned_simps)

lemma border_after_elements:
  assumes "\<forall>e\<in>set es. legal_element ngfn e"
  shows "symmetric_border ngfn (ls_run st (pre @ [SetSystemOrder n, InitializeMatrix] @ concat (map Ke_calls es)))"
proof -
  have "matrix (ls_run st (pre @ [SetSystemOrder n, InitializeMatrix] @ concat (map Ke_calls es))) a b = 0"
    if "ngfn \<le> a \<or> ngfn \<le> b" for a b
  proof -
    have "matrix (ls_run (ls_run st (pre @ [SetSystemOrder n, InitializeMatrix])) (concat (map Ke_calls es))) a b
          = matrix (ls_run st (pre @ [SetSystemOrder n, InitializeMatrix])) a b"
      using Ke_calls_inside [OF assms that] by (rule ls_run_untouched)
    then show ?thesis
      by (simp add: ls_run_append ls_run_Cons)
  qed
  then show ?thesis
    unfolding symmetric_border_def by simp
qed

lemma AssembleK_symmetric_border:
  assumes pos: "0 < NGFN s" and ok: "AssembleK s = Inr s'"
  shows "symmetric_border (NGFN s) (ls_run st (m_ls s'))"
proof -
  note legal = AssembleK_Inr_legal [OF pos ok]
  have ms: "\<forall>c\<in>set (renumber 0 (mfcs_of (load s))). legal_mfc (NGFN s) c \<and> 0 \<le> Index c"
    using legal set_renumber_legal [of 0 "mfcs_of (load s)" "NGFN s"]
    by (auto dest: renumber_Index_ge)
  let ?A = "m_ls s @ [SetSystemOrder (NGFN s + int (length (mfcs_of (load s)))),
                     InitializeMatrix] @ concat (map Ke_calls (Solver.el s))"
  let ?M = "concat (map (mfc_calls (NGFN s)) (renumber 0 (mfcs_of (load s))))"
  have eq: "m_ls s' = ?A @ ?M"
    by (simp add: AssembleK_success_log [OF pos ok] scanned_simps)
  have "symmetric_border (NGFN s) (ls_run (ls_run st ?A) ?M)"
    using border_after_elements ms legal by (intro symmetric_border_mfcs) blast+
  then show ?thesis
    unfolding eq by (simp only: ls_run_append)
qed

lemma writes_entry_Set_pair:
  "c \<in> set [SetMatrixValue d r v, SetMatrixValue r d v] \<Longrightarrow> writes_entry c a b \<Longrightarrow>
     (a = d \<and> b = r) \<or> (a = r \<and> b = d)"
proof -
  assume mem: "c \<in> set [SetMatrixValue d r v, SetMatrixValue r d v]" and w: "writes_entry c a b"
  from mem have "c = SetMatrixValue d r v \<or> c = SetMatrixValue r d v" by simp
  then show ?thesis
  proof
    assume "c = SetMatrixValue d r v"
    with w have "d = a \<and> r = b" by (simp only: writes_entry.simps)
    then show ?thesis by blast
  next
    assume "c = SetMatrixValue r d v"
    with w have "r = a \<and> d = b" by (simp only: writes_entry.simps)
    then show ?thesis by blast
  qed
qed

lemma writes_entry_term_calls:
  "c \<in> set (term_calls ngfn m q) \<Longrightarrow> writes_entry c a b \<Longrightarrow>
     (a = int (GFN_of q) \<and> b = ngfn + m) \<or> (a = ngfn + m \<and> b = int (GFN_of q))"
  unfolding term_calls_def by (rule writes_entry_Set_pair)

lemma drop_renumber: "drop k (renumber n cs) = renumber (n + int k) (drop k cs)"
proof (induction cs arbitrary: n k)
  case Nil
  then show ?case by simp
next
  case (Cons c cs)
  show ?case
  proof (cases k)
    case 0
    then show ?thesis by simp
  next
    case (Suc k')
    then show ?thesis using Cons [of k' "n + 1"] by (simp add: algebra_simps)
  qed
qed

lemma lhs_renumber: "i < length cs \<Longrightarrow> lhs (renumber n cs ! i) = lhs (cs ! i)"
  by (simp add: nth_renumber)

lemma in_mfc_callsD:
  "c \<in> set (mfc_calls ngfn cc) \<Longrightarrow> \<exists>q\<in>set (lhs cc). c \<in> set (term_calls ngfn (Index cc) q)"
  by (auto simp: mfc_calls_def)

lemma AssembleK_border_value:
  assumes pos: "0 < NGFN s" and ok: "AssembleK s = Inr s'"
      and i: "i < length (mfcs_of (load s))"
      and lhs: "lhs (mfcs_of (load s) ! i) = qs1 @ q1 # qs2"
      and later: "\<forall>q'\<in>set qs2. GFN_of q' \<noteq> GFN_of q1"
  shows "matrix (ls_run st (m_ls s')) (int (GFN_of q1)) (NGFN s + int i) = term_value q1"
proof -
  let ?N = "NGFN s"
  let ?ms = "renumber 0 (mfcs_of (load s))"
  let ?d = "int (GFN_of q1)" and ?r = "?N + int i"
  note legal = AssembleK_Inr_legal [OF pos ok]
  from i have "mfcs_of (load s) ! i \<in> set (mfcs_of (load s))" by simp
  with legal have li: "legal_mfc ?N (mfcs_of (load s) ! i)" by blast
  with lhs have d: "?d < ?N" and qs2: "\<forall>q'\<in>set qs2. int (GFN_of q') < ?N"
    by (simp_all add: legal_mfc_def list_all_iff)
  have ms: "?ms = take i ?ms @ (?ms ! i) # drop (Suc i) ?ms"
    using i by (simp add: id_take_nth_drop length_renumber)
  have ci: "mfc_calls ?N (?ms ! i) =
              (concat (map (term_calls ?N (int i)) qs1) @ term_calls ?N (int i) q1) @
              concat (map (term_calls ?N (int i)) qs2)"
    using i lhs by (simp add: mfc_calls_def nth_renumber)
  let ?A = "m_ls (scanned s) @ concat (map Ke_calls (Solver.el s)) @
            concat (map (mfc_calls ?N) (take i ?ms)) @ concat (map (term_calls ?N (int i)) qs1)"
  let ?R = "concat (map (term_calls ?N (int i)) qs2) @
            concat (map (mfc_calls ?N) (drop (Suc i) ?ms))"
  have "concat (map (mfc_calls ?N) ?ms) =
          concat (map (mfc_calls ?N) (take i ?ms)) @ mfc_calls ?N (?ms ! i) @
          concat (map (mfc_calls ?N) (drop (Suc i) ?ms))"
    by (subst ms) simp
  then have log: "m_ls s' = (?A @ term_calls ?N (int i) q1) @ ?R"
    by (simp add: AssembleK_success_log [OF pos ok] ci)
  have R: "\<not> writes_entry c ?d ?r" if "c \<in> set ?R" for c
  proof
    assume w: "writes_entry c ?d ?r"
    from that consider q' where "q' \<in> set qs2" "c \<in> set (term_calls ?N (int i) q')"
      | cc where "cc \<in> set (drop (Suc i) ?ms)" "c \<in> set (mfc_calls ?N cc)"
      by auto
    then show False
    proof cases
      case 1
      from writes_entry_term_calls [OF 1(2) w] later 1(1) d show False by auto
    next
      case 2
      from 2(1) have "int (Suc i) \<le> Index cc"
        using renumber_Index_ge [of cc "int (Suc i)" "drop (Suc i) (mfcs_of (load s))"]
        by (simp add: drop_renumber)
      from in_mfc_callsD [OF 2(2)]
      obtain q' where "q' \<in> set (lhs cc)" and "c \<in> set (term_calls ?N (Index cc) q')"
        by blast
      from writes_entry_term_calls [OF this(2) w] have "int i = Index cc \<or> ?d = ?N + Index cc"
        by auto
      with \<open>int (Suc i) \<le> Index cc\<close> show False using d by auto
    qed
  qed
  have "matrix (ls_run st (m_ls s')) ?d ?r =
          matrix (ls_run (ls_run (ls_run st ?A) (term_calls ?N (int i) q1)) ?R) ?d ?r"
    by (simp only: log ls_run_append)
  also have "\<dots> = matrix (ls_run (ls_run st ?A) (term_calls ?N (int i) q1)) ?d ?r"
    by (rule ls_run_untouched) (use R in blast)
  also have "\<dots> = term_value q1"
    by (simp only: ls_run_term_calls simp_thms if_True)
  finally show ?thesis .
qed

lemma term_calls_in_log:
  assumes "i < length cs" "q \<in> set (lhs (cs ! i))"
  shows "set (term_calls ngfn (int i) q) \<subseteq> set (concat (map (mfc_calls ngfn) (renumber 0 cs)))"
proof -
  from assms(1) have "renumber 0 cs ! i \<in> set (renumber 0 cs)"
    by (simp add: length_renumber)
  moreover have "set (term_calls ngfn (int i) q) \<subseteq> set (mfc_calls ngfn (renumber 0 cs ! i))"
    using assms by (auto simp: mfc_calls_def nth_renumber)
  ultimately show ?thesis by auto
qed

lemma AssembleK_block_untouched:
  assumes pos: "0 < NGFN s" and a: "NGFN s \<le> a" and b: "NGFN s \<le> b"
  shows "\<exists>cs. m_ls (state_of (AssembleK s)) =
                m_ls s @ [SetSystemOrder (NGFN s + int (length (mfcs_of (load s)))), InitializeMatrix] @ cs \<and>
              (\<forall>c\<in>set cs. \<not> writes_entry c a b)"
proof -
  from AssembleK_calls [OF pos] obtain cs where
    s': "state_of (AssembleK s) = (scanned s)\<lparr>m_ls := m_ls (scanned s) @ cs\<rparr>" and
    cs: "\<forall>c\<in>set cs. (\<exists>e\<in>set (Solver.el s). element_call (NGFN s) e c) \<or>
                      (\<exists>cc\<in>set (mfcs_of (load (scanned s))). constraint_call (NGFN s) cc c)"
    by blast
  have "\<not> writes_entry c a b" if "c \<in> set cs" for c
    using cs that a b element_call_inside constraint_call_offdiagonal by blast
  then show ?thesis
    by (intro exI [of _ cs]) (simp add: s' scanned_simps)
qed

subsection \<open>The calls of AssembleF\<close>

lemma vector_ls_apply_untouched:
  "\<not> writes_vector c p \<Longrightarrow> vector (ls_apply st c) p = vector st p"
  by (cases c) auto

lemma vector_ls_run_untouched:
  "\<forall>c\<in>set cs. \<not> writes_vector c p \<Longrightarrow> vector (ls_run st cs) p = vector st p"
  by (induction cs arbitrary: st) (simp_all add: ls_run_Cons vector_ls_apply_untouched)

lemma for_each_Inr_split:
  assumes "for_each body (pre @ x # post) ls = Inr ls'"
  obtains l1 l2 where "for_each body pre ls = Inr l1" "body x l1 = Inr l2"
    "for_each body post l2 = Inr ls'"
  using assms by (auto simp: for_each_append split: sum.splits)

lemma AssembleF_LoadNode_dof_calls:
  "\<exists>cs. state_of (AssembleF_LoadNode_dof ngfn dimn l1 i ls) = ls @ cs \<and>
      (\<forall>c\<in>set cs. \<exists>g v. g < ngfn \<and> c = AddVectorValue g v)"
  by (auto simp: AssembleF_LoadNode_dof_def Let_def split: option.splits)

lemma AssembleF_LoadNode_calls:
  "\<exists>cs. state_of (AssembleF_LoadNode ngfn dimn l1 ls) = ls @ cs \<and>
      (\<forall>c\<in>set cs. \<exists>g v. g < ngfn \<and> c = AddVectorValue g v)"
proof -
  have "\<exists>cs. state_of (for_each (AssembleF_LoadNode_dof ngfn dimn l1) is ls) = ls @ cs \<and>
      (\<forall>c\<in>set cs. \<exists>i\<in>set is. \<exists>g v. g < ngfn \<and> c = AddVectorValue g v)" for "is"
    by (rule for_each_calls) (rule AssembleF_LoadNode_dof_calls)
  then show ?thesis
    unfolding AssembleF_LoadNode_def Let_def by fastforce
qed

lemma AssembleF_LoadElement_on_calls:
  "\<exists>cs. state_of (AssembleF_LoadElement_on ngfn dimn l1 el0 ls) = ls @ cs \<and>
      (\<forall>c\<in>set cs. \<exists>g v. g < ngfn \<and> c = AddVectorValue g v)"
proof -
  have step: "\<exists>cs. state_of (AssembleF_LoadElement_dof ngfn dimn el0 Fe0 j l) = l @ cs \<and>
      (\<forall>c\<in>set cs. \<exists>g v. g < ngfn \<and> c = AddVectorValue g v)" for Fe0 j l
    by (auto simp: AssembleF_LoadElement_dof_def split: option.splits)
  have "\<exists>cs. state_of (for_each (AssembleF_LoadElement_dof ngfn dimn el0 Fe0) js ls) = ls @ cs \<and>
      (\<forall>c\<in>set cs. \<exists>j\<in>set js. \<exists>g v. g < ngfn \<and> c = AddVectorValue g v)" for Fe0 js
    by (rule for_each_calls) (rule step)
  then show ?thesis
    unfolding AssembleF_LoadElement_on_def Let_def by fastforce
qed

lemma AssembleF_LoadElement_calls:
  "\<exists>cs. state_of (AssembleF_LoadElement ngfn dimn els l1 ls) = ls @ cs \<and>
      (\<forall>c\<in>set cs. \<exists>g v. g < ngfn \<and> c = AddVectorValue g v)"
proof -
  have "\<exists>cs. state_of (for_each (AssembleF_LoadElement_on ngfn dimn l1) es ls) = ls @ cs \<and>
      (\<forall>c\<in>set cs. \<exists>e\<in>set es. \<exists>g v. g < ngfn \<and> c = AddVectorValue g v)" for es
    by (rule for_each_calls) (rule AssembleF_LoadElement_on_calls)
  then have "\<exists>cs. state_of (for_each (AssembleF_LoadElement_on ngfn dimn l1) es ls) = ls @ cs \<and>
      (\<forall>c\<in>set cs. \<exists>g v. g < ngfn \<and> c = AddVectorValue g v)" for es
    by fastforce
  from this [of "LoadElement.el l1"] this [of els] show ?thesis
    unfolding AssembleF_LoadElement_def by (cases "LoadElement.el l1 = []") simp_all
qed

lemma AssembleF_load_calls:
  "\<exists>cs. state_of (AssembleF_load ngfn dimn els l ls) = ls @ cs \<and> (\<forall>c\<in>set cs. force_call ngfn l c)"
proof (cases l)
  case (IsLoadNode l1)
  then show ?thesis using AssembleF_LoadNode_calls [of ngfn dimn l1 ls] by simp
next
  case (IsLoadElement l1)
  then show ?thesis using AssembleF_LoadElement_calls [of ngfn dimn els l1 ls] by simp
next
  case (IsLoadBCMFC l1)
  then show ?thesis by (auto simp: AssembleF_LoadBCMFC_def split: option.splits)
next
  case IsOtherLoad
  then show ?thesis by simp
qed

lemma AssembleF_loads_calls:
  "\<exists>cs. state_of (for_each (AssembleF_load ngfn dimn els) loads ls) = ls @ cs \<and>
      (\<forall>c\<in>set cs. \<exists>l\<in>set loads. force_call ngfn l c)"
  by (rule for_each_calls) (rule AssembleF_load_calls)

lemma mfcs_of_append: "mfcs_of (xs @ ys) = mfcs_of xs @ mfcs_of ys"
  by (induction xs rule: mfcs_of.induct) simp_all

lemma IsLoadBCMFC_in_mfcs_of: "IsLoadBCMFC c \<in> set loads \<Longrightarrow> c \<in> set (mfcs_of loads)"
  by (induction loads rule: mfcs_of.induct) auto

lemma force_call_elsewhere:
  assumes "force_call ngfn l c" "0 \<le> m"
      and "\<And>l1. l = IsLoadBCMFC l1 \<Longrightarrow> Index l1 \<noteq> m"
  shows "\<not> writes_vector c (ngfn + m)"
proof (cases l)
  case (IsLoadBCMFC l1)
  with assms(1) obtain v where "c = SetVectorValue (ngfn + Index l1) v" by auto
  with assms(3) [OF IsLoadBCMFC] show ?thesis by simp
qed (use assms(1,2) in auto)

lemma AssembleF_eq:
  "0 < NGFN s \<Longrightarrow>
   AssembleF s dimn =
     (case for_each (AssembleF_load (NGFN s) dimn (Solver.el s)) (load s) (m_ls s @ [InitializeVector]) of
        Inl (x, ls) \<Rightarrow> Inl (x, s\<lparr>m_ls := ls\<rparr>)
      | Inr ls \<Rightarrow> Inr (s\<lparr>m_ls := ls\<rparr>))"
  by (simp add: AssembleF_def)

lemma AssembleF_InrD:
  assumes "0 < NGFN s" "AssembleF s dimn = Inr s'"
  shows "for_each (AssembleF_load (NGFN s) dimn (Solver.el s)) (load s) (m_ls s @ [InitializeVector])
           = Inr (m_ls s')"
  using assms(2) unfolding AssembleF_eq [OF assms(1)]
  by (auto split: sum.splits prod.splits)

lemma AssembleF_LoadBCMFC_Inr:
  "AssembleF_LoadBCMFC ngfn dimn l1 ls = Inr ls' \<Longrightarrow>
     \<exists>v. vec_at (rhs l1) dimn = Some v \<and> ls' = ls @ [SetVectorValue (ngfn + Index l1) v]"
  by (auto simp: AssembleF_LoadBCMFC_def split: option.splits)

lemma vector_after_Set:
  "vector (ls_run st (ls @ [SetVectorValue p v])) p = v"
  by (simp add: ls_run_append ls_run_Cons)

lemma AssembleF_mfc_call:
  assumes pos: "0 < NGFN s" and ok: "AssembleF s dimn = Inr s'"
      and ld: "load s = pre @ IsLoadBCMFC l2 # post"
  obtains v l1 cs where "vec_at (rhs l2) dimn = Some v"
    "m_ls s' = l1 @ [SetVectorValue (NGFN s + Index l2) v] @ cs"
    "length (m_ls s) < length l1"
    "take (length (m_ls s)) l1 = m_ls s"
    "\<forall>c\<in>set cs. \<exists>l\<in>set post. force_call (NGFN s) l c"
proof -
  let ?f = "AssembleF_load (NGFN s) dimn (Solver.el s)"
  from AssembleF_InrD [OF pos ok]
  have "for_each ?f (pre @ IsLoadBCMFC l2 # post) (m_ls s @ [InitializeVector]) = Inr (m_ls s')"
    by (simp add: ld)
  then obtain l1 l2' where 1: "for_each ?f pre (m_ls s @ [InitializeVector]) = Inr l1"
    and 2: "?f (IsLoadBCMFC l2) l1 = Inr l2'" and 3: "for_each ?f post l2' = Inr (m_ls s')"
    by (rule for_each_Inr_split)
  from 2 AssembleF_LoadBCMFC_Inr obtain v where v: "vec_at (rhs l2) dimn = Some v"
    and l2': "l2' = l1 @ [SetVectorValue (NGFN s + Index l2) v]"
    by fastforce
  from AssembleF_loads_calls [of "NGFN s" dimn "Solver.el s" pre "m_ls s @ [InitializeVector]"] 1
  obtain cs0 where l1: "l1 = (m_ls s @ [InitializeVector]) @ cs0" by auto
  from AssembleF_loads_calls [of "NGFN s" dimn "Solver.el s" post l2'] 3
  obtain cs where "m_ls s' = l2' @ cs" "\<forall>c\<in>set cs. \<exists>l\<in>set post. force_call (NGFN s) l c"
    by auto
  with v l2' l1 show thesis
    by (intro that [of v l1 cs]) simp_all
qed

lemma AssembleF_first_failure:
  assumes pos: "0 < NGFN s"
      and ld: "load s = pre @ l # post"
      and pre: "for_each (AssembleF_load (NGFN s) dimn (Solver.el s)) pre (m_ls s @ [InitializeVector]) = Inr ls1"
      and bad: "AssembleF_load (NGFN s) dimn (Solver.el s) l ls1 = Inl (x, ls2)"
  shows "AssembleF s dimn = Inl (x, s\<lparr>m_ls := ls2\<rparr>)"
  unfolding AssembleF_eq [OF pos] ld by (simp add: for_each_append pre bad)

lemma AssembleF_pre_log:
  assumes "for_each (AssembleF_load ngfn dimn els) pre (ls @ [InitializeVector]) = Inr ls1"
  shows "\<exists>cs. ls1 = ls @ InitializeVector # cs"
  using AssembleF_loads_calls [of ngfn dimn els pre "ls @ [InitializeVector]"] assms by auto

lemma AssembleF_LoadNode_size:
  assumes "0 < GetNumberOfDegreesOfFreedomPerPoint (m_element l1)"
      and "length (F l1) mod GetNumberOfDegreesOfFreedomPerPoint (m_element l1) \<noteq> 0"
  shows "AssembleF_LoadNode ngfn dimn l1 ls =
           Inl (FEMExceptionSolution ''Solver::AssembleF()''
                  ''Illegal size of a force vector in LoadNode object!'', ls)"
  using assms by (simp add: AssembleF_LoadNode_def Let_def)

text \<open>Reads of the force vectors at the index that the code computes.\<close>

lemma unsigned32_range: "0 \<le> unsigned32 x" "unsigned32 x < 2 ^ 32"
  by (simp_all add: unsigned32_def)

lemma unsigned32_id:
  assumes "0 \<le> x" and "x < 2 ^ 32"
  shows "unsigned32 x = x"
  using assms by (simp add: unsigned32_def)

lemma vec_at_unsigned32:
  "vec_at v (unsigned32 x) =
     (if unsigned32 x < int (length v) then Some (v ! nat (unsigned32 x)) else None)"
  by (simp add: vec_at_def unsigned32_range)

lemma multiple_reaches_end:
  fixes P L i :: nat and d :: int
  assumes P: "0 < P" and m: "L mod P = 0" and i: "i < P" and le: "int L \<le> int i + int P * d"
  shows "int L \<le> int P * d"
proof -
  from m obtain q where L: "L = P * q" by (auto simp: mod_eq_0_iff_dvd)
  have "int P * int q < int P * (d + 1)"
    using le i L by (simp add: algebra_simps)
  with P have "int q < d + 1" by (simp add: mult_less_cancel_left_pos)
  then have "int q \<le> d" by simp
  with P have "int P * int q \<le> int P * d" by (simp add: mult_le_cancel_left_pos)
  with L show ?thesis by simp
qed

lemma upt_split_at:
  assumes "i < n"
  shows "[0..<n] = [0..<i] @ i # [Suc i..<n]"
  using assms by (metis le0 upt_conv_Cons upt_add_eq_append le_add_diff_inverse less_imp_le_nat)

lemma AssembleF_LoadNode_first_outside:
  assumes P: "0 < GetNumberOfDegreesOfFreedomPerPoint (m_element l1)"
      and m: "length (F l1) mod GetNumberOfDegreesOfFreedomPerPoint (m_element l1) = 0"
      and i: "i < GetNumberOfDegreesOfFreedomPerPoint (m_element l1)"
      and out: "int (length (F l1)) \<le>
                  unsigned32 (int i + int (GetNumberOfDegreesOfFreedomPerPoint (m_element l1)) * dimn)"
      and first: "\<forall>j<i. unsigned32 (int j + int (GetNumberOfDegreesOfFreedomPerPoint (m_element l1)) * dimn)
                          < int (length (F l1))"
      and gfn: "\<forall>j\<le>i. int (GetDegreeOfFreedomAtPoint (m_element l1) (m_pt l1) j) < ngfn"
  shows "AssembleF_LoadNode ngfn dimn l1 ls =
           Inl (UndefinedBehaviour ''read outside LoadNode::F'',
                ls @ map (\<lambda>j. AddVectorValue
                                 (int (GetDegreeOfFreedomAtPoint (m_element l1) (m_pt l1) j))
                                 (F l1 ! nat (unsigned32
                                    (int j + int (GetNumberOfDegreesOfFreedomPerPoint (m_element l1)) * dimn))))
                        [0..<i])"
proof -
  let ?P = "GetNumberOfDegreesOfFreedomPerPoint (m_element l1)"
  let ?g = "\<lambda>j. [AddVectorValue (int (GetDegreeOfFreedomAtPoint (m_element l1) (m_pt l1) j))
                   (F l1 ! nat (unsigned32 (int j + int ?P * dimn)))]"
  have ok: "AssembleF_LoadNode_dof ngfn dimn l1 j ls' = Inr (ls' @ ?g j)"
    if "j \<in> set [0..<i]" for j ls'
  proof -
    from that have "j < i" by simp
    with first gfn have "unsigned32 (int j + int ?P * dimn) < int (length (F l1))"
      and "int (GetDegreeOfFreedomAtPoint (m_element l1) (m_pt l1) j) < ngfn"
      by auto
    then show ?thesis
      by (simp add: AssembleF_LoadNode_dof_def Let_def vec_at_unsigned32)
  qed
  from gfn have "int (GetDegreeOfFreedomAtPoint (m_element l1) (m_pt l1) i) < ngfn" by simp
  with out have bad: "AssembleF_LoadNode_dof ngfn dimn l1 i (ls @ concat (map ?g [0..<i])) =
      Inl (UndefinedBehaviour ''read outside LoadNode::F'', ls @ concat (map ?g [0..<i]))"
    by (simp add: AssembleF_LoadNode_dof_def Let_def vec_at_unsigned32)
  have "for_each (AssembleF_LoadNode_dof ngfn dimn l1) ([0..<i] @ i # [Suc i..<?P]) ls =
      Inl (UndefinedBehaviour ''read outside LoadNode::F'', ls @ concat (map ?g [0..<i]))"
    using ok bad by (rule for_each_first_failure)
  then have "for_each (AssembleF_LoadNode_dof ngfn dimn l1) [0..<?P] ls =
      Inl (UndefinedBehaviour ''read outside LoadNode::F'', ls @ concat (map ?g [0..<i]))"
    by (simp only: upt_split_at [OF i, symmetric])
  with P m show ?thesis
    by (simp add: AssembleF_LoadNode_def Let_def concat_map_singleton)
qed

lemma AssembleF_LoadNode_outside:
  assumes P: "0 < GetNumberOfDegreesOfFreedomPerPoint (m_element l1)"
      and m: "length (F l1) mod GetNumberOfDegreesOfFreedomPerPoint (m_element l1) = 0"
      and i: "i < GetNumberOfDegreesOfFreedomPerPoint (m_element l1)"
      and nonneg: "0 \<le> dimn"
      and nowrap: "int (GetNumberOfDegreesOfFreedomPerPoint (m_element l1)) * (dimn + 1) \<le> 2 ^ 32"
      and out: "int (length (F l1)) \<le>
                  int i + int (GetNumberOfDegreesOfFreedomPerPoint (m_element l1)) * dimn"
      and gfn: "int (GetDegreeOfFreedomAtPoint (m_element l1) (m_pt l1) 0) < ngfn"
  shows "AssembleF_LoadNode ngfn dimn l1 ls =
           Inl (UndefinedBehaviour ''read outside LoadNode::F'', ls)"
proof -
  let ?P = "GetNumberOfDegreesOfFreedomPerPoint (m_element l1)"
  from P m i out have le: "int (length (F l1)) \<le> int ?P * dimn"
    by (rule multiple_reaches_end)
  have "0 \<le> int ?P * dimn" using nonneg by simp
  moreover have "int ?P * dimn < 2 ^ 32"
    using nowrap P by (simp add: algebra_simps)
  ultimately have "unsigned32 (int 0 + int ?P * dimn) = int ?P * dimn"
    by (simp add: unsigned32_id)
  with le have o: "int (length (F l1)) \<le> unsigned32 (int 0 + int ?P * dimn)" by simp
  from AssembleF_LoadNode_first_outside [OF P m P o, of ngfn ls] gfn
  show ?thesis by simp
qed

lemma AssembleF_LoadElement_on_first_outside:
  assumes j: "j < GetNumberOfDegreesOfFreedom el0"
      and out: "int (length (Fe el0 (load_data l2))) \<le>
                  unsigned32 (int j + dimn * int (GetNumberOfDegreesOfFreedom el0))"
      and first: "\<forall>k<j. unsigned32 (int k + dimn * int (GetNumberOfDegreesOfFreedom el0))
                          < int (length (Fe el0 (load_data l2)))"
      and gfn: "\<forall>k\<le>j. int (GetDegreeOfFreedom el0 k) < ngfn"
  shows "AssembleF_LoadElement_on ngfn dimn l2 el0 ls =
           Inl (UndefinedBehaviour ''read outside Fe'',
                ls @ map (\<lambda>k. AddVectorValue (int (GetDegreeOfFreedom el0 k))
                                 (Fe el0 (load_data l2) !
                                    nat (unsigned32 (int k + dimn * int (GetNumberOfDegreesOfFreedom el0)))))
                        [0..<j])"
proof -
  let ?Ne = "GetNumberOfDegreesOfFreedom el0"
  let ?Fe = "Fe el0 (load_data l2)"
  let ?g = "\<lambda>k. [AddVectorValue (int (GetDegreeOfFreedom el0 k))
                   (?Fe ! nat (unsigned32 (int k + dimn * int ?Ne)))]"
  have ok: "AssembleF_LoadElement_dof ngfn dimn el0 ?Fe k ls' = Inr (ls' @ ?g k)"
    if "k \<in> set [0..<j]" for k ls'
  proof -
    from that have "k < j" by simp
    with first gfn have "unsigned32 (int k + dimn * int ?Ne) < int (length ?Fe)"
      and "int (GetDegreeOfFreedom el0 k) < ngfn"
      by auto
    then show ?thesis
      by (simp add: AssembleF_LoadElement_dof_def vec_at_unsigned32)
  qed
  from gfn have "int (GetDegreeOfFreedom el0 j) < ngfn" by simp
  with out have bad: "AssembleF_LoadElement_dof ngfn dimn el0 ?Fe j (ls @ concat (map ?g [0..<j])) =
      Inl (UndefinedBehaviour ''read outside Fe'', ls @ concat (map ?g [0..<j]))"
    by (simp add: AssembleF_LoadElement_dof_def vec_at_unsigned32)
  have "for_each (AssembleF_LoadElement_dof ngfn dimn el0 ?Fe) ([0..<j] @ j # [Suc j..<?Ne]) ls =
      Inl (UndefinedBehaviour ''read outside Fe'', ls @ concat (map ?g [0..<j]))"
    using ok bad by (rule for_each_first_failure)
  then have "for_each (AssembleF_LoadElement_dof ngfn dimn el0 ?Fe) [0..<?Ne] ls =
      Inl (UndefinedBehaviour ''read outside Fe'', ls @ concat (map ?g [0..<j]))"
    by (simp only: upt_split_at [OF j, symmetric])
  then show ?thesis
    by (simp add: AssembleF_LoadElement_on_def Let_def concat_map_singleton)
qed

lemma AssembleF_LoadElement_on_outside:
  assumes Ne: "0 < GetNumberOfDegreesOfFreedom el0"
      and nonneg: "0 \<le> dimn"
      and nowrap: "dimn * int (GetNumberOfDegreesOfFreedom el0) < 2 ^ 32"
      and out: "int (length (Fe el0 (load_data l2))) \<le> dimn * int (GetNumberOfDegreesOfFreedom el0)"
      and gfn: "int (GetDegreeOfFreedom el0 0) < ngfn"
  shows "AssembleF_LoadElement_on ngfn dimn l2 el0 ls = Inl (UndefinedBehaviour ''read outside Fe'', ls)"
proof -
  let ?Ne = "GetNumberOfDegreesOfFreedom el0"
  have "0 \<le> dimn * int ?Ne" using nonneg by simp
  with nowrap have "unsigned32 (int 0 + dimn * int ?Ne) = dimn * int ?Ne"
    by (simp add: unsigned32_id)
  with out have o: "int (length (Fe el0 (load_data l2))) \<le> unsigned32 (int 0 + dimn * int ?Ne)"
    by simp
  from AssembleF_LoadElement_on_first_outside [OF Ne o, of ngfn ls] gfn
  show ?thesis by simp
qed

lemma AssembleF_LoadElement_first_target:
  assumes tg: "(if LoadElement.el l2 \<noteq> [] then LoadElement.el l2 else els) = el0 # others"
      and on: "AssembleF_LoadElement_on ngfn dimn l2 el0 ls = Inl err"
  shows "AssembleF_LoadElement ngfn dimn els l2 ls = Inl err"
proof (cases "LoadElement.el l2 = []")
  case True
  with tg have "els = el0 # others" by simp
  with True on show ?thesis by (simp add: AssembleF_LoadElement_def)
next
  case False
  with tg have "LoadElement.el l2 = el0 # others" by simp
  with on show ?thesis by (simp add: AssembleF_LoadElement_def)
qed

subsection \<open>The reader\<close>

lemmas reader_defs = ReadAnyObject_pass_def tellg_def seekg_def get_def good_def out_def
  read_class_name_def getline_def find_first_not_of_def find_first_of_def substr_def Let_def

lemma get_char:
  "good f \<Longrightarrow> gpos f < length (content f) \<Longrightarrow>
     get f = (Some (content f ! gpos f), f\<lparr>gpos := gpos f + 1\<rparr>)"
  by (simp add: get_def)

lemma get_Some_good:
  "get f = (Some c, f2) \<Longrightarrow> \<not> failbit f2"
  by (auto simp: get_def good_def split: if_splits)

lemma seekg_back:
  "\<not> failbit f' \<Longrightarrow> seekg (Some p) f' = f'\<lparr>gpos := p\<rparr>"
  by (simp add: seekg_def)

lemma ReadAnyObjectFromStream_Inr:
  "ReadAnyObject_pass lib nodes mats els f = Inr r \<Longrightarrow>
     ReadAnyObjectFromStream lib nodes mats els f = Some r"
  by (subst ReadAnyObjectFromStream.simps) simp

lemma ReadAnyObjectFromStream_Inl:
  "ReadAnyObject_pass lib nodes mats els f = Inl f' \<Longrightarrow>
     ReadAnyObjectFromStream lib nodes mats els f = ReadAnyObjectFromStream lib nodes mats els f'"
  by (subst ReadAnyObjectFromStream.simps) simp

subsection \<open>The example systems, evaluated\<close>

lemma AssembleK_ex_sparse:
  "AssembleK ex_sparse =
     Inr (ex_sparse\<lparr>m_ls := [SetSystemOrder 2, InitializeMatrix,
                              AddMatrixValue 0 0 2, AddMatrixValue 1 1 2]\<rparr>)"
  by (simp add: AssembleK_def ex_sparse_def AssembleK_element_def AssembleK_entry_def
      ex_spring_def ex_bar_def upt_rec Let_def)

lemma scanned_ex_short:
  "scanned ex_short =
     ex_short\<lparr>load := [IsLoadNode ex_force, IsLoadBCMFC (ex_mfc\<lparr>Index := 0\<rparr>), IsOtherLoad,
                       IsLoadBCMFC (ex_mfc\<lparr>Index := 1\<rparr>)],
              NMFC := 2, m_ls := [SetSystemOrder 3, InitializeMatrix]\<rparr>"
  by (simp add: scanned_def ex_short_def ex_system_def)

lemma scanned_ex_bad_system:
  "scanned ex_bad_system =
     ex_bad_system\<lparr>load := [IsLoadBCMFC (ex_mfc\<lparr>Index := 0\<rparr>), IsLoadBCMFC (ex_bad_mfc\<lparr>Index := 1\<rparr>)],
              NMFC := 2, m_ls := [SetSystemOrder 4, InitializeMatrix]\<rparr>"
  by (simp add: scanned_def ex_bad_system_def ex_system_def)

lemma AssembleK_ex_tied:
  "AssembleK ex_tied =
     Inr (ex_tied\<lparr>load := [IsLoadBCMFC (ex_mfc\<lparr>Index := 0\<rparr>), IsLoadBCMFC (ex_tie\<lparr>Index := 1\<rparr>)],
                  NMFC := 2, m_ls := ex_tied_calls\<rparr>)"
  by (simp add: AssembleK_def ex_tied_def ex_system_def AssembleK_element_def AssembleK_entry_def
      AssembleK_mfc_def AssembleK_term_def ex_mfc_def ex_tie_def ex_bar_def upt_rec Let_def
      ex_tied_calls_def)

lemma AssembleF_ex_loaded:
  "AssembleF ex_loaded 0 = Inr (ex_loaded\<lparr>m_ls := ex_loaded_calls\<rparr>)"
  by (simp add: AssembleF_def ex_loaded_def ex_system_def AssembleF_LoadBCMFC_def vec_at_def
      AssembleF_LoadNode_def AssembleF_LoadNode_dof_def unsigned32_def AssembleF_LoadElement_def
      AssembleF_LoadElement_on_def AssembleF_LoadElement_dof_def ex_mfc_def ex_force_def
      ex_gravity_def ex_bar_def upt_rec Let_def ex_loaded_calls_def)

lemma AssembleF_ex_missized:
  "AssembleF ex_missized 0 =
     Inl (FEMExceptionSolution ''Solver::AssembleF()''
            ''Illegal size of a force vector in LoadNode object!'',
          ex_missized\<lparr>m_ls := [InitializeVector, AddVectorValue 1 5]\<rparr>)"
  by (simp add: AssembleF_def ex_missized_def ex_system_def vec_at_def
      AssembleF_LoadNode_def AssembleF_LoadNode_dof_def unsigned32_def ex_force_def ex_bad_force_def
      ex_bar_def upt_rec Let_def)

lemmas ex_reader_defs = ex_lib_def ex_stream_def ex_skip_def ex_Read_def

lemma ex_pass_END:
  "ReadAnyObject_pass ex_lib () () () (ex_stream ''<END> <Node>x'' 0) = Inl (ex_stream ''<END> <Node>x'' 5)"
  by (simp add: reader_defs ex_reader_defs)

lemma ex_pass_Node:
  "ReadAnyObject_pass ex_lib () () () (ex_stream ''<END> <Node>x'' 5) =
     Inr (Inl (FEMExceptionIO ''Node::Read()'' ''Error reading FEM object!'',
               ex_stream ''<END> <Node>x'' 13))"
  by (simp add: reader_defs ex_reader_defs)

lemma ex_pass_blank:
  "ReadAnyObject_pass ex_lib () () () (ex_stream ''<>'' 0) =
     Inr (Inl (std_out_of_range, ex_stream ''<>'' 2))"
  by (simp add: reader_defs ex_reader_defs)

lemma ex_pass_unknown:
  "ReadAnyObject_pass ex_lib () () () (ex_stream ''  < Beam >1'' 0) =
     Inr (Inl (FEMExceptionIO ''Solver::ReadAnyObjectFromStream()'' ''Error reading FEM problem stream!'',
               ex_stream ''  < Beam >1'' 0))"
  by (simp add: reader_defs ex_reader_defs)

lemma ex_pass_ok:
  "ReadAnyObject_pass ex_lib () () () (ex_stream ''  < Node >1'' 0) =
     Inr (Inr (Some 1, ex_stream ''  < Node >1'' 11))"
  by (simp add: reader_defs ex_reader_defs)

lemma ex_pass_malformed:
  "ReadAnyObject_pass ex_lib () () () (ex_stream '' Node>1'' 0) =
     Inr (Inl (FEMExceptionIO ''Solver::ReadAnyObjectFromStream()'' ''Error reading FEM problem stream!'',
               ex_stream '' Node>1'' 0))"
  by (simp add: reader_defs ex_reader_defs)

lemma ex_pass_eof:
  "ReadAnyObject_pass ex_lib () () () (ex_stream ''<END>  '' 5) =
     Inr (Inr (None, (ex_stream ''<END>  '' 7)\<lparr>eofbit := True\<rparr>))"
  by (simp add: reader_defs ex_reader_defs)

section \<open>Properties\<close>

subsection \<open>No degrees of freedom\<close>

text \<open>
  C5. If \<^verbatim>\<open>NGFN\<close> is zero or negative, \<^verbatim>\<open>AssembleK\<close> and \<^verbatim>\<open>AssembleF\<close> (for
  every dimension argument) return at once: the solver is unchanged, and in particular
  no call is made on the linear system wrapper.
\<close>

theorem no_dof_assemblers_return_at_once:
  "NGFN s \<le> 0 \<Longrightarrow> AssembleK s = Inr s \<and> (\<forall>dimn. AssembleF s dimn = Inr s)"
  by (simp add: AssembleK_def AssembleF_def)

theorem no_dof_assemblers_return_at_once_witness:
  "NGFN ex_empty \<le> 0 \<and> AssembleK ex_empty = Inr ex_empty \<and> AssembleF ex_empty 0 = Inr ex_empty"
  using no_dof_assemblers_return_at_once [of ex_empty] by (simp add: ex_empty_def)

subsection \<open>The constraint collection pass\<close>

text \<open>
  C2. The first part of \<^verbatim>\<open>AssembleK\<close> goes through the load array once. The
  \<open>i\<close>-th \<^verbatim>\<open>LoadBCMFC\<close> of the array (counting from 0, in the order of the array)
  gets the index \<open>i\<close> and is otherwise unchanged, so the indices are 0, 1, ...,
  \<^verbatim>\<open>NMFC\<close> - 1 without gap or repetition; \<^verbatim>\<open>NMFC\<close> is their number; every
  other load stays as it is, at its position. The first two calls on the wrapper are
  \<^verbatim>\<open>SetSystemOrder(NGFN+NMFC)\<close> with that count and \<^verbatim>\<open>InitializeMatrix\<close>. This
  holds whether or not the assembly that follows throws.
\<close>

theorem constraint_collection:
  "0 < NGFN s \<Longrightarrow>
     (let s' = state_of (AssembleK s); mfcs = mfcs_of (load s) in
        NMFC s' = int (length mfcs) \<and>
        length (mfcs_of (load s')) = length mfcs \<and>
        (\<forall>i<length mfcs. mfcs_of (load s') ! i = (mfcs ! i)\<lparr>Index := int i\<rparr>) \<and>
        map Index (mfcs_of (load s')) = map int [0..<length mfcs] \<and>
        distinct (map Index (mfcs_of (load s'))) \<and>
        length (load s') = length (load s) \<and>
        (\<forall>i<length (load s). (\<forall>c. load s ! i \<noteq> IsLoadBCMFC c) \<longrightarrow> load s' ! i = load s ! i) \<and>
        (\<forall>i<length (load s). \<forall>c. load s ! i = IsLoadBCMFC c \<longrightarrow>
            (\<exists>m. load s' ! i = IsLoadBCMFC (c\<lparr>Index := m\<rparr>))) \<and>
        take 2 (drop (length (m_ls s)) (m_ls s')) =
          [SetSystemOrder (NGFN s + NMFC s'), InitializeMatrix])"
proof -
  assume pos: "0 < NGFN s"
  obtain cs where s': "state_of (AssembleK s) = (scanned s)\<lparr>m_ls := m_ls (scanned s) @ cs\<rparr>"
    using AssembleK_calls [OF pos] by blast
  obtain loads' m n' where scan: "mfc_scan (load s) ([], 0) = (loads', m, n')"
    by (cases "mfc_scan (load s) ([], 0)")
  have ld: "load (scanned s) = loads'" by (simp add: scanned_def scan)
  let ?mfcs = "mfcs_of (load s)"
  have idx: "map Index (renumber 0 ?mfcs) = map int [0..<length ?mfcs]"
    by (rule nth_equalityI) (simp_all add: length_renumber nth_renumber)
  have dist: "distinct (map int [0..<length ?mfcs])"
    by (simp add: distinct_map inj_on_def)
  have keep: "\<forall>i<length (load s). (\<forall>c. load s ! i \<noteq> IsLoadBCMFC c) \<longrightarrow> loads' ! i = load s ! i"
    using mfc_scan_keeps [OF scan] by blast
  have mfc: "\<forall>i<length (load s). \<forall>c. load s ! i = IsLoadBCMFC c \<longrightarrow>
            (\<exists>m. loads' ! i = IsLoadBCMFC (c\<lparr>Index := m\<rparr>))"
    using mfc_scan_mfc [OF scan] by blast
  have ren: "mfcs_of loads' = renumber 0 ?mfcs" and len: "length loads' = length (load s)"
    using mfc_scan_renumber [OF scan] mfc_scan_fst_length [OF scan] by simp_all
  show ?thesis
    unfolding Let_def s'
    using idx dist keep mfc
    by (simp add: scanned_simps length_renumber nth_renumber ld ren len)
qed

theorem constraint_collection_witness:
  "0 < NGFN ex_system \<and>
   NMFC (state_of (AssembleK ex_system)) = 2 \<and>
   map Index (mfcs_of (load ex_system)) = [5, 5] \<and>
   map Index (mfcs_of (load (state_of (AssembleK ex_system)))) = [0, 1] \<and>
   load (state_of (AssembleK ex_system)) ! 0 = IsLoadNode ex_force \<and>
   load (state_of (AssembleK ex_system)) ! 2 = IsOtherLoad \<and>
   take 2 (m_ls (state_of (AssembleK ex_system))) = [SetSystemOrder 4, InitializeMatrix]"
proof -
  have pos: "0 < NGFN ex_system" by (simp add: ex_system_def)
  have l: "load ex_system = [IsLoadNode ex_force, IsLoadBCMFC ex_mfc, IsOtherLoad, IsLoadBCMFC ex_mfc]"
    "m_ls ex_system = []" "NGFN ex_system = 2"
    by (simp_all add: ex_system_def)
  from constraint_collection [OF pos] show ?thesis
    using pos by (simp add: Let_def l ex_mfc_def upt_rec nth_Cons')
qed

subsection \<open>Element stiffness matrices\<close>

text \<open>
  C4. In the loop over the entries of an element stiffness matrix, an entry that is
  exactly zero makes no call on the wrapper, and a nonzero entry makes one call
  \<^verbatim>\<open>AddMatrixValue\<close> (the accumulating one) at the global position of its row and
  column. Over the whole of \<^verbatim>\<open>AssembleK\<close>: every \<^verbatim>\<open>AddMatrixValue\<close> call made comes
  from a nonzero entry mapped to that position; when the assembly returns, the calls
  made for the elements are exactly those of the nonzero entries, element by element
  and row by row; and the matrix entry \<open>(p, q)\<close> below \<^verbatim>\<open>NGFN\<close> then holds the sum
  of the element entries mapped to it.
\<close>

theorem zero_entries_are_skipped:
  "(int (GetDegreeOfFreedom e j) < ngfn \<and> int (GetDegreeOfFreedom e k) < ngfn \<longrightarrow>
      AssembleK_entry ngfn e j k ls =
        (if Ke e j k = 0 then Inr ls
         else Inr (ls @ [AddMatrixValue (int (GetDegreeOfFreedom e j))
                                        (int (GetDegreeOfFreedom e k)) (Ke e j k)]))) \<and>
   (0 < NGFN s \<longrightarrow>
      (\<forall>p q v. AddMatrixValue p q v \<in> set (drop (length (m_ls s)) (m_ls (state_of (AssembleK s)))) \<longrightarrow>
         (\<exists>e\<in>set (Solver.el s). \<exists>j<GetNumberOfDegreesOfFreedom e. \<exists>k<GetNumberOfDegreesOfFreedom e.
             Ke e j k = v \<and> v \<noteq> 0 \<and>
             p = int (GetDegreeOfFreedom e j) \<and> q = int (GetDegreeOfFreedom e k)))) \<and>
   (0 < NGFN s \<and> AssembleK s = Inr s' \<longrightarrow>
      m_ls s' = m_ls s @ [SetSystemOrder (NGFN s + NMFC s'), InitializeMatrix] @
                concat (map Ke_calls (Solver.el s)) @
                concat (map (mfc_calls (NGFN s)) (mfcs_of (load s')))) \<and>
   (0 < NGFN s \<and> AssembleK s = Inr s' \<and> p' < NGFN s \<and> q' < NGFN s \<longrightarrow>
      matrix (ls_run st (m_ls s')) p' q' = assembled (Solver.el s) p' q')"
proof (intro conjI impI allI)
  assume "int (GetDegreeOfFreedom e j) < ngfn \<and> int (GetDegreeOfFreedom e k) < ngfn"
  then show "AssembleK_entry ngfn e j k ls =
        (if Ke e j k = 0 then Inr ls
         else Inr (ls @ [AddMatrixValue (int (GetDegreeOfFreedom e j))
                                        (int (GetDegreeOfFreedom e k)) (Ke e j k)]))"
    by (simp add: AssembleK_entry_def)
next
  fix p q v
  assume pos: "0 < NGFN s"
    and mem: "AddMatrixValue p q v \<in> set (drop (length (m_ls s)) (m_ls (state_of (AssembleK s))))"
  from AssembleK_calls [OF pos] obtain cs where
    s': "state_of (AssembleK s) = (scanned s)\<lparr>m_ls := m_ls (scanned s) @ cs\<rparr>" and
    cs: "\<forall>c\<in>set cs. (\<exists>e\<in>set (Solver.el s). element_call (NGFN s) e c) \<or>
                      (\<exists>cc\<in>set (mfcs_of (load (scanned s))). constraint_call (NGFN s) cc c)"
    by blast
  from mem have "AddMatrixValue p q v \<in> set cs"
    by (simp add: s' scanned_simps)
  with cs have "\<exists>e\<in>set (Solver.el s). element_call (NGFN s) e (AddMatrixValue p q v)"
    by (auto simp: constraint_call_def)
  then show "\<exists>e\<in>set (Solver.el s). \<exists>j<GetNumberOfDegreesOfFreedom e. \<exists>k<GetNumberOfDegreesOfFreedom e.
             Ke e j k = v \<and> v \<noteq> 0 \<and>
             p = int (GetDegreeOfFreedom e j) \<and> q = int (GetDegreeOfFreedom e k)"
    by (auto simp: element_call_def)
next
  assume a: "0 < NGFN s \<and> AssembleK s = Inr s'"
  then have pos: "0 < NGFN s" and ok: "AssembleK s = Inr s'" by simp_all
  from AssembleK_Inr_legal [OF pos ok] AssembleK_legal [OF pos] ok
  have "s' = (scanned s)\<lparr>m_ls := m_ls (scanned s) @ concat (map Ke_calls (Solver.el s)) @
                  concat (map (mfc_calls (NGFN s)) (mfcs_of (load (scanned s))))\<rparr>"
    by simp
  then show "m_ls s' = m_ls s @ [SetSystemOrder (NGFN s + NMFC s'), InitializeMatrix] @
                concat (map Ke_calls (Solver.el s)) @
                concat (map (mfc_calls (NGFN s)) (mfcs_of (load s')))"
    by (simp add: scanned_simps)
next
  assume "0 < NGFN s \<and> AssembleK s = Inr s' \<and> p' < NGFN s \<and> q' < NGFN s"
  then show "matrix (ls_run st (m_ls s')) p' q' = assembled (Solver.el s) p' q'"
    by (simp add: assembled_matrix)
qed

theorem zero_entries_are_skipped_witness:
  "AssembleK_entry 2 ex_spring 0 1 [] = Inr [] \<and>
   AssembleK_entry 2 ex_spring 1 1 [] = Inr [AddMatrixValue 1 1 2] \<and>
   0 < NGFN ex_sparse \<and>
   AssembleK ex_sparse =
     Inr (ex_sparse\<lparr>m_ls := [SetSystemOrder 2, InitializeMatrix,
                              AddMatrixValue 0 0 2, AddMatrixValue 1 1 2]\<rparr>) \<and>
   AddMatrixValue 1 1 2 \<in> set (drop (length (m_ls ex_sparse)) (m_ls (state_of (AssembleK ex_sparse)))) \<and>
   matrix (ls_run ex_st [SetSystemOrder 2, InitializeMatrix,
                          AddMatrixValue 0 0 2, AddMatrixValue 1 1 2]) 1 1 = 2 \<and>
   matrix (ls_run ex_st [SetSystemOrder 2, InitializeMatrix,
                          AddMatrixValue 0 0 2, AddMatrixValue 1 1 2]) 0 1 = 0"
proof -
  let ?s' = "ex_sparse\<lparr>m_ls := [SetSystemOrder 2, InitializeMatrix,
                              AddMatrixValue 0 0 2, AddMatrixValue 1 1 2]\<rparr>"
  have dofs: "int (GetDegreeOfFreedom ex_spring 0) < 2 \<and> int (GetDegreeOfFreedom ex_spring 1) < 2"
    "int (GetDegreeOfFreedom ex_spring 1) < 2 \<and> int (GetDegreeOfFreedom ex_spring 1) < 2"
    by (simp_all add: ex_spring_def ex_bar_def)
  have ke: "Ke ex_spring 0 1 = 0" "Ke ex_spring 1 1 = 2" "GetDegreeOfFreedom ex_spring 1 = 1"
    by (simp_all add: ex_spring_def ex_bar_def)
  have pos: "0 < NGFN ex_sparse" "NGFN ex_sparse = 2" "m_ls ex_sparse = []"
    "Solver.el ex_sparse = [ex_spring]"
    by (simp_all add: ex_sparse_def)
  have asm: "assembled [ex_spring] 1 1 = 2" "assembled [ex_spring] 0 1 = 0"
    by (simp_all add: assembled_def ex_spring_def ex_bar_def upt_rec)
  note t1 = zero_entries_are_skipped [of ex_spring 0 2 1 "[]" ex_sparse ?s' 1 1 ex_st]
  note t2 = zero_entries_are_skipped [of ex_spring 1 2 1 "[]" ex_sparse ?s' 0 1 ex_st]
  have c1: "AssembleK_entry 2 ex_spring 0 1 [] = Inr []"
    using t1 [THEN conjunct1] dofs ke by simp
  have c2: "AssembleK_entry 2 ex_spring 1 1 [] = Inr [AddMatrixValue 1 1 2]"
    using t2 [THEN conjunct1] dofs ke by simp
  have c3: "matrix (ls_run ex_st (m_ls ?s')) 1 1 = 2"
    using t1 [THEN conjunct2, THEN conjunct2, THEN conjunct2] pos AssembleK_ex_sparse asm
    by simp
  have c4: "matrix (ls_run ex_st (m_ls ?s')) 0 1 = 0"
    using t2 [THEN conjunct2, THEN conjunct2, THEN conjunct2] pos AssembleK_ex_sparse asm
    by simp
  have c5: "AddMatrixValue 1 1 2 \<in>
      set (drop (length (m_ls ex_sparse)) (m_ls (state_of (AssembleK ex_sparse))))"
    by (simp add: AssembleK_ex_sparse pos)
  show ?thesis
    using c1 c2 c3 c4 c5 pos(1) AssembleK_ex_sparse by simp
qed

subsection \<open>Global freedom numbers out of range in AssembleK\<close>

text \<open>
  C1. In \<^verbatim>\<open>AssembleK\<close>, the check made for an entry \<open>(j, k)\<close> of an element and the
  check made for a constraint term throw \<^verbatim>\<open>FEMExceptionSolution\<close> (Illegal GFN) when
  a global freedom number is \<^verbatim>\<open>NGFN\<close> or more, and no call is made on the wrapper
  at that point. A pass (with \<^verbatim>\<open>NGFN\<close> positive) over a system in which an element
  or a constraint term has such a number ends with that exception. The wrapper keeps
  the calls made before: the sizing and the initialisation, the entries of the elements
  before the failing one and the entries of the failing element before its first
  illegal pair (which is in row 0); for a failing constraint term, the entries of all
  elements, the terms of the constraints before and the terms before the failing one.
  Nothing is called for the failing entry or term, and nothing after it.
\<close>

theorem illegal_GFN_aborts_AssembleK:
  "(ngfn \<le> int (GetDegreeOfFreedom e j) \<or> ngfn \<le> int (GetDegreeOfFreedom e k) \<longrightarrow>
      AssembleK_entry ngfn e j k ls =
        Inl (FEMExceptionSolution ''Solver::AssembleK()'' ''Illegal GFN!'', ls)) \<and>
   (ngfn \<le> int (GFN_of q) \<longrightarrow>
      AssembleK_term ngfn c q ls =
        Inl (FEMExceptionSolution ''Solver::AssembleK()'' ''Illegal GFN!'', ls)) \<and>
   (0 < NGFN s \<and>
    ((\<exists>e\<in>set (Solver.el s). \<exists>j<GetNumberOfDegreesOfFreedom e. NGFN s \<le> int (GetDegreeOfFreedom e j)) \<or>
     (\<exists>c\<in>set (mfcs_of (load s)). \<exists>q\<in>set (lhs c). NGFN s \<le> int (GFN_of q))) \<longrightarrow>
      (\<exists>s'. AssembleK s = Inl (FEMExceptionSolution ''Solver::AssembleK()'' ''Illegal GFN!'', s'))) \<and>
   (0 < NGFN s \<and> Solver.el s = es1 @ e1 # es2 \<and> (\<forall>e'\<in>set es1. legal_element (NGFN s) e') \<and>
    k0 < GetNumberOfDegreesOfFreedom e1 \<and> NGFN s \<le> int (GetDegreeOfFreedom e1 k0) \<and>
    (\<forall>k<k0. int (GetDegreeOfFreedom e1 k) < NGFN s) \<longrightarrow>
      AssembleK s =
        Inl (FEMExceptionSolution ''Solver::AssembleK()'' ''Illegal GFN!'',
             (scanned s)\<lparr>m_ls := m_ls (scanned s) @ concat (map Ke_calls es1) @
                                  concat (map (Ke_call e1 0) [0..<k0])\<rparr>)) \<and>
   (0 < NGFN s \<and> (\<forall>e\<in>set (Solver.el s). legal_element (NGFN s) e) \<and>
    mfcs_of (load (scanned s)) = ms1 @ c1 # ms2 \<and> (\<forall>c'\<in>set ms1. legal_mfc (NGFN s) c') \<and>
    lhs c1 = qs1 @ q1 # qs2 \<and> (\<forall>q'\<in>set qs1. int (GFN_of q') < NGFN s) \<and>
    NGFN s \<le> int (GFN_of q1) \<longrightarrow>
      AssembleK s =
        Inl (FEMExceptionSolution ''Solver::AssembleK()'' ''Illegal GFN!'',
             (scanned s)\<lparr>m_ls := m_ls (scanned s) @ concat (map Ke_calls (Solver.el s)) @
                concat (map (mfc_calls (NGFN s)) ms1) @
                concat (map (term_calls (NGFN s) (Index c1)) qs1)\<rparr>))"
proof (intro conjI impI)
  assume "ngfn \<le> int (GetDegreeOfFreedom e j) \<or> ngfn \<le> int (GetDegreeOfFreedom e k)"
  then show "AssembleK_entry ngfn e j k ls =
        Inl (FEMExceptionSolution ''Solver::AssembleK()'' ''Illegal GFN!'', ls)"
    by (rule AssembleK_entry_illegal)
next
  assume "ngfn \<le> int (GFN_of q)"
  then show "AssembleK_term ngfn c q ls =
        Inl (FEMExceptionSolution ''Solver::AssembleK()'' ''Illegal GFN!'', ls)"
    by (rule AssembleK_term_illegal)
next
  assume a: "0 < NGFN s \<and>
    ((\<exists>e\<in>set (Solver.el s). \<exists>j<GetNumberOfDegreesOfFreedom e. NGFN s \<le> int (GetDegreeOfFreedom e j)) \<or>
     (\<exists>c\<in>set (mfcs_of (load s)). \<exists>q\<in>set (lhs c). NGFN s \<le> int (GFN_of q)))"
  then have "(\<exists>e\<in>set (Solver.el s). \<not> legal_element (NGFN s) e) \<or>
             (\<exists>c\<in>set (mfcs_of (load s)). \<not> legal_mfc (NGFN s) c)"
    by (auto simp: legal_element_def legal_mfc_def list_all_iff not_less)
  with a show "\<exists>s'. AssembleK s = Inl (FEMExceptionSolution ''Solver::AssembleK()'' ''Illegal GFN!'', s')"
    by (intro AssembleK_illegal_raises) simp_all
next
  assume "0 < NGFN s \<and> Solver.el s = es1 @ e1 # es2 \<and> (\<forall>e'\<in>set es1. legal_element (NGFN s) e') \<and>
    k0 < GetNumberOfDegreesOfFreedom e1 \<and> NGFN s \<le> int (GetDegreeOfFreedom e1 k0) \<and>
    (\<forall>k<k0. int (GetDegreeOfFreedom e1 k) < NGFN s)"
  then show "AssembleK s =
        Inl (FEMExceptionSolution ''Solver::AssembleK()'' ''Illegal GFN!'',
             (scanned s)\<lparr>m_ls := m_ls (scanned s) @ concat (map Ke_calls es1) @
                                  concat (map (Ke_call e1 0) [0..<k0])\<rparr>)"
    by (intro AssembleK_element_failure) simp_all
next
  assume "0 < NGFN s \<and> (\<forall>e\<in>set (Solver.el s). legal_element (NGFN s) e) \<and>
    mfcs_of (load (scanned s)) = ms1 @ c1 # ms2 \<and> (\<forall>c'\<in>set ms1. legal_mfc (NGFN s) c') \<and>
    lhs c1 = qs1 @ q1 # qs2 \<and> (\<forall>q'\<in>set qs1. int (GFN_of q') < NGFN s) \<and>
    NGFN s \<le> int (GFN_of q1)"
  then show "AssembleK s =
        Inl (FEMExceptionSolution ''Solver::AssembleK()'' ''Illegal GFN!'',
             (scanned s)\<lparr>m_ls := m_ls (scanned s) @ concat (map Ke_calls (Solver.el s)) @
                concat (map (mfc_calls (NGFN s)) ms1) @
                concat (map (term_calls (NGFN s) (Index c1)) qs1)\<rparr>)"
    by (intro AssembleK_term_failure [where ?ms2.0 = ms2 and ?qs2.0 = qs2 and q = q1]) simp_all
qed

theorem illegal_GFN_aborts_AssembleK_witness:
  "AssembleK_entry 1 ex_bar 0 1 [InitializeMatrix] =
     Inl (FEMExceptionSolution ''Solver::AssembleK()'' ''Illegal GFN!'', [InitializeMatrix]) \<and>
   AssembleK_term 2 ex_bad_mfc \<lparr>MFCTerm.m_element = ex_bar, dof = 9, term_value = 3\<rparr> [InitializeMatrix] =
     Inl (FEMExceptionSolution ''Solver::AssembleK()'' ''Illegal GFN!'', [InitializeMatrix]) \<and>
   0 < NGFN ex_short \<and> m_ls ex_short = [] \<and>
   AssembleK ex_short =
     Inl (FEMExceptionSolution ''Solver::AssembleK()'' ''Illegal GFN!'',
          (scanned ex_short)\<lparr>m_ls := [SetSystemOrder 3, InitializeMatrix, AddMatrixValue 0 0 1]\<rparr>) \<and>
   0 < NGFN ex_bad_system \<and> m_ls ex_bad_system = [] \<and>
   AssembleK ex_bad_system =
     Inl (FEMExceptionSolution ''Solver::AssembleK()'' ''Illegal GFN!'',
          (scanned ex_bad_system)\<lparr>m_ls := [SetSystemOrder 4, InitializeMatrix,
             AddMatrixValue 0 0 1, AddMatrixValue 0 1 (- 1), AddMatrixValue 1 0 (- 1),
             AddMatrixValue 1 1 1,
             SetMatrixValue 0 2 1, SetMatrixValue 2 0 1,
             SetMatrixValue 1 3 2, SetMatrixValue 3 1 2]\<rparr>)"
proof -
  let ?q = "\<lparr>MFCTerm.m_element = ex_bar, dof = 9, term_value = 3\<rparr> :: unit MFCTerm"
  let ?qa = "\<lparr>MFCTerm.m_element = ex_bar, dof = 1, term_value = 2\<rparr> :: unit MFCTerm"
  note t1 = illegal_GFN_aborts_AssembleK [where ngfn = 1 and e = ex_bar and j = 0 and k = 1
      and ls = "[InitializeMatrix]" and s = ex_short and ?es1.0 = "[]" and ?e1.0 = ex_bar
      and ?es2.0 = "[]" and ?k0.0 = 1]
  note t2 = illegal_GFN_aborts_AssembleK [where ngfn = 2 and q = ?q and c = ex_bad_mfc
      and ls = "[InitializeMatrix]" and s = ex_bad_system
      and ?ms1.0 = "[ex_mfc\<lparr>Index := 0\<rparr>]" and ?c1.0 = "ex_bad_mfc\<lparr>Index := 1\<rparr>"
      and ?ms2.0 = "[]" and ?qs1.0 = "[?qa]" and ?q1.0 = ?q and ?qs2.0 = "[]"]
  have bar: "GetDegreeOfFreedom ex_bar 0 = 0" "GetDegreeOfFreedom ex_bar 1 = 1"
    "GetNumberOfDegreesOfFreedom ex_bar = 2" "Ke ex_bar 0 0 = 1" "Ke ex_bar 0 1 = - 1"
    "Ke ex_bar 1 0 = - 1" "Ke ex_bar 1 1 = 1"
    by (simp_all add: ex_bar_def)
  have gfn: "GFN_of ?q = 9" "GFN_of ?qa = 1"
    by (simp_all add: GFN_of_def ex_bar_def)
  have c1: "AssembleK_entry 1 ex_bar 0 1 [InitializeMatrix] =
     Inl (FEMExceptionSolution ''Solver::AssembleK()'' ''Illegal GFN!'', [InitializeMatrix])"
    using t1 [THEN conjunct1] bar by simp
  have c2: "AssembleK_term 2 ex_bad_mfc ?q [InitializeMatrix] =
     Inl (FEMExceptionSolution ''Solver::AssembleK()'' ''Illegal GFN!'', [InitializeMatrix])"
    using t2 [THEN conjunct2, THEN conjunct1] gfn by simp
  have short: "0 < NGFN ex_short" "NGFN ex_short = 1" "Solver.el ex_short = [ex_bar]"
    "m_ls ex_short = []"
    by (simp_all add: ex_short_def ex_system_def)
  have c3: "AssembleK ex_short =
     Inl (FEMExceptionSolution ''Solver::AssembleK()'' ''Illegal GFN!'',
          (scanned ex_short)\<lparr>m_ls := m_ls (scanned ex_short) @ concat (map Ke_calls []) @
             concat (map (Ke_call ex_bar 0) [0..<1])\<rparr>)"
    using t1 [THEN conjunct2, THEN conjunct2, THEN conjunct2, THEN conjunct1] short bar
    by simp
  have bad: "0 < NGFN ex_bad_system" "NGFN ex_bad_system = 2" "Solver.el ex_bad_system = [ex_bar]"
    "m_ls ex_bad_system = []"
    by (simp_all add: ex_bad_system_def ex_system_def)
  have legal: "legal_element 2 ex_bar" "legal_mfc 2 ex_mfc"
    by (simp_all add: legal_element_def legal_mfc_def ex_bar_def ex_mfc_def GFN_of_def upt_rec)
  have c4: "AssembleK ex_bad_system =
     Inl (FEMExceptionSolution ''Solver::AssembleK()'' ''Illegal GFN!'',
          (scanned ex_bad_system)\<lparr>m_ls := m_ls (scanned ex_bad_system) @
             concat (map Ke_calls (Solver.el ex_bad_system)) @
             concat (map (mfc_calls (NGFN ex_bad_system)) [ex_mfc\<lparr>Index := 0\<rparr>]) @
             concat (map (term_calls (NGFN ex_bad_system) (Index (ex_bad_mfc\<lparr>Index := 1\<rparr>))) [?qa])\<rparr>)"
    using t2 [THEN conjunct2, THEN conjunct2, THEN conjunct2, THEN conjunct2] bad legal gfn
    by (simp add: scanned_ex_bad_system ex_bad_mfc_def)
  show ?thesis
    using c1 c2 c3 c4 short(1,4) bad(1,4)
    by (simp add: scanned_ex_short scanned_ex_bad_system Ke_calls_def Ke_call_def upt_rec
        mfc_calls_def term_calls_def ex_mfc_def ex_bad_mfc_def ex_bar_def GFN_of_def bad)
qed

subsection \<open>Constraint terms in the stiffness matrix\<close>

text \<open>
  C3. For a term with coefficient \<open>c\<close> of the constraint with index \<open>m\<close>, whose global
  freedom number \<open>d\<close> is below \<^verbatim>\<open>NGFN\<close>, \<^verbatim>\<open>AssembleK\<close> calls
  \<^verbatim>\<open>SetMatrixValue\<close> (the overwriting call, not the accumulating one) at
  \<open>(d, NGFN + m)\<close> and at \<open>(NGFN + m, d)\<close>, both with \<open>c\<close>. After a pass that returns,
  this has been done for every term of every constraint (the \<open>i\<close>-th constraint of the
  load array has \<open>m = i\<close>), and the two matrix entries are equal; they are equal to \<open>c\<close>
  when no later term of the same constraint has the same freedom number. No call,
  accumulating or overwriting, is ever made at a position whose row and column are both
  \<^verbatim>\<open>NGFN\<close> or more, so the entries \<open>(NGFN + m, NGFN + m)\<close> stay zero.
\<close>

theorem constraint_terms_are_placed_symmetrically:
  "(int (GFN_of q) < ngfn \<longrightarrow>
      AssembleK_term ngfn c q ls =
        Inr (ls @ [SetMatrixValue (int (GFN_of q)) (ngfn + Index c) (term_value q),
                   SetMatrixValue (ngfn + Index c) (int (GFN_of q)) (term_value q)])) \<and>
   (0 < NGFN s \<and> AssembleK s = Inr s' \<and> i < length (mfcs_of (load s)) \<and>
    q1 \<in> set (lhs (mfcs_of (load s) ! i)) \<longrightarrow>
      Index (mfcs_of (load s') ! i) = int i \<and>
      SetMatrixValue (int (GFN_of q1)) (NGFN s + int i) (term_value q1)
        \<in> set (drop (length (m_ls s)) (m_ls s')) \<and>
      SetMatrixValue (NGFN s + int i) (int (GFN_of q1)) (term_value q1)
        \<in> set (drop (length (m_ls s)) (m_ls s')) \<and>
      matrix (ls_run st (m_ls s')) (int (GFN_of q1)) (NGFN s + int i) =
      matrix (ls_run st (m_ls s')) (NGFN s + int i) (int (GFN_of q1))) \<and>
   (0 < NGFN s \<and> AssembleK s = Inr s' \<and> i < length (mfcs_of (load s)) \<and>
    lhs (mfcs_of (load s) ! i) = qs1 @ q2 # qs2 \<and> (\<forall>q'\<in>set qs2. GFN_of q' \<noteq> GFN_of q2) \<longrightarrow>
      matrix (ls_run st (m_ls s')) (int (GFN_of q2)) (NGFN s + int i) = term_value q2 \<and>
      matrix (ls_run st (m_ls s')) (NGFN s + int i) (int (GFN_of q2)) = term_value q2) \<and>
   (0 < NGFN s \<and> NGFN s \<le> a \<and> NGFN s \<le> b \<longrightarrow>
      (\<forall>v. AddMatrixValue a b v \<notin> set (drop (length (m_ls s)) (m_ls (state_of (AssembleK s)))) \<and>
           SetMatrixValue a b v \<notin> set (drop (length (m_ls s)) (m_ls (state_of (AssembleK s))))) \<and>
      matrix (ls_run st (m_ls (state_of (AssembleK s)))) a b = 0)"
proof (intro conjI impI)
  assume "int (GFN_of q) < ngfn"
  then show "AssembleK_term ngfn c q ls =
        Inr (ls @ [SetMatrixValue (int (GFN_of q)) (ngfn + Index c) (term_value q),
                   SetMatrixValue (ngfn + Index c) (int (GFN_of q)) (term_value q)])"
    by (simp add: AssembleK_term_legal term_calls_def)
next
  assume a: "0 < NGFN s \<and> AssembleK s = Inr s' \<and> i < length (mfcs_of (load s)) \<and>
    q1 \<in> set (lhs (mfcs_of (load s) ! i))"
  then have pos: "0 < NGFN s" and ok: "AssembleK s = Inr s'"
    and i: "i < length (mfcs_of (load s))" and q1: "q1 \<in> set (lhs (mfcs_of (load s) ! i))"
    by simp_all
  note log = AssembleK_success_log [OF pos ok]
  show "Index (mfcs_of (load s') ! i) = int i"
    using i by (simp add: log scanned_simps nth_renumber)
  have new: "drop (length (m_ls s)) (m_ls s') =
    [SetSystemOrder (NGFN s + int (length (mfcs_of (load s)))), InitializeMatrix] @
    concat (map Ke_calls (Solver.el s)) @
    concat (map (mfc_calls (NGFN s)) (renumber 0 (mfcs_of (load s))))"
    by (simp add: log scanned_simps)
  from term_calls_in_log [OF i q1, of "NGFN s"]
  have sub: "set (term_calls (NGFN s) (int i) q1) \<subseteq> set (drop (length (m_ls s)) (m_ls s'))"
    unfolding new by auto
  from sub show "SetMatrixValue (int (GFN_of q1)) (NGFN s + int i) (term_value q1)
        \<in> set (drop (length (m_ls s)) (m_ls s'))"
    by (simp add: term_calls_def)
  from sub show "SetMatrixValue (NGFN s + int i) (int (GFN_of q1)) (term_value q1)
        \<in> set (drop (length (m_ls s)) (m_ls s'))"
    by (simp add: term_calls_def)
  from i have "mfcs_of (load s) ! i \<in> set (mfcs_of (load s))" by simp
  with AssembleK_Inr_legal [OF pos ok] have "legal_mfc (NGFN s) (mfcs_of (load s) ! i)" by blast
  with q1 have d: "int (GFN_of q1) < NGFN s" by (simp add: legal_mfc_def list_all_iff)
  have r: "NGFN s \<le> NGFN s + int i" by simp
  from AssembleK_symmetric_border [OF pos ok, of st, unfolded symmetric_border_def] d r
  show "matrix (ls_run st (m_ls s')) (int (GFN_of q1)) (NGFN s + int i) =
      matrix (ls_run st (m_ls s')) (NGFN s + int i) (int (GFN_of q1))"
    by blast
next
  assume a: "0 < NGFN s \<and> AssembleK s = Inr s' \<and> i < length (mfcs_of (load s)) \<and>
    lhs (mfcs_of (load s) ! i) = qs1 @ q2 # qs2 \<and> (\<forall>q'\<in>set qs2. GFN_of q' \<noteq> GFN_of q2)"
  then have pos: "0 < NGFN s" and ok: "AssembleK s = Inr s'"
    and i: "i < length (mfcs_of (load s))" and lhs: "lhs (mfcs_of (load s) ! i) = qs1 @ q2 # qs2"
    and later: "\<forall>q'\<in>set qs2. GFN_of q' \<noteq> GFN_of q2"
    by simp_all
  have v: "matrix (ls_run st (m_ls s')) (int (GFN_of q2)) (NGFN s + int i) = term_value q2"
    using pos ok i lhs later by (rule AssembleK_border_value)
  from i have "mfcs_of (load s) ! i \<in> set (mfcs_of (load s))" by simp
  with AssembleK_Inr_legal [OF pos ok] have "legal_mfc (NGFN s) (mfcs_of (load s) ! i)" by blast
  with lhs have d: "int (GFN_of q2) < NGFN s" by (simp add: legal_mfc_def list_all_iff)
  have r: "NGFN s \<le> NGFN s + int i" by simp
  from AssembleK_symmetric_border [OF pos ok, of st, unfolded symmetric_border_def] d r
  have "matrix (ls_run st (m_ls s')) (int (GFN_of q2)) (NGFN s + int i) =
      matrix (ls_run st (m_ls s')) (NGFN s + int i) (int (GFN_of q2))"
    by blast
  with v show "matrix (ls_run st (m_ls s')) (int (GFN_of q2)) (NGFN s + int i) = term_value q2"
    and "matrix (ls_run st (m_ls s')) (NGFN s + int i) (int (GFN_of q2)) = term_value q2"
    by simp_all
next
  assume "0 < NGFN s \<and> NGFN s \<le> a \<and> NGFN s \<le> b"
  then have pos: "0 < NGFN s" and a: "NGFN s \<le> a" and b: "NGFN s \<le> b" by simp_all
  from AssembleK_block_untouched [OF pos a b] obtain cs where
    log: "m_ls (state_of (AssembleK s)) =
            m_ls s @ [SetSystemOrder (NGFN s + int (length (mfcs_of (load s)))), InitializeMatrix] @ cs"
    and cs: "\<forall>c\<in>set cs. \<not> writes_entry c a b"
    by blast
  from cs have "AddMatrixValue a b v \<notin> set cs \<and> SetMatrixValue a b v \<notin> set cs" for v
    by (metis writes_entry.simps(2,3))
  then show "\<forall>v. AddMatrixValue a b v \<notin> set (drop (length (m_ls s)) (m_ls (state_of (AssembleK s)))) \<and>
           SetMatrixValue a b v \<notin> set (drop (length (m_ls s)) (m_ls (state_of (AssembleK s))))"
    by (simp add: log)
  show "matrix (ls_run st (m_ls (state_of (AssembleK s)))) a b = 0"
  proof -
    let ?P = "m_ls s @ [SetSystemOrder (NGFN s + int (length (mfcs_of (load s)))), InitializeMatrix]"
    have "m_ls (state_of (AssembleK s)) = ?P @ cs" by (simp add: log)
    then have "matrix (ls_run st (m_ls (state_of (AssembleK s)))) a b = matrix (ls_run (ls_run st ?P) cs) a b"
      by (simp only: ls_run_append)
    also have "\<dots> = matrix (ls_run st ?P) a b"
      using cs by (rule ls_run_untouched)
    also have "\<dots> = 0"
      by (simp add: ls_run_append ls_run_Cons)
    finally show ?thesis .
  qed
qed

theorem constraint_terms_are_placed_symmetrically_witness:
  "AssembleK_term 2 (ex_tie\<lparr>Index := 1\<rparr>) \<lparr>MFCTerm.m_element = ex_bar, dof = 1, term_value = - 1\<rparr> [] =
     Inr [SetMatrixValue 1 3 (- 1), SetMatrixValue 3 1 (- 1)] \<and>
   0 < NGFN ex_tied \<and>
   AssembleK ex_tied =
     Inr (ex_tied\<lparr>load := [IsLoadBCMFC (ex_mfc\<lparr>Index := 0\<rparr>), IsLoadBCMFC (ex_tie\<lparr>Index := 1\<rparr>)],
                  NMFC := 2, m_ls := ex_tied_calls\<rparr>) \<and>
   SetMatrixValue 1 3 (- 1) \<in> set ex_tied_calls \<and>
   SetMatrixValue 3 1 (- 1) \<in> set ex_tied_calls \<and>
   matrix (ls_run ex_st ex_tied_calls) 1 3 = - 1 \<and>
   matrix (ls_run ex_st ex_tied_calls) 3 1 = - 1 \<and>
   SetMatrixValue 3 3 5 \<notin> set ex_tied_calls \<and>
   matrix (ls_run ex_st ex_tied_calls) 3 3 = 0"
proof -
  let ?q = "\<lparr>MFCTerm.m_element = ex_bar, dof = 1, term_value = - 1\<rparr> :: unit MFCTerm"
  let ?qa = "\<lparr>MFCTerm.m_element = ex_bar, dof = 0, term_value = 1\<rparr> :: unit MFCTerm"
  let ?s' = "ex_tied\<lparr>load := [IsLoadBCMFC (ex_mfc\<lparr>Index := 0\<rparr>), IsLoadBCMFC (ex_tie\<lparr>Index := 1\<rparr>)],
                  NMFC := 2, m_ls := ex_tied_calls\<rparr>"
  note t = constraint_terms_are_placed_symmetrically [where q = ?q and ngfn = 2
      and c = "ex_tie\<lparr>Index := 1\<rparr>" and ls = "[]" and s = ex_tied and s' = ?s' and i = 1
      and ?q1.0 = ?q and st = ex_st and ?qs1.0 = "[?qa]" and ?q2.0 = ?q and ?qs2.0 = "[]"
      and a = 3 and b = 3]
  have gfn: "GFN_of ?q = 1" by (simp add: GFN_of_def ex_bar_def)
  have tied: "0 < NGFN ex_tied" "NGFN ex_tied = 2" "m_ls ex_tied = []"
    "mfcs_of (load ex_tied) = [ex_mfc, ex_tie]"
    by (simp_all add: ex_tied_def ex_system_def)
  have lhs: "lhs ex_tie = [?qa, ?q]" by (simp add: ex_tie_def)
  have c1: "AssembleK_term 2 (ex_tie\<lparr>Index := 1\<rparr>) ?q [] =
     Inr [SetMatrixValue 1 3 (- 1), SetMatrixValue 3 1 (- 1)]"
    using t [THEN conjunct1] gfn by simp
  have c2: "SetMatrixValue 1 3 (- 1) \<in> set ex_tied_calls \<and>
            SetMatrixValue 3 1 (- 1) \<in> set ex_tied_calls"
    using t [THEN conjunct2, THEN conjunct1] tied lhs gfn AssembleK_ex_tied by simp
  have c3: "matrix (ls_run ex_st ex_tied_calls) 1 3 = - 1 \<and>
            matrix (ls_run ex_st ex_tied_calls) 3 1 = - 1"
    using t [THEN conjunct2, THEN conjunct2, THEN conjunct1] tied lhs gfn AssembleK_ex_tied
    by simp
  have c4: "SetMatrixValue 3 3 5 \<notin> set ex_tied_calls \<and>
            matrix (ls_run ex_st ex_tied_calls) 3 3 = 0"
    using t [THEN conjunct2, THEN conjunct2, THEN conjunct2] tied AssembleK_ex_tied
    by simp
  show ?thesis
    using c1 c2 c3 c4 tied(1) AssembleK_ex_tied by simp
qed

subsection \<open>Constraints in the force vector\<close>

text \<open>
  C6. For a load that is a \<^verbatim>\<open>LoadBCMFC\<close> with index \<open>m\<close>, whose right-hand side has
  a component for the dimension \<open>dimn\<close>, \<^verbatim>\<open>AssembleF\<close> calls \<^verbatim>\<open>SetVectorValue\<close>
  (the overwriting call, not the accumulating one) at \<open>NGFN + m\<close> with that component;
  the entry then holds it whatever it held before, and the loop goes on with the next
  load. After a pass that returns this has been done for every constraint of the load
  array, and the entry still holds the component at the end when the index is not
  negative and no later constraint has the same index (as after \<^verbatim>\<open>AssembleK\<close>).
\<close>

theorem constraint_sets_force_entry:
  "(vec_at (rhs l1) dimn = Some v \<longrightarrow>
      AssembleF_LoadBCMFC ngfn dimn l1 ls = Inr (ls @ [SetVectorValue (ngfn + Index l1) v]) \<and>
      for_each (AssembleF_load ngfn dimn els) (IsLoadBCMFC l1 # rest) ls =
        for_each (AssembleF_load ngfn dimn els) rest (ls @ [SetVectorValue (ngfn + Index l1) v]) \<and>
      vector (ls_run st (ls @ [SetVectorValue (ngfn + Index l1) v])) (ngfn + Index l1) = v) \<and>
   (0 < NGFN s \<and> AssembleF s dimn = Inr s' \<and> load s = pre @ IsLoadBCMFC l2 # post \<longrightarrow>
      (\<exists>w. vec_at (rhs l2) dimn = Some w \<and>
           SetVectorValue (NGFN s + Index l2) w \<in> set (drop (length (m_ls s)) (m_ls s')))) \<and>
   (0 < NGFN s \<and> AssembleF s dimn = Inr s' \<and> load s = pre @ IsLoadBCMFC l2 # post \<and>
    0 \<le> Index l2 \<and> (\<forall>c\<in>set (mfcs_of post). Index c \<noteq> Index l2) \<longrightarrow>
      vec_at (rhs l2) dimn = Some (vector (ls_run st (m_ls s')) (NGFN s + Index l2)))"
proof (intro conjI impI)
  assume v: "vec_at (rhs l1) dimn = Some v"
  then show 1: "AssembleF_LoadBCMFC ngfn dimn l1 ls = Inr (ls @ [SetVectorValue (ngfn + Index l1) v])"
    by (simp add: AssembleF_LoadBCMFC_def)
  then show "for_each (AssembleF_load ngfn dimn els) (IsLoadBCMFC l1 # rest) ls =
        for_each (AssembleF_load ngfn dimn els) rest (ls @ [SetVectorValue (ngfn + Index l1) v])"
    by simp
  show "vector (ls_run st (ls @ [SetVectorValue (ngfn + Index l1) v])) (ngfn + Index l1) = v"
    by (rule vector_after_Set)
next
  assume "0 < NGFN s \<and> AssembleF s dimn = Inr s' \<and> load s = pre @ IsLoadBCMFC l2 # post"
  then have pos: "0 < NGFN s" and ok: "AssembleF s dimn = Inr s'"
    and ld: "load s = pre @ IsLoadBCMFC l2 # post" by simp_all
  from pos ok ld obtain w l1' cs where w: "vec_at (rhs l2) dimn = Some w"
    and log: "m_ls s' = l1' @ [SetVectorValue (NGFN s + Index l2) w] @ cs"
    and len: "length (m_ls s) < length l1'"
    by (rule AssembleF_mfc_call)
  from log len have "SetVectorValue (NGFN s + Index l2) w \<in> set (drop (length (m_ls s)) (m_ls s'))"
    by simp
  with w show "\<exists>w. vec_at (rhs l2) dimn = Some w \<and>
           SetVectorValue (NGFN s + Index l2) w \<in> set (drop (length (m_ls s)) (m_ls s'))"
    by blast
next
  assume "0 < NGFN s \<and> AssembleF s dimn = Inr s' \<and> load s = pre @ IsLoadBCMFC l2 # post \<and>
    0 \<le> Index l2 \<and> (\<forall>c\<in>set (mfcs_of post). Index c \<noteq> Index l2)"
  then have pos: "0 < NGFN s" and ok: "AssembleF s dimn = Inr s'"
    and ld: "load s = pre @ IsLoadBCMFC l2 # post" and m: "0 \<le> Index l2"
    and others: "\<forall>c\<in>set (mfcs_of post). Index c \<noteq> Index l2" by simp_all
  from pos ok ld obtain w l1' cs where w: "vec_at (rhs l2) dimn = Some w"
    and log: "m_ls s' = l1' @ [SetVectorValue (NGFN s + Index l2) w] @ cs"
    and cs: "\<forall>c\<in>set cs. \<exists>l\<in>set post. force_call (NGFN s) l c"
    by (rule AssembleF_mfc_call)
  have "\<not> writes_vector c (NGFN s + Index l2)" if "c \<in> set cs" for c
  proof -
    from cs that obtain l where l: "l \<in> set post" "force_call (NGFN s) l c" by blast
    show ?thesis
      using l(2) m
    proof (rule force_call_elsewhere)
      fix l1 assume "l = IsLoadBCMFC l1"
      with l(1) have "l1 \<in> set (mfcs_of post)" by (simp add: IsLoadBCMFC_in_mfcs_of)
      with others show "Index l1 \<noteq> Index l2" by blast
    qed
  qed
  then have "vector (ls_run (ls_run st (l1' @ [SetVectorValue (NGFN s + Index l2) w])) cs) (NGFN s + Index l2)
             = vector (ls_run st (l1' @ [SetVectorValue (NGFN s + Index l2) w])) (NGFN s + Index l2)"
    by (intro vector_ls_run_untouched) blast
  then have "vector (ls_run st (m_ls s')) (NGFN s + Index l2) = w"
    by (simp add: log ls_run_append ls_run_Cons)
  with w show "vec_at (rhs l2) dimn = Some (vector (ls_run st (m_ls s')) (NGFN s + Index l2))"
    by simp
qed

theorem constraint_sets_force_entry_witness:
  "vec_at (rhs (ex_mfc\<lparr>Index := 0\<rparr>)) 0 = Some 7 \<and>
   AssembleF_LoadBCMFC 2 0 (ex_mfc\<lparr>Index := 0\<rparr>) [InitializeVector] =
     Inr [InitializeVector, SetVectorValue 2 7] \<and>
   vector (ls_run ex_st [InitializeVector, SetVectorValue 2 7]) 2 = 7 \<and>
   0 < NGFN ex_loaded \<and>
   AssembleF ex_loaded 0 = Inr (ex_loaded\<lparr>m_ls := ex_loaded_calls\<rparr>) \<and>
   SetVectorValue 2 7 \<in> set ex_loaded_calls \<and>
   vector (ls_run ex_st ex_loaded_calls) 2 = 7"
proof -
  let ?c = "ex_mfc\<lparr>Index := 0\<rparr>"
  note t = constraint_sets_force_entry [where ?l1.0 = ?c and dimn = 0 and v = 7 and ngfn = 2
      and ls = "[InitializeVector]" and st = ex_st and s = ex_loaded
      and s' = "ex_loaded\<lparr>m_ls := ex_loaded_calls\<rparr>" and pre = "[]" and ?l2.0 = ?c
      and post = "[IsLoadNode ex_force, IsLoadElement ex_gravity]"]
  have v: "vec_at (rhs ?c) 0 = Some 7" "Index ?c = 0"
    by (simp_all add: vec_at_def ex_mfc_def)
  have ld: "0 < NGFN ex_loaded" "NGFN ex_loaded = 2" "m_ls ex_loaded = []"
    "load ex_loaded = [] @ IsLoadBCMFC ?c # [IsLoadNode ex_force, IsLoadElement ex_gravity]"
    by (simp_all add: ex_loaded_def ex_system_def)
  have c1: "AssembleF_LoadBCMFC 2 0 ?c [InitializeVector] = Inr [InitializeVector, SetVectorValue 2 7] \<and>
            vector (ls_run ex_st [InitializeVector, SetVectorValue 2 7]) 2 = 7"
    using t [THEN conjunct1] v by simp
  have c2: "SetVectorValue 2 7 \<in> set ex_loaded_calls"
    using t [THEN conjunct2, THEN conjunct1] v ld AssembleF_ex_loaded by simp
  have c3: "vector (ls_run ex_st ex_loaded_calls) 2 = 7"
    using t [THEN conjunct2, THEN conjunct2] v ld AssembleF_ex_loaded by simp
  show ?thesis
    using c1 c2 c3 v(1) ld(1) AssembleF_ex_loaded by simp
qed

subsection \<open>The size of a nodal load\<close>

text \<open>
  C7, as the source has it. A \<^verbatim>\<open>LoadNode\<close> whose force vector has a length that is
  not a multiple of the (positive) number of degrees of freedom per point of its
  element makes \<^verbatim>\<open>AssembleF\<close> throw \<^verbatim>\<open>FEMExceptionSolution\<close> (illegal size) before
  any call on the wrapper is made for that load. The wrapper is not untouched then:
  \<^verbatim>\<open>InitializeVector\<close> has been called and the loads before the failing one have been
  applied, and these calls stay.
\<close>

theorem nodal_load_size_is_checked_first:
  "(0 < GetNumberOfDegreesOfFreedomPerPoint (m_element l1) \<and>
    length (F l1) mod GetNumberOfDegreesOfFreedomPerPoint (m_element l1) \<noteq> 0 \<longrightarrow>
      AssembleF_LoadNode ngfn dimn l1 ls =
        Inl (FEMExceptionSolution ''Solver::AssembleF()''
               ''Illegal size of a force vector in LoadNode object!'', ls)) \<and>
   (0 < NGFN s \<and> load s = pre @ IsLoadNode l1 # post \<and>
    for_each (AssembleF_load (NGFN s) dimn (Solver.el s)) pre (m_ls s @ [InitializeVector]) = Inr ls1 \<and>
    0 < GetNumberOfDegreesOfFreedomPerPoint (m_element l1) \<and>
    length (F l1) mod GetNumberOfDegreesOfFreedomPerPoint (m_element l1) \<noteq> 0 \<longrightarrow>
      AssembleF s dimn =
        Inl (FEMExceptionSolution ''Solver::AssembleF()''
               ''Illegal size of a force vector in LoadNode object!'', s\<lparr>m_ls := ls1\<rparr>) \<and>
      (\<exists>cs. ls1 = m_ls s @ InitializeVector # cs))"
proof (intro conjI impI)
  assume "0 < GetNumberOfDegreesOfFreedomPerPoint (m_element l1) \<and>
    length (F l1) mod GetNumberOfDegreesOfFreedomPerPoint (m_element l1) \<noteq> 0"
  then show "AssembleF_LoadNode ngfn dimn l1 ls =
        Inl (FEMExceptionSolution ''Solver::AssembleF()''
               ''Illegal size of a force vector in LoadNode object!'', ls)"
    by (simp add: AssembleF_LoadNode_size)
next
  assume a: "0 < NGFN s \<and> load s = pre @ IsLoadNode l1 # post \<and>
    for_each (AssembleF_load (NGFN s) dimn (Solver.el s)) pre (m_ls s @ [InitializeVector]) = Inr ls1 \<and>
    0 < GetNumberOfDegreesOfFreedomPerPoint (m_element l1) \<and>
    length (F l1) mod GetNumberOfDegreesOfFreedomPerPoint (m_element l1) \<noteq> 0"
  then have bad: "AssembleF_load (NGFN s) dimn (Solver.el s) (IsLoadNode l1) ls1 =
      Inl (FEMExceptionSolution ''Solver::AssembleF()''
               ''Illegal size of a force vector in LoadNode object!'', ls1)"
    by (simp add: AssembleF_LoadNode_size)
  from a have pos: "0 < NGFN s" and ld: "load s = pre @ IsLoadNode l1 # post"
    and pre: "for_each (AssembleF_load (NGFN s) dimn (Solver.el s)) pre
                (m_ls s @ [InitializeVector]) = Inr ls1"
    by blast+
  from pos ld pre bad show "AssembleF s dimn =
        Inl (FEMExceptionSolution ''Solver::AssembleF()''
               ''Illegal size of a force vector in LoadNode object!'', s\<lparr>m_ls := ls1\<rparr>)"
    by (rule AssembleF_first_failure)
  from pre show "\<exists>cs. ls1 = m_ls s @ InitializeVector # cs"
    by (rule AssembleF_pre_log)
qed

theorem nodal_load_size_is_checked_first_witness:
  "0 < GetNumberOfDegreesOfFreedomPerPoint (m_element ex_bad_force) \<and>
   length (F ex_bad_force) mod GetNumberOfDegreesOfFreedomPerPoint (m_element ex_bad_force) \<noteq> 0 \<and>
   0 < NGFN ex_missized \<and>
   AssembleF_LoadNode 2 0 ex_bad_force [InitializeVector, AddVectorValue 1 5] =
     Inl (FEMExceptionSolution ''Solver::AssembleF()''
            ''Illegal size of a force vector in LoadNode object!'',
          [InitializeVector, AddVectorValue 1 5]) \<and>
   AssembleF ex_missized 0 =
     Inl (FEMExceptionSolution ''Solver::AssembleF()''
            ''Illegal size of a force vector in LoadNode object!'',
          ex_missized\<lparr>m_ls := [InitializeVector, AddVectorValue 1 5]\<rparr>)"
proof -
  note t = nodal_load_size_is_checked_first [where ?l1.0 = ex_bad_force and ngfn = 2 and dimn = 0
      and ls = "[InitializeVector, AddVectorValue 1 5]" and s = ex_missized
      and pre = "[IsLoadNode ex_force]" and post = "[]"
      and ?ls1.0 = "[InitializeVector, AddVectorValue 1 5]"]
  have sz: "0 < GetNumberOfDegreesOfFreedomPerPoint (m_element ex_bad_force)"
    "length (F ex_bad_force) mod GetNumberOfDegreesOfFreedomPerPoint (m_element ex_bad_force) \<noteq> 0"
    by (simp_all add: ex_bad_force_def ex_bar_def)
  have s: "0 < NGFN ex_missized" "NGFN ex_missized = 2" "m_ls ex_missized = []"
    "Solver.el ex_missized = [ex_bar]"
    "load ex_missized = [IsLoadNode ex_force] @ IsLoadNode ex_bad_force # []"
    by (simp_all add: ex_missized_def ex_system_def)
  have pre: "for_each (AssembleF_load 2 0 [ex_bar]) [IsLoadNode ex_force] ([] @ [InitializeVector]) =
      Inr [InitializeVector, AddVectorValue 1 5]"
    by (simp add: AssembleF_LoadNode_def AssembleF_LoadNode_dof_def unsigned32_def ex_force_def
        ex_bar_def vec_at_def Let_def)
  have c1: "AssembleF_LoadNode 2 0 ex_bad_force [InitializeVector, AddVectorValue 1 5] =
     Inl (FEMExceptionSolution ''Solver::AssembleF()''
            ''Illegal size of a force vector in LoadNode object!'',
          [InitializeVector, AddVectorValue 1 5])"
    using t [THEN conjunct1] sz by blast
  have c2: "AssembleF ex_missized 0 =
     Inl (FEMExceptionSolution ''Solver::AssembleF()''
            ''Illegal size of a force vector in LoadNode object!'',
          ex_missized\<lparr>m_ls := [InitializeVector, AddVectorValue 1 5]\<rparr>)"
    using t [THEN conjunct2] sz s pre by simp
  show ?thesis using c1 c2 sz s(1) by blast
qed

text \<open>
  C7, as it is stated (the size error is thrown before anything is changed, before any
  change of the vector), fails on the system \<open>ex_missized\<close>: the size error of the second
  load is thrown after \<^verbatim>\<open>InitializeVector\<close> and after the first load has added 5 to
  entry 1 of the vector.
\<close>

theorem nodal_load_size_error_after_mutation:
  "m_ls ex_missized = [] \<and>
   AssembleF ex_missized 0 =
     Inl (FEMExceptionSolution ''Solver::AssembleF()''
            ''Illegal size of a force vector in LoadNode object!'',
          ex_missized\<lparr>m_ls := [InitializeVector, AddVectorValue 1 5]\<rparr>) \<and>
   m_ls (state_of (AssembleF ex_missized 0)) \<noteq> m_ls ex_missized \<and>
   vector (ls_run ex_st (m_ls (state_of (AssembleF ex_missized 0)))) 1
     \<noteq> vector (ls_run ex_st (m_ls ex_missized)) 1"
  by (simp add: AssembleF_ex_missized)
     (simp add: ex_missized_def ex_system_def ex_st_def ls_run_def)

subsection \<open>Reads outside the force vectors\<close>

text \<open>
  C10. The only check on the force vector of a \<^verbatim>\<open>LoadNode\<close> is that its length \<open>L\<close> is
  a multiple of the number \<open>P\<close> of degrees of freedom per point; the read at
  \<^verbatim>\<open>dof+P*dim\<close> is not checked against \<open>L\<close>. The index is the one the code computes,
  in unsigned 32-bit arithmetic. When the length check passes and \<open>i\<close> is the first
  degree of freedom whose index \<open>(i + P * dimn) mod 2^32\<close> is at or beyond \<open>L\<close>, and the
  global freedom numbers up to \<open>i\<close> are in range, the assembly adds the components for
  the degrees of freedom before \<open>i\<close> and then reads outside the vector. When \<open>dimn\<close> is
  not negative and \<open>P * (dimn + 1)\<close> does not exceed \<open>2^32\<close>, nothing wraps: then
  \<open>i + P * dimn\<close> at or beyond \<open>L\<close> for some \<open>i < P\<close> means that the read for the first
  degree of freedom is already outside. In the same way the read of the force vector of
  an element at \<open>(j + dimn * Ne) mod 2^32\<close> is not checked against the length of the
  vector that the element returned. Both reads are reached from \<^verbatim>\<open>AssembleF\<close>; in the
  model a read outside a vector is the result \<open>UndefinedBehaviour\<close>, since \<open>vec_at\<close>
  returns an option.
\<close>

theorem force_vectors_are_read_unchecked:
  "(0 < GetNumberOfDegreesOfFreedomPerPoint (m_element l1) \<and>
    length (F l1) mod GetNumberOfDegreesOfFreedomPerPoint (m_element l1) = 0 \<and>
    i < GetNumberOfDegreesOfFreedomPerPoint (m_element l1) \<and>
    int (length (F l1)) \<le>
      unsigned32 (int i + int (GetNumberOfDegreesOfFreedomPerPoint (m_element l1)) * dimn) \<and>
    (\<forall>j<i. unsigned32 (int j + int (GetNumberOfDegreesOfFreedomPerPoint (m_element l1)) * dimn)
              < int (length (F l1))) \<and>
    (\<forall>j\<le>i. int (GetDegreeOfFreedomAtPoint (m_element l1) (m_pt l1) j) < ngfn) \<longrightarrow>
      AssembleF_LoadNode ngfn dimn l1 ls =
        Inl (UndefinedBehaviour ''read outside LoadNode::F'',
             ls @ map (\<lambda>j. AddVectorValue
                              (int (GetDegreeOfFreedomAtPoint (m_element l1) (m_pt l1) j))
                              (F l1 ! nat (unsigned32
                                 (int j + int (GetNumberOfDegreesOfFreedomPerPoint (m_element l1)) * dimn))))
                     [0..<i])) \<and>
   (0 < GetNumberOfDegreesOfFreedomPerPoint (m_element l1) \<and>
    length (F l1) mod GetNumberOfDegreesOfFreedomPerPoint (m_element l1) = 0 \<and>
    i < GetNumberOfDegreesOfFreedomPerPoint (m_element l1) \<and>
    0 \<le> dimn \<and>
    int (GetNumberOfDegreesOfFreedomPerPoint (m_element l1)) * (dimn + 1) \<le> 2 ^ 32 \<and>
    int (length (F l1)) \<le> int i + int (GetNumberOfDegreesOfFreedomPerPoint (m_element l1)) * dimn \<and>
    int (GetDegreeOfFreedomAtPoint (m_element l1) (m_pt l1) 0) < ngfn \<longrightarrow>
      AssembleF_LoadNode ngfn dimn l1 ls =
        Inl (UndefinedBehaviour ''read outside LoadNode::F'', ls)) \<and>
   (j < GetNumberOfDegreesOfFreedom el0 \<and>
    int (length (Fe el0 (load_data l2))) \<le>
      unsigned32 (int j + dimn * int (GetNumberOfDegreesOfFreedom el0)) \<and>
    (\<forall>k<j. unsigned32 (int k + dimn * int (GetNumberOfDegreesOfFreedom el0))
              < int (length (Fe el0 (load_data l2)))) \<and>
    (\<forall>k\<le>j. int (GetDegreeOfFreedom el0 k) < ngfn) \<and>
    (if LoadElement.el l2 \<noteq> [] then LoadElement.el l2 else els) = el0 # others \<longrightarrow>
      AssembleF_LoadElement ngfn dimn els l2 ls =
        Inl (UndefinedBehaviour ''read outside Fe'',
             ls @ map (\<lambda>k. AddVectorValue (int (GetDegreeOfFreedom el0 k))
                              (Fe el0 (load_data l2) !
                                 nat (unsigned32 (int k + dimn * int (GetNumberOfDegreesOfFreedom el0)))))
                     [0..<j])) \<and>
   (0 < GetNumberOfDegreesOfFreedom el0 \<and> 0 \<le> dimn \<and>
    dimn * int (GetNumberOfDegreesOfFreedom el0) < 2 ^ 32 \<and>
    int (length (Fe el0 (load_data l2))) \<le> dimn * int (GetNumberOfDegreesOfFreedom el0) \<and>
    int (GetDegreeOfFreedom el0 0) < ngfn \<and>
    (if LoadElement.el l2 \<noteq> [] then LoadElement.el l2 else els) = el0 # others \<longrightarrow>
      AssembleF_LoadElement ngfn dimn els l2 ls =
        Inl (UndefinedBehaviour ''read outside Fe'', ls)) \<and>
   (0 < NGFN s \<and> load s = pre @ l # post \<and>
    for_each (AssembleF_load (NGFN s) dimn (Solver.el s)) pre (m_ls s @ [InitializeVector]) = Inr ls1 \<and>
    AssembleF_load (NGFN s) dimn (Solver.el s) l ls1 = Inl (UndefinedBehaviour why, ls2) \<longrightarrow>
      AssembleF s dimn = Inl (UndefinedBehaviour why, s\<lparr>m_ls := ls2\<rparr>))"
proof -
  let ?P = "GetNumberOfDegreesOfFreedomPerPoint (m_element l1)"
  let ?Ne = "GetNumberOfDegreesOfFreedom el0"
  have n1: "AssembleF_LoadNode ngfn dimn l1 ls =
        Inl (UndefinedBehaviour ''read outside LoadNode::F'',
             ls @ map (\<lambda>j. AddVectorValue
                              (int (GetDegreeOfFreedomAtPoint (m_element l1) (m_pt l1) j))
                              (F l1 ! nat (unsigned32 (int j + int ?P * dimn))))
                     [0..<i])"
    if "0 < ?P \<and> length (F l1) mod ?P = 0 \<and> i < ?P \<and>
        int (length (F l1)) \<le> unsigned32 (int i + int ?P * dimn) \<and>
        (\<forall>j<i. unsigned32 (int j + int ?P * dimn) < int (length (F l1))) \<and>
        (\<forall>j\<le>i. int (GetDegreeOfFreedomAtPoint (m_element l1) (m_pt l1) j) < ngfn)"
    using that by (intro AssembleF_LoadNode_first_outside) blast+
  have n2: "AssembleF_LoadNode ngfn dimn l1 ls =
        Inl (UndefinedBehaviour ''read outside LoadNode::F'', ls)"
    if "0 < ?P \<and> length (F l1) mod ?P = 0 \<and> i < ?P \<and> 0 \<le> dimn \<and>
        int ?P * (dimn + 1) \<le> 2 ^ 32 \<and> int (length (F l1)) \<le> int i + int ?P * dimn \<and>
        int (GetDegreeOfFreedomAtPoint (m_element l1) (m_pt l1) 0) < ngfn"
    using that by (intro AssembleF_LoadNode_outside [of l1 i]) blast+
  have e1: "AssembleF_LoadElement ngfn dimn els l2 ls =
        Inl (UndefinedBehaviour ''read outside Fe'',
             ls @ map (\<lambda>k. AddVectorValue (int (GetDegreeOfFreedom el0 k))
                              (Fe el0 (load_data l2) ! nat (unsigned32 (int k + dimn * int ?Ne))))
                     [0..<j])"
    if a: "j < ?Ne \<and>
        int (length (Fe el0 (load_data l2))) \<le> unsigned32 (int j + dimn * int ?Ne) \<and>
        (\<forall>k<j. unsigned32 (int k + dimn * int ?Ne) < int (length (Fe el0 (load_data l2)))) \<and>
        (\<forall>k\<le>j. int (GetDegreeOfFreedom el0 k) < ngfn) \<and>
        (if LoadElement.el l2 \<noteq> [] then LoadElement.el l2 else els) = el0 # others"
  proof -
    from a have tg: "(if LoadElement.el l2 \<noteq> [] then LoadElement.el l2 else els) = el0 # others"
      by blast
    from a have "AssembleF_LoadElement_on ngfn dimn l2 el0 ls =
        Inl (UndefinedBehaviour ''read outside Fe'',
             ls @ map (\<lambda>k. AddVectorValue (int (GetDegreeOfFreedom el0 k))
                              (Fe el0 (load_data l2) ! nat (unsigned32 (int k + dimn * int ?Ne))))
                     [0..<j])"
      by (intro AssembleF_LoadElement_on_first_outside) blast+
    with tg show ?thesis by (rule AssembleF_LoadElement_first_target)
  qed
  have e2: "AssembleF_LoadElement ngfn dimn els l2 ls =
        Inl (UndefinedBehaviour ''read outside Fe'', ls)"
    if a: "0 < ?Ne \<and> 0 \<le> dimn \<and> dimn * int ?Ne < 2 ^ 32 \<and>
        int (length (Fe el0 (load_data l2))) \<le> dimn * int ?Ne \<and>
        int (GetDegreeOfFreedom el0 0) < ngfn \<and>
        (if LoadElement.el l2 \<noteq> [] then LoadElement.el l2 else els) = el0 # others"
  proof -
    from a have tg: "(if LoadElement.el l2 \<noteq> [] then LoadElement.el l2 else els) = el0 # others"
      by blast
    from a have "AssembleF_LoadElement_on ngfn dimn l2 el0 ls =
        Inl (UndefinedBehaviour ''read outside Fe'', ls)"
      by (intro AssembleF_LoadElement_on_outside) blast+
    with tg show ?thesis by (rule AssembleF_LoadElement_first_target)
  qed
  have t: "AssembleF s dimn = Inl (UndefinedBehaviour why, s\<lparr>m_ls := ls2\<rparr>)"
    if a: "0 < NGFN s \<and> load s = pre @ l # post \<and>
        for_each (AssembleF_load (NGFN s) dimn (Solver.el s)) pre (m_ls s @ [InitializeVector]) = Inr ls1 \<and>
        AssembleF_load (NGFN s) dimn (Solver.el s) l ls1 = Inl (UndefinedBehaviour why, ls2)"
  proof -
    from a have pos: "0 < NGFN s" and ld: "load s = pre @ l # post"
      and pre: "for_each (AssembleF_load (NGFN s) dimn (Solver.el s)) pre
                  (m_ls s @ [InitializeVector]) = Inr ls1"
      and bad: "AssembleF_load (NGFN s) dimn (Solver.el s) l ls1 = Inl (UndefinedBehaviour why, ls2)"
      by blast+
    from pos ld pre bad show ?thesis by (rule AssembleF_first_failure)
  qed
  from n1 n2 e1 e2 t show ?thesis by blast
qed

theorem force_vectors_are_read_unchecked_witness:
  "length (F ex_wide_force) mod GetNumberOfDegreesOfFreedomPerPoint (m_element ex_wide_force) = 0 \<and>
   int (length (F ex_wide_force)) \<le>
     unsigned32 (int 0 + int (GetNumberOfDegreesOfFreedomPerPoint (m_element ex_wide_force)) * 1073741825) \<and>
   AssembleF_LoadNode 4 1073741825 ex_wide_force [InitializeVector] =
     Inl (UndefinedBehaviour ''read outside LoadNode::F'', [InitializeVector]) \<and>
   length (F ex_force) mod GetNumberOfDegreesOfFreedomPerPoint (m_element ex_force) = 0 \<and>
   int (length (F ex_force)) \<le> int 0 + int (GetNumberOfDegreesOfFreedomPerPoint (m_element ex_force)) * 1 \<and>
   AssembleF_LoadNode 2 1 ex_force [InitializeVector] =
     Inl (UndefinedBehaviour ''read outside LoadNode::F'', [InitializeVector]) \<and>
   int (length (Fe ex_bar (load_data ex_gravity))) \<le>
     unsigned32 (int 0 + (- 2147483647) * int (GetNumberOfDegreesOfFreedom ex_bar)) \<and>
   AssembleF_LoadElement 2 (- 2147483647) [ex_bar] ex_gravity [InitializeVector] =
     Inl (UndefinedBehaviour ''read outside Fe'', [InitializeVector]) \<and>
   int (length (Fe ex_bar (load_data ex_gravity))) \<le> 1 * int (GetNumberOfDegreesOfFreedom ex_bar) \<and>
   AssembleF_LoadElement 2 1 [ex_bar] ex_gravity [InitializeVector] =
     Inl (UndefinedBehaviour ''read outside Fe'', [InitializeVector]) \<and>
   0 < NGFN ex_nodal \<and>
   AssembleF ex_nodal 1 =
     Inl (UndefinedBehaviour ''read outside LoadNode::F'', ex_nodal\<lparr>m_ls := [InitializeVector]\<rparr>) \<and>
   0 < NGFN ex_elemental \<and>
   AssembleF ex_elemental 1 =
     Inl (UndefinedBehaviour ''read outside Fe'', ex_elemental\<lparr>m_ls := [InitializeVector]\<rparr>)"
proof -
  note w = force_vectors_are_read_unchecked [where ?l1.0 = ex_wide_force and i = 0
      and dimn = 1073741825 and ngfn = 4 and ls = "[InitializeVector]", THEN conjunct1]
  note t1 = force_vectors_are_read_unchecked [where ?l1.0 = ex_force and i = 0 and dimn = 1
      and ngfn = 2 and ls = "[InitializeVector]" and ?el0.0 = ex_bar and ?l2.0 = ex_gravity
      and els = "[ex_bar]" and others = "[]" and s = ex_nodal and pre = "[]"
      and l = "IsLoadNode ex_force" and post = "[]" and ?ls1.0 = "[InitializeVector]"
      and ?ls2.0 = "[InitializeVector]" and why = "''read outside LoadNode::F''"]
  note t2 = force_vectors_are_read_unchecked [where dimn = 1 and s = ex_elemental and pre = "[]"
      and l = "IsLoadElement ex_gravity" and post = "[]" and ?ls1.0 = "[InitializeVector]"
      and ?ls2.0 = "[InitializeVector]" and why = "''read outside Fe''"]
  note v = force_vectors_are_read_unchecked [where j = 0 and dimn = "- 2147483647"
      and ngfn = 2 and ls = "[InitializeVector]" and ?el0.0 = ex_bar and ?l2.0 = ex_gravity
      and els = "[ex_bar]" and others = "[]", THEN conjunct2, THEN conjunct2, THEN conjunct1]
  have wide: "0 < GetNumberOfDegreesOfFreedomPerPoint (m_element ex_wide_force)"
    "length (F ex_wide_force) mod GetNumberOfDegreesOfFreedomPerPoint (m_element ex_wide_force) = 0"
    "int (length (F ex_wide_force)) \<le>
       unsigned32 (int 0 + int (GetNumberOfDegreesOfFreedomPerPoint (m_element ex_wide_force)) * 1073741825)"
    "int (GetDegreeOfFreedomAtPoint (m_element ex_wide_force) (m_pt ex_wide_force) 0) < 4"
    by (simp_all add: ex_wide_force_def ex_bar_def unsigned32_def)
  have nodal: "0 < GetNumberOfDegreesOfFreedomPerPoint (m_element ex_force)"
    "length (F ex_force) mod GetNumberOfDegreesOfFreedomPerPoint (m_element ex_force) = 0"
    "int (length (F ex_force)) \<le> int 0 + int (GetNumberOfDegreesOfFreedomPerPoint (m_element ex_force)) * 1"
    "int (GetNumberOfDegreesOfFreedomPerPoint (m_element ex_force)) * (1 + 1) \<le> 2 ^ 32"
    "int (GetDegreeOfFreedomAtPoint (m_element ex_force) (m_pt ex_force) 0) < 2"
    by (simp_all add: ex_force_def ex_bar_def)
  have elem: "0 < GetNumberOfDegreesOfFreedom ex_bar" "int (GetDegreeOfFreedom ex_bar 0) < 2"
    "int (length (Fe ex_bar (load_data ex_gravity))) \<le>
       unsigned32 (int 0 + (- 2147483647) * int (GetNumberOfDegreesOfFreedom ex_bar))"
    "int (length (Fe ex_bar (load_data ex_gravity))) \<le> 1 * int (GetNumberOfDegreesOfFreedom ex_bar)"
    "1 * int (GetNumberOfDegreesOfFreedom ex_bar) < 2 ^ 32"
    "(if LoadElement.el ex_gravity \<noteq> [] then LoadElement.el ex_gravity else [ex_bar]) = ex_bar # []"
    by (simp_all add: ex_bar_def ex_gravity_def unsigned32_def)
  have c0: "AssembleF_LoadNode 4 1073741825 ex_wide_force [InitializeVector] =
     Inl (UndefinedBehaviour ''read outside LoadNode::F'', [InitializeVector])"
    using w wide by simp
  have c1: "AssembleF_LoadNode 2 1 ex_force [InitializeVector] =
     Inl (UndefinedBehaviour ''read outside LoadNode::F'', [InitializeVector])"
    using t1 [THEN conjunct2, THEN conjunct1] nodal by simp
  have c2: "AssembleF_LoadElement 2 (- 2147483647) [ex_bar] ex_gravity [InitializeVector] =
     Inl (UndefinedBehaviour ''read outside Fe'', [InitializeVector])"
    using v elem by simp
  have c3: "AssembleF_LoadElement 2 1 [ex_bar] ex_gravity [InitializeVector] =
     Inl (UndefinedBehaviour ''read outside Fe'', [InitializeVector])"
    using t1 [THEN conjunct2, THEN conjunct2, THEN conjunct2, THEN conjunct1] elem by simp
  have sn: "0 < NGFN ex_nodal" "NGFN ex_nodal = 2" "m_ls ex_nodal = []"
    "Solver.el ex_nodal = [ex_bar]" "load ex_nodal = [] @ IsLoadNode ex_force # []"
    by (simp_all add: ex_nodal_def ex_system_def)
  have se: "0 < NGFN ex_elemental" "NGFN ex_elemental = 2" "m_ls ex_elemental = []"
    "Solver.el ex_elemental = [ex_bar]" "load ex_elemental = [] @ IsLoadElement ex_gravity # []"
    by (simp_all add: ex_elemental_def ex_system_def)
  have c4: "AssembleF ex_nodal 1 =
     Inl (UndefinedBehaviour ''read outside LoadNode::F'', ex_nodal\<lparr>m_ls := [InitializeVector]\<rparr>)"
    using t1 [THEN conjunct2, THEN conjunct2, THEN conjunct2, THEN conjunct2] sn c1 by simp
  have c5: "AssembleF ex_elemental 1 =
     Inl (UndefinedBehaviour ''read outside Fe'', ex_elemental\<lparr>m_ls := [InitializeVector]\<rparr>)"
    using t2 [THEN conjunct2, THEN conjunct2, THEN conjunct2, THEN conjunct2] se c3 by simp
  show ?thesis
    using c0 c1 c2 c3 c4 c5 wide(2,3) nodal(2,3) elem(3,4) sn(1) se(1) by blast
qed

text \<open>
  The index is not the integer \<open>dof + P * dim\<close>. On \<open>ex_wide_force\<close> (\<open>P = 4\<close>, \<open>L = 4\<close>)
  with dimension \<open>2^30\<close> the length check passes and \<open>dof + P * dim\<close> is beyond \<open>L\<close> for
  every \<open>dof\<close>, yet \<open>P * dim\<close> wraps to zero: the four reads are at the indices 0 to 3,
  inside the vector, and the assembly returns normally.
\<close>

theorem nodal_index_wraps_into_range:
  "0 < GetNumberOfDegreesOfFreedomPerPoint (m_element ex_wide_force) \<and>
   length (F ex_wide_force) mod GetNumberOfDegreesOfFreedomPerPoint (m_element ex_wide_force) = 0 \<and>
   int (length (F ex_wide_force)) \<le>
     int 0 + int (GetNumberOfDegreesOfFreedomPerPoint (m_element ex_wide_force)) * 1073741824 \<and>
   AssembleF_LoadNode 4 1073741824 ex_wide_force [InitializeVector] =
     Inr [InitializeVector, AddVectorValue 0 1, AddVectorValue 1 2, AddVectorValue 2 3,
          AddVectorValue 3 4] \<and>
   AssembleF ex_wide 1073741824 =
     Inr (ex_wide\<lparr>m_ls := [InitializeVector, AddVectorValue 0 1, AddVectorValue 1 2,
                             AddVectorValue 2 3, AddVectorValue 3 4]\<rparr>)"
  by (simp add: AssembleF_def ex_wide_def ex_system_def ex_wide_force_def ex_bar_def
      AssembleF_LoadNode_def AssembleF_LoadNode_dof_def unsigned32_def vec_at_def upt_rec Let_def)

subsection \<open>The end of the numbering pass\<close>

text \<open>
  C9. After the elements are linked, \<^verbatim>\<open>GenerateGFN\<close> sets \<^verbatim>\<open>NGFN\<close> to the counter
  plus one, in every case. It then returns normally in every case: for a solver
  without elements the counter still has the value it was reset to, \<^verbatim>\<open>NGFN\<close> is that
  value plus one, and nothing is reported. The test \<^verbatim>\<open>NGFN>0\<close> of line 294, with its
  comment about a system that was not defined, is followed by the end of the function.
\<close>

theorem GenerateGFN_returns_normally:
  "(\<exists>s'. GenerateGFN cls s = Inr s' \<and> NGFN s' = m_DOFCounter s' + 1) \<and>
   GenerateGFN cls (s\<lparr>el := []\<rparr>) =
     Inr (s\<lparr>el := [], node := map (\<lambda>n. n\<lparr>m_elements := {}\<rparr>) (node s),
            m_DOFCounter := DOFCounter_reset cls, NGFN := DOFCounter_reset cls + 1\<rparr>)"
  by (simp add: GenerateGFN_def Let_def clear_m_elements_def)

theorem GenerateGFN_returns_normally_witness:
  "GenerateGFN ex_class ex_no_elements =
     Inr (ex_no_elements\<lparr>node := [\<lparr>m_elements = {}\<rparr>, \<lparr>m_elements = {}\<rparr>],
                         m_DOFCounter := - 1, NGFN := 0\<rparr>) \<and>
   GenerateGFN ex_class ex_two_nodes =
     Inr (ex_two_nodes\<lparr>node := [\<lparr>m_elements = {0}\<rparr>, \<lparr>m_elements = {0}\<rparr>],
                       m_DOFCounter := 1, NGFN := 2\<rparr>)"
proof -
  have e: "ex_no_elements\<lparr>el := []\<rparr> = ex_no_elements"
    by (simp add: ex_no_elements_def)
  have 1: "GenerateGFN ex_class ex_no_elements =
     Inr (ex_no_elements\<lparr>node := [\<lparr>m_elements = {}\<rparr>, \<lparr>m_elements = {}\<rparr>],
                         m_DOFCounter := - 1, NGFN := 0\<rparr>)"
    using GenerateGFN_returns_normally [of ex_class ex_no_elements, THEN conjunct2]
    unfolding e by (simp add: ex_class_def) (simp add: ex_no_elements_def)
  have 2: "GenerateGFN ex_class ex_two_nodes =
     Inr (ex_two_nodes\<lparr>node := [\<lparr>m_elements = {0}\<rparr>, \<lparr>m_elements = {0}\<rparr>],
                       m_DOFCounter := 1, NGFN := 2\<rparr>)"
    by (simp add: GenerateGFN_def Let_def clear_m_elements_def register_element_def
        ex_two_nodes_def ex_no_elements_def ex_class_def ex_bar_def upt_rec)
  from 1 2 show ?thesis by blast
qed

subsection \<open>Reading one object\<close>

text \<open>
  C8, as the source has it. \<open>f\<close> is the stream at entry and \<open>SkipWhiteSpace lib f\<close> the
  stream after white space and comments. If that is at the end of the input, the reader
  returns no object and no error. If its next character is not \<^verbatim>\<open><\<close>, or if the class
  name (read without putting the stream in a failed state) is not \<^verbatim>\<open>END\<close> and is
  unknown to the factory or no object can be created for it, the stream is set back to
  the position it had at entry and the exception of the reader is thrown. If the
  \<^verbatim>\<open>Read\<close> of the created object throws, that same exception leaves the reader, and
  the stream is as \<^verbatim>\<open>Read\<close> left it. If the class name is \<^verbatim>\<open>END\<close>, the reader
  starts again behind it.
\<close>

theorem reading_one_object:
  "(eofbit (SkipWhiteSpace lib f) \<longrightarrow>
      ReadAnyObjectFromStream lib nodes mats els f = Some (Inr (None, SkipWhiteSpace lib f))) \<and>
   (\<not> failbit f \<and> good (SkipWhiteSpace lib f) \<and>
    gpos (SkipWhiteSpace lib f) < length (content (SkipWhiteSpace lib f)) \<and>
    content (SkipWhiteSpace lib f) ! gpos (SkipWhiteSpace lib f) \<noteq> CHR ''<'' \<longrightarrow>
      ReadAnyObjectFromStream lib nodes mats els f =
        Some (Inl (FEMExceptionIO ''Solver::ReadAnyObjectFromStream()''
                     ''Error reading FEM problem stream!'',
                   (SkipWhiteSpace lib f)\<lparr>gpos := gpos f\<rparr>))) \<and>
   (\<not> failbit f \<and> \<not> eofbit (SkipWhiteSpace lib f) \<and>
    get (SkipWhiteSpace lib f) = (Some CHR ''<'', f2) \<and>
    read_class_name (whitespaces lib) f2 = (f3, Inr s) \<and> s \<noteq> ''END'' \<and> \<not> failbit f3 \<and>
    (ClassName2ID lib s < 0 \<or> Create lib (ClassName2ID lib s) = None) \<longrightarrow>
      ReadAnyObjectFromStream lib nodes mats els f =
        Some (Inl (FEMExceptionIO ''Solver::ReadAnyObjectFromStream()''
                     ''Error reading FEM problem stream!'',
                   f3\<lparr>gpos := gpos f\<rparr>))) \<and>
   (\<not> eofbit (SkipWhiteSpace lib f) \<and>
    get (SkipWhiteSpace lib f) = (Some CHR ''<'', f2) \<and>
    read_class_name (whitespaces lib) f2 = (f3, Inr s) \<and> s \<noteq> ''END'' \<and>
    0 \<le> ClassName2ID lib s \<and> Create lib (ClassName2ID lib s) = Some a \<and>
    Read lib a f3
      (case class_of lib a of
         IsElement \<Rightarrow> ElementReadInfo nodes mats
       | IsLoad \<Rightarrow> LoadReadInfo nodes els
       | IsOtherObject \<Rightarrow> NoReadInfo) = (f4, Inl x) \<longrightarrow>
      ReadAnyObjectFromStream lib nodes mats els f = Some (Inl (x, f4))) \<and>
   (\<not> eofbit (SkipWhiteSpace lib f) \<and>
    get (SkipWhiteSpace lib f) = (Some CHR ''<'', f2) \<and>
    read_class_name (whitespaces lib) f2 = (f3, Inr ''END'') \<longrightarrow>
      ReadAnyObjectFromStream lib nodes mats els f =
        ReadAnyObjectFromStream lib nodes mats els f3)"
proof (intro conjI impI)
  assume "eofbit (SkipWhiteSpace lib f)"
  then show "ReadAnyObjectFromStream lib nodes mats els f = Some (Inr (None, SkipWhiteSpace lib f))"
    by (intro ReadAnyObjectFromStream_Inr) (simp add: ReadAnyObject_pass_def Let_def)
next
  let ?f1 = "SkipWhiteSpace lib f"
  assume a: "\<not> failbit f \<and> good ?f1 \<and> gpos ?f1 < length (content ?f1) \<and>
    content ?f1 ! gpos ?f1 \<noteq> CHR ''<''"
  then have g: "get ?f1 = (Some (content ?f1 ! gpos ?f1), ?f1\<lparr>gpos := gpos ?f1 + 1\<rparr>)"
    by (simp add: get_char)
  from a have nf: "\<not> failbit ?f1" "\<not> eofbit ?f1" by (simp_all add: good_def)
  from a nf show "ReadAnyObjectFromStream lib nodes mats els f =
        Some (Inl (FEMExceptionIO ''Solver::ReadAnyObjectFromStream()''
                     ''Error reading FEM problem stream!'', ?f1\<lparr>gpos := gpos f\<rparr>))"
    by (intro ReadAnyObjectFromStream_Inr)
       (simp add: ReadAnyObject_pass_def Let_def g out_def tellg_def seekg_def)
next
  let ?f1 = "SkipWhiteSpace lib f"
  assume a: "\<not> failbit f \<and> \<not> eofbit ?f1 \<and> get ?f1 = (Some CHR ''<'', f2) \<and>
    read_class_name (whitespaces lib) f2 = (f3, Inr s) \<and> s \<noteq> ''END'' \<and> \<not> failbit f3 \<and>
    (ClassName2ID lib s < 0 \<or> Create lib (ClassName2ID lib s) = None)"
  then show "ReadAnyObjectFromStream lib nodes mats els f =
        Some (Inl (FEMExceptionIO ''Solver::ReadAnyObjectFromStream()''
                     ''Error reading FEM problem stream!'', f3\<lparr>gpos := gpos f\<rparr>))"
    by (intro ReadAnyObjectFromStream_Inr)
       (auto simp: ReadAnyObject_pass_def Let_def out_def tellg_def seekg_def)
next
  let ?f1 = "SkipWhiteSpace lib f"
  assume a: "\<not> eofbit ?f1 \<and> get ?f1 = (Some CHR ''<'', f2) \<and>
    read_class_name (whitespaces lib) f2 = (f3, Inr s) \<and> s \<noteq> ''END'' \<and>
    0 \<le> ClassName2ID lib s \<and> Create lib (ClassName2ID lib s) = Some a \<and>
    Read lib a f3
      (case class_of lib a of
         IsElement \<Rightarrow> ElementReadInfo nodes mats
       | IsLoad \<Rightarrow> LoadReadInfo nodes els
       | IsOtherObject \<Rightarrow> NoReadInfo) = (f4, Inl x)"
  then show "ReadAnyObjectFromStream lib nodes mats els f = Some (Inl (x, f4))"
    by (intro ReadAnyObjectFromStream_Inr) (simp add: ReadAnyObject_pass_def Let_def)
next
  let ?f1 = "SkipWhiteSpace lib f"
  assume a: "\<not> eofbit ?f1 \<and> get ?f1 = (Some CHR ''<'', f2) \<and>
    read_class_name (whitespaces lib) f2 = (f3, Inr ''END'')"
  then show "ReadAnyObjectFromStream lib nodes mats els f =
        ReadAnyObjectFromStream lib nodes mats els f3"
    by (intro ReadAnyObjectFromStream_Inl) (simp add: ReadAnyObject_pass_def Let_def)
qed

theorem reading_one_object_witness:
  "ReadAnyObjectFromStream ex_lib () () () (ex_stream ''<END>  '' 5) =
     Some (Inr (None, (ex_stream ''<END>  '' 7)\<lparr>eofbit := True\<rparr>)) \<and>
   ReadAnyObjectFromStream ex_lib () () () (ex_stream '' Node>1'' 0) =
     Some (Inl (FEMExceptionIO ''Solver::ReadAnyObjectFromStream()''
                  ''Error reading FEM problem stream!'', ex_stream '' Node>1'' 0)) \<and>
   ReadAnyObjectFromStream ex_lib () () () (ex_stream ''  < Beam >1'' 0) =
     Some (Inl (FEMExceptionIO ''Solver::ReadAnyObjectFromStream()''
                  ''Error reading FEM problem stream!'', ex_stream ''  < Beam >1'' 0)) \<and>
   ReadAnyObjectFromStream ex_lib () () () (ex_stream ''<END> <Node>x'' 5) =
     Some (Inl (FEMExceptionIO ''Node::Read()'' ''Error reading FEM object!'',
                ex_stream ''<END> <Node>x'' 13)) \<and>
   ReadAnyObjectFromStream ex_lib () () () (ex_stream ''<END> <Node>x'' 0) =
     ReadAnyObjectFromStream ex_lib () () () (ex_stream ''<END> <Node>x'' 5)"
proof -
  have skip: "SkipWhiteSpace ex_lib = ex_skip" "whitespaces ex_lib = '' ''"
    by (simp_all add: ex_lib_def)
  have c1: "ReadAnyObjectFromStream ex_lib () () () (ex_stream ''<END>  '' 5) =
     Some (Inr (None, (ex_stream ''<END>  '' 7)\<lparr>eofbit := True\<rparr>))"
    using reading_one_object [where lib = ex_lib and f = "ex_stream ''<END>  '' 5"
        and nodes = "()" and mats = "()" and els = "()", THEN conjunct1]
    by (simp add: skip ex_skip_def ex_stream_def)
  have c2: "ReadAnyObjectFromStream ex_lib () () () (ex_stream '' Node>1'' 0) =
     Some (Inl (FEMExceptionIO ''Solver::ReadAnyObjectFromStream()''
                  ''Error reading FEM problem stream!'', ex_stream '' Node>1'' 0))"
    using reading_one_object [where lib = ex_lib and f = "ex_stream '' Node>1'' 0"
        and nodes = "()" and mats = "()" and els = "()", THEN conjunct2, THEN conjunct1]
    by (simp add: skip ex_skip_def ex_stream_def good_def)
  have c3: "ReadAnyObjectFromStream ex_lib () () () (ex_stream ''  < Beam >1'' 0) =
     Some (Inl (FEMExceptionIO ''Solver::ReadAnyObjectFromStream()''
                  ''Error reading FEM problem stream!'', ex_stream ''  < Beam >1'' 0))"
    using reading_one_object [where lib = ex_lib and f = "ex_stream ''  < Beam >1'' 0"
        and nodes = "()" and mats = "()" and els = "()"
        and ?f2.0 = "ex_stream ''  < Beam >1'' 3" and ?f3.0 = "ex_stream ''  < Beam >1'' 10"
        and s = "''Beam''", THEN conjunct2, THEN conjunct2, THEN conjunct1]
    by (simp add: skip ex_skip_def ex_stream_def good_def get_def read_class_name_def getline_def
        find_first_not_of_def find_first_of_def substr_def Let_def)
       (simp add: ex_lib_def)
  have c4: "ReadAnyObjectFromStream ex_lib () () () (ex_stream ''<END> <Node>x'' 5) =
     Some (Inl (FEMExceptionIO ''Node::Read()'' ''Error reading FEM object!'',
                ex_stream ''<END> <Node>x'' 13))"
    using reading_one_object [where lib = ex_lib and f = "ex_stream ''<END> <Node>x'' 5"
        and nodes = "()" and mats = "()" and els = "()"
        and ?f2.0 = "ex_stream ''<END> <Node>x'' 7" and ?f3.0 = "ex_stream ''<END> <Node>x'' 12"
        and s = "''Node''" and a = 0 and ?f4.0 = "ex_stream ''<END> <Node>x'' 13"
        and x = "FEMExceptionIO ''Node::Read()'' ''Error reading FEM object!''",
        THEN conjunct2, THEN conjunct2, THEN conjunct2, THEN conjunct1]
    by (simp add: skip ex_skip_def ex_stream_def good_def get_def read_class_name_def getline_def
        find_first_not_of_def find_first_of_def substr_def Let_def)
       (simp add: ex_lib_def ex_Read_def get_def good_def)
  have c5: "ReadAnyObjectFromStream ex_lib () () () (ex_stream ''<END> <Node>x'' 0) =
     ReadAnyObjectFromStream ex_lib () () () (ex_stream ''<END> <Node>x'' 5)"
    using reading_one_object [where lib = ex_lib and f = "ex_stream ''<END> <Node>x'' 0"
        and nodes = "()" and mats = "()" and els = "()"
        and ?f2.0 = "ex_stream ''<END> <Node>x'' 1" and ?f3.0 = "ex_stream ''<END> <Node>x'' 5",
        THEN conjunct2, THEN conjunct2, THEN conjunct2, THEN conjunct2]
    by (simp add: skip ex_skip_def ex_stream_def good_def get_def read_class_name_def getline_def
        find_first_not_of_def find_first_of_def substr_def Let_def)
  from c1 c2 c3 c4 c5 show ?thesis by blast
qed

text \<open>
  C8, as it is stated (a failure of the object's own decoding sets the stream back and
  raises the read error of the reader), fails on the input \<^verbatim>\<open><END> <Node>x\<close>: the
  exception is the one thrown by the \<^verbatim>\<open>Read\<close> of the node and the stream stays behind
  the character that \<^verbatim>\<open>Read\<close> took, at position 13, neither at the position 0 of
  entry nor at the position 5 behind \<^verbatim>\<open>END\<close>. The second input, a class name without
  any character, leaves the reader with \<^verbatim>\<open>std::out_of_range\<close> from \<^verbatim>\<open>substr\<close> and the
  stream behind the name.
\<close>

theorem decoding_failure_is_not_rewound:
  "tellg (ex_stream ''<END> <Node>x'' 0) = Some 0 \<and>
   ReadAnyObjectFromStream ex_lib () () () (ex_stream ''<END> <Node>x'' 0) =
     Some (Inl (FEMExceptionIO ''Node::Read()'' ''Error reading FEM object!'',
                ex_stream ''<END> <Node>x'' 13)) \<and>
   ReadAnyObjectFromStream ex_lib () () () (ex_stream ''<>'' 0) =
     Some (Inl (std_out_of_range, ex_stream ''<>'' 2))"
proof -
  have "tellg (ex_stream ''<END> <Node>x'' 0) = Some 0"
    by (simp add: tellg_def ex_stream_def)
  moreover have "ReadAnyObjectFromStream ex_lib () () () (ex_stream ''<END> <Node>x'' 0) =
     Some (Inl (FEMExceptionIO ''Node::Read()'' ''Error reading FEM object!'',
                ex_stream ''<END> <Node>x'' 13))"
    by (simp only: ReadAnyObjectFromStream_Inl [OF ex_pass_END]
        ReadAnyObjectFromStream_Inr [OF ex_pass_Node])
  moreover have "ReadAnyObjectFromStream ex_lib () () () (ex_stream ''<>'' 0) =
     Some (Inl (std_out_of_range, ex_stream ''<>'' 2))"
    by (rule ReadAnyObjectFromStream_Inr [OF ex_pass_blank])
  ultimately show ?thesis by blast
qed

end
